(* ===== verification/Prelude.thy ===== *)
theory Prelude
  imports Main "HOL-Library.Word" "HOL-Library.AList" "HOL-Library.Multiset"
begin

text \<open>
  The shared base of the development: the machine integers and byte strings of the Go program,
  the fact collections the component theories fill, and the generic lemmas on lists,
  association lists and decimal numerals they share.

  Go's \<open>string\<close> is a byte sequence, modelled as a HOL \<open>string\<close> (a list of 8-bit characters).
  A Go map with string keys is a finite map, modelled as an association list read with
  \<open>map_of\<close>, written with \<open>AList.update\<close> and cleared with \<open>AList.delete\<close>: it is finite by
  construction, so a loop over its keys ends, and it evaluates.
\<close>

subsection \<open>Machine integers\<close>

type_synonym u64 = "64 word"
type_synonym i64 = "64 word"
type_synonym byte = "8 word"
type_synonym smap = "(string \<times> string) list"

subsection \<open>Fact collections\<close>

named_theorems series_simps
  \<open>equations that evaluate one call of a self-decimating sampler\<close>

named_theorems listener_simps
  \<open>equations that evaluate the fold of one event into the listener state\<close>

named_theorems prog_simps
  \<open>equations that run the program monad\<close>

named_theorems keeps_intros
  \<open>rules that show a program fragment gives back every resource it takes\<close>

named_theorems gives_intros
  \<open>rules for what a returned value tells about the calls behind it\<close>

named_theorems takes_intros
  \<open>rules for the program fragments that take or give back a resource\<close>

subsection \<open>Decimal numerals: the verb \<open>%d\<close> of package fmt\<close>

definition digit_char :: "nat \<Rightarrow> char" where
  "digit_char d = char_of (48 + d)"

fun dec_nat :: "nat \<Rightarrow> string" where
  "dec_nat n = (if n < 10 then [digit_char n] else dec_nat (n div 10) @ [digit_char (n mod 10)])"

declare dec_nat.simps [simp del]

definition dec_int :: "int \<Rightarrow> string" where
  "dec_int i = (if i < 0 then CHR ''-'' # dec_nat (nat (- i)) else dec_nat (nat i))"

definition is_digit :: "char \<Rightarrow> bool" where
  "is_digit c \<longleftrightarrow> 48 \<le> (of_char c :: nat) \<and> (of_char c :: nat) \<le> 57"

definition digit_val :: "char \<Rightarrow> nat" where
  "digit_val c = of_char c - 48"

text \<open>The value of a string of decimal digits, most significant first.\<close>

definition digits_val :: "string \<Rightarrow> int" where
  "digits_val s = foldl (\<lambda>acc c. 10 * acc + int (digit_val c)) 0 s"

lemma digit_char_facts [simp]:
  assumes "d < 10"
  shows "is_digit (digit_char d)" and "digit_val (digit_char d) = d"
  using assms by (simp_all add: digit_char_def is_digit_def digit_val_def)

lemma dec_nat_digits: "list_all is_digit (dec_nat n)"
  by (induction n rule: dec_nat.induct) (subst dec_nat.simps, simp)

lemma dec_nat_nonempty [simp]: "dec_nat n \<noteq> []"
  by (subst dec_nat.simps) simp

lemma digits_val_dec_nat [simp]: "digits_val (dec_nat n) = int n"
proof (induction n rule: dec_nat.induct)
  case (1 n)
  show ?case
  proof (cases "n < 10")
    case True
    then show ?thesis by (subst dec_nat.simps) (simp add: digits_val_def)
  next
    case False
    then have "digits_val (dec_nat n) = 10 * digits_val (dec_nat (n div 10)) + int (n mod 10)"
      by (subst dec_nat.simps) (simp add: digits_val_def)
    with 1 False show ?thesis using mult_div_mod_eq [of 10 n] by linarith
  qed
qed

lemma dec_nat_inject [simp]: "dec_nat m = dec_nat n \<longleftrightarrow> m = n"
  by (metis digits_val_dec_nat of_nat_eq_iff)

subsection \<open>Association lists as Go maps\<close>

text \<open>\<open>m[k]\<close> on a map of strings: the zero value, the empty string, when the key is missing.\<close>

definition smap_get :: "smap \<Rightarrow> string \<Rightarrow> string" where
  "smap_get m k = (case map_of m k of None \<Rightarrow> [] | Some v \<Rightarrow> v)"

lemma smap_get_update [simp]:
  "smap_get (AList.update k v m) k' = (if k' = k then v else smap_get m k')"
  by (simp add: smap_get_def update_conv')

lemma map_of_delete [simp]: "map_of (AList.delete k m) = (map_of m)(k := None)"
  by (simp add: delete_conv')

lemma card_keys: "distinct (map fst m) \<Longrightarrow> card (fst ` set m) = length m"
  using distinct_card [of "map fst m"] by simp

text \<open>\<open>for _, kv := range l { m[kv.k] = kv.v }\<close>: the last binding of a key wins.\<close>

lemma map_of_foldl_update:
  "map_of (foldl (\<lambda>m f. AList.update (k f) (v f) m) m0 fs)
     = map_of m0 ++ map_of (map (\<lambda>f. (k f, v f)) (rev fs))"
proof (induction fs arbitrary: m0)
  case Nil
  then show ?case by simp
next
  case (Cons f fs)
  then show ?case
    by (auto simp: update_conv' map_add_def fun_eq_iff split: option.splits)
qed

subsection \<open>Lists\<close>

lemma foldl_concat_map: "foldl f a (concat (map h xs)) = foldl (\<lambda>a x. foldl f a (h x)) a xs"
  by (induction xs arbitrary: a) simp_all

lemma foldl_map_arg: "foldl f a (map h xs) = foldl (\<lambda>a x. f a (h x)) a xs"
  by (induction xs arbitrary: a) simp_all

text \<open>A separator that occurs in neither front part splits a list in one way only.\<close>

lemma append_sep_eq:
  assumes "x \<notin> set a" and "x \<notin> set a'"
  shows "a @ x # b = a' @ x # b' \<longleftrightarrow> a = a' \<and> b = b'"
  using assms
proof (induction a arbitrary: a')
  case Nil
  then show ?case by (cases a') auto
next
  case (Cons y ys)
  then show ?case by (cases a') auto
qed

lemma append_sep_eq_last:
  assumes "x \<notin> set b" and "x \<notin> set b'"
  shows "a @ x # b = a' @ x # b' \<longleftrightarrow> a = a' \<and> b = b'"
proof -
  have "a @ x # b = a' @ x # b' \<longleftrightarrow> rev b @ x # rev a = rev b' @ x # rev a'"
    by (metis append.assoc append_Cons append_Nil rev.simps(2) rev_append rev_rev_ident)
  then show ?thesis using assms append_sep_eq [of x "rev b" "rev b'"] by auto
qed

subsection \<open>The last write wins\<close>

text \<open>
  The value a field has after a sequence of inputs, when some inputs overwrite it and the
  others leave it alone.
\<close>

definition latest :: "('e \<Rightarrow> 'v option) \<Rightarrow> 'e list \<Rightarrow> 'v \<Rightarrow> 'v" where
  "latest w es v0 = (case List.map_filter w es of [] \<Rightarrow> v0 | v # vs \<Rightarrow> last (v # vs))"

lemma latest_Nil [simp]: "latest w [] v0 = v0"
  by (simp add: latest_def List.map_filter_simps)

lemma latest_Cons [simp]:
  "latest w (e # es) v0 = latest w es (case w e of None \<Rightarrow> v0 | Some v \<Rightarrow> v)"
  by (auto simp: latest_def List.map_filter_simps split: option.splits list.splits)

lemma fold_latest:
  assumes "\<And>s e. f (step e s) = (case w e of None \<Rightarrow> f s | Some v \<Rightarrow> v)"
  shows "f (fold step es s) = latest w es (f s)"
  by (induction es arbitrary: s) (auto simp: assms split: option.splits)

text \<open>A wrapping counter that some inputs increment counts them, modulo its width.\<close>

lemma fold_count:
  fixes f :: "'s \<Rightarrow> 'a::len word"
  assumes "\<And>s e. f (step e s) = f s + (if P e then 1 else 0)"
  shows "f (fold step es s) = f s + of_nat (length (filter P es))"
  by (induction es arbitrary: s) (auto simp: assms)

lemma fold_sum:
  fixes f :: "'s \<Rightarrow> 'a::len word"
  assumes "\<And>s e. f (step e s) = f s + w e"
  shows "f (fold step es s) = f s + sum_list (map w es)"
  by (induction es arbitrary: s) (auto simp: assms add_ac)

lemma fold_invariant_step:
  assumes "\<And>s e. I s \<Longrightarrow> I (step e s)" and "I s"
  shows "I (fold step es s)"
  using assms(2) by (induction es arbitrary: s) (auto intro: assms(1))

end
