(* ===== verification/Go_Float.thy ===== *)
theory Go_Float
  imports Prelude
begin

text \<open>
  The IEEE 754 double precision values of the Go type \<open>float64\<close>, as far as the program uses
  them: it stores them, compares them with \<open>==\<close>, converts \<open>int64\<close> values to them and back,
  divides and adds them inside \<open>time.Duration.Seconds\<close>, and asks whether package json can
  encode them. A finite value is a sign, a mantissa and a binary exponent. Several such
  triples denote the same number, so \<open>==\<close> is \<open>f64_eq\<close> and not HOL equality.
\<close>

datatype f64 = F64_NaN | F64_Inf bool | F64_Fin bool nat int

definition f64_zero :: f64 where
  "f64_zero = F64_Fin False 0 0"

text \<open>The value of a finite number at the common exponent \<open>e0\<close>, which is at most its own.\<close>

definition fin_scaled :: "int \<Rightarrow> bool \<Rightarrow> nat \<Rightarrow> int \<Rightarrow> int" where
  "fin_scaled e0 neg m e = (if neg then - 1 else 1) * int m * 2 ^ nat (e - e0)"

text \<open>Go's \<open>==\<close>: a NaN differs from everything, the two zeros are equal.\<close>

fun f64_eq :: "f64 \<Rightarrow> f64 \<Rightarrow> bool" where
  "f64_eq (F64_Fin n1 m1 e1) (F64_Fin n2 m2 e2) =
     (fin_scaled (min e1 e2) n1 m1 e1 = fin_scaled (min e1 e2) n2 m2 e2)"
| "f64_eq (F64_Inf a) (F64_Inf b) = (a = b)"
| "f64_eq _ _ = False"

text \<open>Package json refuses NaN and the infinities.\<close>

fun f64_marshals :: "f64 \<Rightarrow> bool" where
  "f64_marshals (F64_Fin _ _ _) = True"
| "f64_marshals _ = False"

subsection \<open>Rounding to 53 bits, ties to even\<close>

fun bits :: "nat \<Rightarrow> nat" where
  "bits n = (if n = 0 then 0 else Suc (bits (n div 2)))"

declare bits.simps [simp del]

definition round53 :: "nat \<Rightarrow> nat \<times> nat" where
  "round53 m =
     (if m < 2 ^ 53 then (m, 0)
      else let e = bits m - 53; q = m div 2 ^ e; r = m mod 2 ^ e; half = 2 ^ (e - 1)
           in (if half < r \<or> r = half \<and> odd q then q + 1 else q, e))"

definition f64_round :: "bool \<Rightarrow> nat \<Rightarrow> int \<Rightarrow> f64" where
  "f64_round neg m e = (case round53 m of (q, k) \<Rightarrow> F64_Fin neg q (e + int k))"

text \<open>The conversion \<open>float64(n)\<close> of an \<open>int64\<close>.\<close>

definition f64_of_i64 :: "i64 \<Rightarrow> f64" where
  "f64_of_i64 n = f64_round (sint n < 0) (nat \<bar>sint n\<bar>) 0"

text \<open>
  The conversion \<open>int64(x)\<close> of a \<open>float64\<close>: the fraction is dropped. Out of range the result is
  implementation specific in Go; \<open>0x8000000000000000\<close> is what the amd64 instruction gives.
\<close>

definition trunc_fin :: "bool \<Rightarrow> nat \<Rightarrow> int \<Rightarrow> int" where
  "trunc_fin neg m e =
     (if neg then - 1 else 1) * (if 0 \<le> e then int m * 2 ^ nat e else int (m div 2 ^ nat (- e)))"

fun i64_of_f64 :: "f64 \<Rightarrow> i64" where
  "i64_of_f64 (F64_Fin neg m e) =
     (if - (2 ^ 63) \<le> trunc_fin neg m e \<and> trunc_fin neg m e < 2 ^ 63
      then word_of_int (trunc_fin neg m e) else word_of_int (- (2 ^ 63)))"
| "i64_of_f64 _ = word_of_int (- (2 ^ 63))"

text \<open>
  The quotient of two naturals, correctly rounded: enough quotient bits, and a sticky last
  bit for the remainder. (The program divides nanoseconds below \<open>10^9\<close> by \<open>10^9\<close>, far from
  the subnormal range.)
\<close>

definition f64_div_nat :: "bool \<Rightarrow> nat \<Rightarrow> nat \<Rightarrow> f64" where
  "f64_div_nat neg n d =
     (let k = 60 + bits d; q = n * 2 ^ k div d; sticky = (if n * 2 ^ k mod d = 0 then 0 else 1)
      in f64_round neg (2 * q + sticky) (- (int k + 1)))"

fun f64_add :: "f64 \<Rightarrow> f64 \<Rightarrow> f64" where
  "f64_add (F64_Fin n1 m1 e1) (F64_Fin n2 m2 e2) =
     (let e0 = min e1 e2; s = fin_scaled e0 n1 m1 e1 + fin_scaled e0 n2 m2 e2
      in f64_round (s < 0) (nat \<bar>s\<bar>) e0)"
| "f64_add (F64_Inf a) (F64_Inf b) = (if a = b then F64_Inf a else F64_NaN)"
| "f64_add F64_NaN _ = F64_NaN"
| "f64_add _ F64_NaN = F64_NaN"
| "f64_add (F64_Inf a) _ = F64_Inf a"
| "f64_add _ (F64_Inf a) = F64_Inf a"

text \<open>\<open>time.Duration.Seconds\<close>: whole seconds plus the nanoseconds over \<open>1e9\<close>.\<close>

definition duration_seconds :: "i64 \<Rightarrow> f64" where
  "duration_seconds d =
     (let n = nat \<bar>sint d\<bar>; neg = (sint d < 0)
      in f64_add (f64_round neg (n div 1000000000) 0)
                 (f64_div_nat neg (n mod 1000000000) 1000000000))"

subsection \<open>Facts\<close>

lemma fin_scaled_shift:
  assumes "e0 \<le> e1" and "e1 \<le> e"
  shows "fin_scaled e0 neg m e = fin_scaled e1 neg m e * 2 ^ nat (e1 - e0)"
proof -
  have "nat (e - e0) = nat (e - e1) + nat (e1 - e0)" using assms by simp
  then show ?thesis by (simp add: fin_scaled_def power_add)
qed

lemma fin_scaled_eq_iff:
  assumes "e0 \<le> e1" and "e1 \<le> a" and "e1 \<le> b"
  shows "fin_scaled e0 n m a = fin_scaled e0 n' m' b \<longleftrightarrow> fin_scaled e1 n m a = fin_scaled e1 n' m' b"
  using assms by (simp add: fin_scaled_shift [of e0 e1])

lemma f64_eq_sym: "f64_eq x y = f64_eq y x"
  by (cases x; cases y) (auto simp: min.commute)

lemma f64_eq_refl_iff: "f64_eq x x \<longleftrightarrow> x \<noteq> F64_NaN"
  by (cases x) simp_all

lemma f64_eq_trans:
  assumes "f64_eq x y" and "f64_eq y z"
  shows "f64_eq x z"
proof (cases x)
  case (F64_Fin n1 m1 e1)
  with assms(1) obtain n2 m2 e2 where y: "y = F64_Fin n2 m2 e2" by (cases y) auto
  with assms(2) obtain n3 m3 e3 where z: "z = F64_Fin n3 m3 e3" by (cases z) auto
  let ?e = "min e1 (min e2 e3)"
  have "fin_scaled ?e n1 m1 e1 = fin_scaled ?e n2 m2 e2"
    using assms(1) F64_Fin y fin_scaled_eq_iff [of ?e "min e1 e2" e1 e2] by simp
  moreover have "fin_scaled ?e n2 m2 e2 = fin_scaled ?e n3 m3 e3"
    using assms(2) y z fin_scaled_eq_iff [of ?e "min e2 e3" e2 e3] by (simp add: min_le_iff_disj)
  ultimately show ?thesis
    using F64_Fin z fin_scaled_eq_iff [of ?e "min e1 e3" e1 e3] by simp
next
  case (F64_Inf a)
  with assms show ?thesis by (cases y; cases z) auto
qed (use assms in auto)

text \<open>An \<open>int64\<close> of at most 53 significant bits survives the detour through \<open>float64\<close>.\<close>

lemma i64_of_f64_of_i64:
  assumes "\<bar>sint n\<bar> < 2 ^ 53"
  shows "i64_of_f64 (f64_of_i64 n) = n"
proof -
  have "trunc_fin (sint n < 0) (nat \<bar>sint n\<bar>) 0 = sint n"
    by (simp add: trunc_fin_def)
  moreover have "f64_of_i64 n = F64_Fin (sint n < 0) (nat \<bar>sint n\<bar>) 0"
    using assms by (simp add: f64_of_i64_def f64_round_def round53_def)
  moreover have "- (2 ^ 63) \<le> sint n \<and> sint n < 2 ^ 63"
    using assms by (auto simp: abs_less_iff)
  ultimately show ?thesis by (simp del: of_int_sint) simp
qed

end
