(* ===== verification/Run_State.thy ===== *)
theory Run_State
  imports Go_Float
begin

text \<open>
  The live state of a run, \<open>state.go\<close>: the counters the event listener folds events into, the
  sample series, the readout \<open>processed\<close> and the comparison \<open>Equal\<close>. Struct fields keep
  their Go names behind a prefix that names the struct. \<open>float64\<close> fields are compared
  with \<open>f64_eq\<close>, so \<open>Equal\<close> is the code's comparison and not HOL equality.
\<close>

record StateCounter =
  scTotal :: u64
  scOk :: u64
  scError :: u64
  scSize :: u64
  scCached :: u64
  scCachedSize :: u64

record Latency =
  ltCount :: i64
  ltAvg :: i64
  ltP50 :: i64
  ltP95 :: i64
  ltMax :: i64

record IODir =
  dirTotalBytes :: i64
  dirOverall :: f64
  dirOverallWall :: f64
  dirLatency :: Latency

record IOScope =
  ioRead :: IODir
  ioWrite :: IODir

record ResourceSample =
  rsAt :: i64
  rsCPUPercent :: f64
  rsMemoryBytes :: u64

record NetworkSample =
  nsAt :: i64
  nsReadBytesPerSec :: f64
  nsWriteBytesPerSec :: f64

record LatencySample =
  lsAt :: i64
  lsCount :: i64
  lsAvg :: i64
  lsP50 :: i64
  lsP95 :: i64
  lsMax :: i64

record RecentPath =
  rpPath :: string
  rpStatus :: string

record Summary =
  smExists :: bool
  smPaths :: u64
  smFiles :: u64
  smDirectories :: u64
  smSymlinks :: u64
  smXattrs :: u64
  smSize :: u64

record ResultInfo =
  riSize :: u64
  riErrors :: u64
  riDuration :: f64

record ProcessedInfo =
  prItems :: u64
  prBytes :: u64

record State =
  stVersion :: string
  stSnapshotID :: string
  stPhase :: string
  stSummary :: Summary
  stPaths :: StateCounter
  stDirs :: StateCounter
  stFiles :: StateCounter
  stXattrs :: StateCounter
  stSymlinks :: StateCounter
  stChunks :: StateCounter
  stObjects :: StateCounter
  stResult :: ResultInfo
  stResources :: "ResourceSample list"
  stNumCPU :: i64
  stNetwork :: "NetworkSample list"
  stLatency :: "LatencySample list"
  stProcessed :: ProcessedInfo
  stIO :: "(string \<times> IOScope) list"
  stRecentPaths :: "RecentPath list"

text \<open>The zero values Go starts from. \<open>State{}\<close> is \<open>State_zero\<close>.\<close>

definition StateCounter_zero :: StateCounter where
  "StateCounter_zero = \<lparr>scTotal = 0, scOk = 0, scError = 0, scSize = 0, scCached = 0, scCachedSize = 0\<rparr>"

definition Latency_zero :: Latency where
  "Latency_zero = \<lparr>ltCount = 0, ltAvg = 0, ltP50 = 0, ltP95 = 0, ltMax = 0\<rparr>"

definition IODir_zero :: IODir where
  "IODir_zero = \<lparr>dirTotalBytes = 0, dirOverall = f64_zero, dirOverallWall = f64_zero,
                 dirLatency = Latency_zero\<rparr>"

definition IOScope_zero :: IOScope where
  "IOScope_zero = \<lparr>ioRead = IODir_zero, ioWrite = IODir_zero\<rparr>"

definition Summary_zero :: Summary where
  "Summary_zero = \<lparr>smExists = False, smPaths = 0, smFiles = 0, smDirectories = 0, smSymlinks = 0,
                   smXattrs = 0, smSize = 0\<rparr>"

definition State_zero :: State where
  "State_zero =
     \<lparr>stVersion = [], stSnapshotID = [], stPhase = [], stSummary = Summary_zero,
      stPaths = StateCounter_zero, stDirs = StateCounter_zero, stFiles = StateCounter_zero,
      stXattrs = StateCounter_zero, stSymlinks = StateCounter_zero, stChunks = StateCounter_zero,
      stObjects = StateCounter_zero,
      stResult = \<lparr>riSize = 0, riErrors = 0, riDuration = f64_zero\<rparr>,
      stResources = [], stNumCPU = 0, stNetwork = [], stLatency = [],
      stProcessed = \<lparr>prItems = 0, prBytes = 0\<rparr>, stIO = [], stRecentPaths = []\<rparr>"

definition MaxResourceSamples :: nat where "MaxResourceSamples = 120"
definition MaxNetworkSamples :: nat where "MaxNetworkSamples = 120"
definition MaxLatencySamples :: nat where "MaxLatencySamples = 120"
definition maxRecentPaths :: nat where "maxRecentPaths = 5"

subsection \<open>The running readout\<close>

definition processed :: "State \<Rightarrow> u64 \<times> u64" where
  "processed s =
     (let items = scOk (stFiles s) + scCached (stFiles s);
          bytes = scSize (stFiles s) + scCachedSize (stFiles s);
          bytes = (if bytes = 0 then smSize (stSummary s) else bytes);
          items = (if items = 0 then smFiles (stSummary s) else items)
      in (items, bytes))"

subsection \<open>Comparison\<close>

text \<open>\<open>slices.Equal\<close> and \<open>maps.Equal\<close> over an element comparison.\<close>

definition slices_Equal :: "('a \<Rightarrow> 'a \<Rightarrow> bool) \<Rightarrow> 'a list \<Rightarrow> 'a list \<Rightarrow> bool" where
  "slices_Equal eq xs ys \<longleftrightarrow> list_all2 eq xs ys"

definition maps_Equal :: "('v \<Rightarrow> 'v \<Rightarrow> bool) \<Rightarrow> ('k \<times> 'v) list \<Rightarrow> ('k \<times> 'v) list \<Rightarrow> bool" where
  "maps_Equal eq m1 m2 \<longleftrightarrow>
     length m1 = length m2 \<and>
     list_all (\<lambda>(k, v1). case map_of m2 k of None \<Rightarrow> False | Some v2 \<Rightarrow> eq v1 v2) m1"

definition IODir_eq :: "IODir \<Rightarrow> IODir \<Rightarrow> bool" where
  "IODir_eq a b \<longleftrightarrow> dirTotalBytes a = dirTotalBytes b \<and> f64_eq (dirOverall a) (dirOverall b)
     \<and> f64_eq (dirOverallWall a) (dirOverallWall b) \<and> dirLatency a = dirLatency b"

definition IOScope_eq :: "IOScope \<Rightarrow> IOScope \<Rightarrow> bool" where
  "IOScope_eq a b \<longleftrightarrow> IODir_eq (ioRead a) (ioRead b) \<and> IODir_eq (ioWrite a) (ioWrite b)"

definition ResourceSample_eq :: "ResourceSample \<Rightarrow> ResourceSample \<Rightarrow> bool" where
  "ResourceSample_eq a b \<longleftrightarrow> rsAt a = rsAt b \<and> f64_eq (rsCPUPercent a) (rsCPUPercent b)
     \<and> rsMemoryBytes a = rsMemoryBytes b"

definition NetworkSample_eq :: "NetworkSample \<Rightarrow> NetworkSample \<Rightarrow> bool" where
  "NetworkSample_eq a b \<longleftrightarrow> nsAt a = nsAt b \<and> f64_eq (nsReadBytesPerSec a) (nsReadBytesPerSec b)
     \<and> f64_eq (nsWriteBytesPerSec a) (nsWriteBytesPerSec b)"

definition ResultInfo_eq :: "ResultInfo \<Rightarrow> ResultInfo \<Rightarrow> bool" where
  "ResultInfo_eq a b \<longleftrightarrow> riSize a = riSize b \<and> riErrors a = riErrors b
     \<and> f64_eq (riDuration a) (riDuration b)"

definition State_Equal :: "State \<Rightarrow> State \<Rightarrow> bool" where
  "State_Equal s other \<longleftrightarrow>
     stVersion s = stVersion other \<and>
     stSnapshotID s = stSnapshotID other \<and>
     stPhase s = stPhase other \<and>
     stSummary s = stSummary other \<and>
     stPaths s = stPaths other \<and>
     stDirs s = stDirs other \<and>
     stFiles s = stFiles other \<and>
     stXattrs s = stXattrs other \<and>
     stSymlinks s = stSymlinks other \<and>
     stChunks s = stChunks other \<and>
     stObjects s = stObjects other \<and>
     ResultInfo_eq (stResult s) (stResult other) \<and>
     slices_Equal ResourceSample_eq (stResources s) (stResources other) \<and>
     stNumCPU s = stNumCPU other \<and>
     slices_Equal NetworkSample_eq (stNetwork s) (stNetwork other) \<and>
     slices_Equal (=) (stLatency s) (stLatency other) \<and>
     stProcessed s = stProcessed other \<and>
     maps_Equal IOScope_eq (stIO s) (stIO other) \<and>
     slices_Equal (=) (stRecentPaths s) (stRecentPaths other)"

subsection \<open>JSON encoding can fail\<close>

text \<open>
  \<open>json.Marshal(&st)\<close> fails exactly when a float field it reaches is NaN or infinite.
\<close>

definition IODir_marshals :: "IODir \<Rightarrow> bool" where
  "IODir_marshals d \<longleftrightarrow> f64_marshals (dirOverall d) \<and> f64_marshals (dirOverallWall d)"

definition State_marshals :: "State \<Rightarrow> bool" where
  "State_marshals s \<longleftrightarrow>
     f64_marshals (riDuration (stResult s)) \<and>
     list_all (\<lambda>r. f64_marshals (rsCPUPercent r)) (stResources s) \<and>
     list_all (\<lambda>n. f64_marshals (nsReadBytesPerSec n) \<and> f64_marshals (nsWriteBytesPerSec n))
       (stNetwork s) \<and>
     list_all (\<lambda>(_, sc). IODir_marshals (ioRead sc) \<and> IODir_marshals (ioWrite sc)) (stIO s)"

end
