(* ===== verification/State_Comparison.thy ===== *)
theory State_Comparison
  imports Run_State
begin

text \<open>
  \<open>State.Equal\<close> of \<open>state.go\<close> is a partial equivalence: symmetric and transitive, and reflexive
  exactly on the states without a NaN. The element comparisons of its slices and maps share
  the interface \<open>go_eq\<close>; the generic facts on \<open>slices.Equal\<close> and \<open>maps.Equal\<close> are proved once
  inside it and read off its interpretations.
\<close>

locale go_eq =
  fixes eq :: "'a \<Rightarrow> 'a \<Rightarrow> bool"
  assumes eq_sym: "eq x y \<Longrightarrow> eq y x"
    and eq_trans: "eq x y \<Longrightarrow> eq y z \<Longrightarrow> eq x z"
begin

lemma slices_sym: "slices_Equal eq xs ys \<Longrightarrow> slices_Equal eq ys xs"
  unfolding slices_Equal_def by (auto simp: list_all2_conv_all_nth intro: eq_sym)

lemma slices_trans: "slices_Equal eq xs ys \<Longrightarrow> slices_Equal eq ys zs \<Longrightarrow> slices_Equal eq xs zs"
  unfolding slices_Equal_def by (rule list_all2_trans [OF eq_trans])

lemma maps_EqualD:
  assumes "maps_Equal eq m1 m2" and "map_of m1 k = Some v1"
  obtains v2 where "map_of m2 k = Some v2" and "eq v1 v2"
proof -
  from assms(2) have "(k, v1) \<in> set m1" by (rule map_of_SomeD)
  with assms(1) have "case map_of m2 k of None \<Rightarrow> False | Some v2 \<Rightarrow> eq v1 v2"
    by (auto simp: maps_Equal_def list_all_iff)
  with that show thesis by (auto split: option.splits)
qed

lemma maps_dom:
  assumes "maps_Equal eq m1 m2" and "distinct (map fst m1)" and "distinct (map fst m2)"
  shows "fst ` set m1 = fst ` set m2"
proof (rule card_subset_eq)
  show "fst ` set m1 \<subseteq> fst ` set m2"
  proof
    fix k assume "k \<in> fst ` set m1"
    then obtain v1 where "map_of m1 k = Some v1"
      by (metis domD dom_map_of_conv_image_fst)
    with assms(1) obtain v2 where "map_of m2 k = Some v2" by (rule maps_EqualD)
    then show "k \<in> fst ` set m2" by (metis domI dom_map_of_conv_image_fst)
  qed
  from assms show "card (fst ` set m1) = card (fst ` set m2)" by (simp add: maps_Equal_def card_keys)
qed simp

lemma maps_sym:
  assumes eq: "maps_Equal eq m1 m2" and d: "distinct (map fst m1)" "distinct (map fst m2)"
  shows "maps_Equal eq m2 m1"
  unfolding maps_Equal_def list_all_iff
proof (intro conjI ballI)
  show "length m2 = length m1" using eq by (simp add: maps_Equal_def)
next
  fix p assume p: "p \<in> set m2"
  obtain k v where kv: "p = (k, v)" by (cases p)
  from p kv maps_dom [OF eq d] have "k \<in> fst ` set m1" by force
  then obtain v1 where v1: "map_of m1 k = Some v1"
    by (metis domD dom_map_of_conv_image_fst)
  with eq obtain v2 where v2: "map_of m2 k = Some v2" "eq v1 v2" by (rule maps_EqualD)
  from p kv d(2) have "map_of m2 k = Some v" by simp
  with v1 v2 kv show "case p of (k, v) \<Rightarrow> (case map_of m1 k of None \<Rightarrow> False | Some v' \<Rightarrow> eq v v')"
    by (auto intro: eq_sym)
qed

lemma maps_trans:
  assumes "maps_Equal eq m1 m2" and "maps_Equal eq m2 m3" and "distinct (map fst m1)"
  shows "maps_Equal eq m1 m3"
  unfolding maps_Equal_def list_all_iff
proof (intro conjI ballI)
  show "length m1 = length m3" using assms by (simp add: maps_Equal_def)
next
  fix p assume p: "p \<in> set m1"
  obtain k v where kv: "p = (k, v)" by (cases p)
  with p assms(3) have "map_of m1 k = Some v" by simp
  with assms(1) obtain v2 where v2: "map_of m2 k = Some v2" "eq v v2" by (rule maps_EqualD)
  from assms(2) v2(1) obtain v3 where "map_of m3 k = Some v3" "eq v2 v3" by (rule maps_EqualD)
  with v2 kv show "case p of (k, v) \<Rightarrow> (case map_of m3 k of None \<Rightarrow> False | Some v' \<Rightarrow> eq v v')"
    by (auto intro: eq_trans)
qed

end

lemma slices_refl: "slices_Equal eq xs xs \<longleftrightarrow> list_all (\<lambda>x. eq x x) xs"
  unfolding slices_Equal_def by (induction xs) auto

lemma maps_refl:
  assumes "distinct (map fst m)"
  shows "maps_Equal eq m m \<longleftrightarrow> list_all (\<lambda>(_, v). eq v v) m"
proof -
  have "map_of m k = Some v" if "(k, v) \<in> set m" for k v
    using assms that by simp
  then show ?thesis by (auto simp: maps_Equal_def list_all_iff split: option.splits)
qed

interpretation f64: go_eq f64_eq
  by unfold_locales (simp add: f64_eq_sym, rule f64_eq_trans)

lemma IODir_eq_sym: "IODir_eq a b \<Longrightarrow> IODir_eq b a"
  by (auto simp: IODir_eq_def f64_eq_sym)

lemma IODir_eq_trans: "IODir_eq a b \<Longrightarrow> IODir_eq b c \<Longrightarrow> IODir_eq a c"
  by (auto simp: IODir_eq_def intro: f64_eq_trans)

interpretation io: go_eq IOScope_eq
  by unfold_locales (auto simp: IOScope_eq_def intro: IODir_eq_sym IODir_eq_trans)

interpretation res: go_eq ResourceSample_eq
  by unfold_locales (auto simp: ResourceSample_eq_def f64_eq_sym intro: f64_eq_trans)

interpretation net: go_eq NetworkSample_eq
  by unfold_locales (auto simp: NetworkSample_eq_def f64_eq_sym intro: f64_eq_trans)

interpretation plain: go_eq "(=)"
  by unfold_locales auto

subsection \<open>The properties\<close>

text \<open>The float fields of a state hold no NaN.\<close>

definition IODir_nan_free :: "IODir \<Rightarrow> bool" where
  "IODir_nan_free d \<longleftrightarrow> dirOverall d \<noteq> F64_NaN \<and> dirOverallWall d \<noteq> F64_NaN"

definition State_nan_free :: "State \<Rightarrow> bool" where
  "State_nan_free s \<longleftrightarrow>
     riDuration (stResult s) \<noteq> F64_NaN \<and>
     list_all (\<lambda>r. rsCPUPercent r \<noteq> F64_NaN) (stResources s) \<and>
     list_all (\<lambda>n. nsReadBytesPerSec n \<noteq> F64_NaN \<and> nsWriteBytesPerSec n \<noteq> F64_NaN) (stNetwork s) \<and>
     list_all (\<lambda>(_, sc). IODir_nan_free (ioRead sc) \<and> IODir_nan_free (ioWrite sc)) (stIO s)"

text \<open>The \<open>IO\<close> association list is a Go map: one binding per key.\<close>

definition io_wf :: "State \<Rightarrow> bool" where
  "io_wf s \<longleftrightarrow> distinct (map fst (stIO s))"

lemma State_Equal_refl_iff:
  "io_wf s \<Longrightarrow> State_Equal s s \<longleftrightarrow> State_nan_free s"
  by (simp add: State_Equal_def State_nan_free_def io_wf_def slices_refl maps_refl
      ResultInfo_eq_def ResourceSample_eq_def NetworkSample_eq_def IOScope_eq_def IODir_eq_def
      IODir_nan_free_def f64_eq_refl_iff list_all_iff case_prod_beta)

lemma State_Equal_symmetric:
  assumes "io_wf s" and "io_wf t" and "State_Equal s t"
  shows "State_Equal t s"
  using assms unfolding State_Equal_def io_wf_def
  by (auto simp: ResultInfo_eq_def f64_eq_sym
      intro: io.maps_sym res.slices_sym net.slices_sym plain.slices_sym)

lemma State_Equal_transitive:
  assumes "io_wf s" and "State_Equal s t" and "State_Equal t u"
  shows "State_Equal s u"
  using assms unfolding State_Equal_def io_wf_def
  by (auto simp: ResultInfo_eq_def
      intro: f64_eq_trans io.maps_trans res.slices_trans net.slices_trans plain.slices_trans)

text \<open>
  Property C35 (state_equality). \<open>State.Equal\<close> is a partial equivalence on states: symmetric and
  transitive, independent of the order in which a Go map is iterated, and reflexive exactly on
  the states without a NaN, so that a state with a NaN in it is never equal to itself.
\<close>

theorem state_equality:
  assumes "io_wf s" and "io_wf t"
  shows "(State_Equal s s \<longleftrightarrow> State_nan_free s)
     \<and> (State_Equal s t \<longleftrightarrow> State_Equal t s)
     \<and> (\<forall>u. State_Equal s t \<and> State_Equal t u \<longrightarrow> State_Equal s u)"
  using assms State_Equal_refl_iff State_Equal_symmetric State_Equal_transitive by blast

theorem state_equality_witness:
  "let s = State_zero\<lparr>stIO := [(''a'', IOScope_zero), (''b'', IOScope_zero)]\<rparr>;
       t = State_zero\<lparr>stIO := [(''b'', IOScope_zero), (''a'', IOScope_zero)]\<rparr>
   in State_Equal s t \<and> State_Equal t s"
proof -
  let ?s = "State_zero\<lparr>stIO := [(''a'', IOScope_zero), (''b'', IOScope_zero)]\<rparr>"
  let ?t = "State_zero\<lparr>stIO := [(''b'', IOScope_zero), (''a'', IOScope_zero)]\<rparr>"
  have "State_Equal ?s ?t" by code_simp
  moreover have "State_Equal ?s ?t \<longleftrightarrow> State_Equal ?t ?s"
    using state_equality [of ?s ?t] by (simp add: io_wf_def)
  ultimately show ?thesis unfolding Let_def by blast
qed

end
