(* ===== verification/Go_Strings.thy ===== *)
theory Go_Strings
  imports Prelude
begin

text \<open>
  The functions of Go's \<open>strings\<close>, \<open>encoding/hex\<close>, \<open>path\<close> and \<open>path/filepath\<close> packages that the
  program calls, on byte strings.
\<close>

subsection \<open>Package strings\<close>

fun has_prefix :: "string \<Rightarrow> string \<Rightarrow> bool" where
  "has_prefix [] s = True"
| "has_prefix (p # ps) [] = False"
| "has_prefix (p # ps) (c # s) = (p = c \<and> has_prefix ps s)"

definition has_suffix :: "string \<Rightarrow> string \<Rightarrow> bool" where
  "has_suffix s suffix = has_prefix (rev suffix) (rev s)"

text \<open>\<open>strings.Cut(s, sep)\<close>: what precedes the first separator, what follows it, was it found.\<close>

fun cut :: "string \<Rightarrow> string \<Rightarrow> string \<times> string \<times> bool" where
  "cut sep s =
     (if has_prefix sep s then ([], drop (length sep) s, True)
      else case s of
          [] \<Rightarrow> ([], [], False)
        | c # cs \<Rightarrow> (case cut sep cs of (before, after, found) \<Rightarrow> (c # before, after, found)))"

declare cut.simps [simp del]

lemma cut_not_found: "snd (snd (cut sep s)) = False \<Longrightarrow> fst (cut sep s) = s"
proof (induction s)
  case Nil
  then show ?case by (subst cut.simps) (simp add: cut.simps [of sep "[]"] split: if_splits)
next
  case (Cons c s)
  then show ?case
    by (simp add: cut.simps [of sep "c # s"] split: if_splits prod.splits)
qed

lemma cut_found:
  "snd (snd (cut sep s)) \<Longrightarrow> s = fst (cut sep s) @ sep @ fst (snd (cut sep s))"
proof (induction s)
  case Nil
  have "cut sep [] = ([], [], has_prefix sep [])" by (subst cut.simps) simp
  with Nil show ?case by (cases sep) simp_all
next
  case (Cons c s)
  have "sep @ drop (length sep) t = t" if "has_prefix sep t" for t
    using that by (induction sep t rule: has_prefix.induct) auto
  with Cons show ?case
    by (auto simp: cut.simps [of sep "c # s"] split: if_splits prod.splits)
qed

definition to_upper_char :: "char \<Rightarrow> char" where
  "to_upper_char c =
     (let n = of_char c :: nat in if 97 \<le> n \<and> n \<le> 122 then char_of (n - 32) else c)"

text \<open>\<open>strings.ToUpper\<close> on the ASCII strings a compression name is.\<close>

definition to_upper :: "string \<Rightarrow> string" where
  "to_upper s = map to_upper_char s"

subsection \<open>Package hex\<close>

definition hex_digit :: "nat \<Rightarrow> char" where
  "hex_digit n = (if n < 10 then char_of (48 + n) else char_of (87 + n))"

definition hex_val :: "char \<Rightarrow> nat option" where
  "hex_val c =
     (let n = of_char c :: nat in
      if 48 \<le> n \<and> n \<le> 57 then Some (n - 48)
      else if 97 \<le> n \<and> n \<le> 102 then Some (n - 87)
      else if 65 \<le> n \<and> n \<le> 70 then Some (n - 55)
      else None)"

text \<open>The verb \<open>%x\<close> on bytes, two lower-case digits each.\<close>

definition hex_byte :: "byte \<Rightarrow> string" where
  "hex_byte b = [hex_digit (unat b div 16), hex_digit (unat b mod 16)]"

definition hex_encode :: "byte list \<Rightarrow> string" where
  "hex_encode bs = concat (map hex_byte bs)"

text \<open>\<open>hex.DecodeString\<close>; a bad digit or an odd length is an error.\<close>

fun hex_decode :: "string \<Rightarrow> byte list option" where
  "hex_decode [] = Some []"
| "hex_decode [c] = None"
| "hex_decode (a # b # s) =
     (case (hex_val a, hex_val b) of
        (Some x, Some y) \<Rightarrow> map_option ((#) (word_of_nat (16 * x + y))) (hex_decode s)
      | _ \<Rightarrow> None)"

lemma hex_val_digit [simp]: "n < 16 \<Longrightarrow> hex_val (hex_digit n) = Some n"
  by (auto simp: hex_val_def hex_digit_def Let_def)

lemma hex_decode_encode [simp]: "hex_decode (hex_encode bs) = Some bs"
proof (induction bs)
  case Nil
  then show ?case by (simp add: hex_encode_def)
next
  case (Cons b bs)
  have "unat b < 2 ^ LENGTH(8)" by (rule unsigned_less)
  then have "unat b div 16 < 16" by simp
  moreover have "(word_of_nat (16 * (unat b div 16) + unat b mod 16) :: byte) = b"
    by (simp only: mult_div_mod_eq of_nat_unat ucast_id)
  ultimately show ?case using Cons by (simp add: hex_encode_def hex_byte_def)
qed

lemma length_hex_encode [simp]: "length (hex_encode bs) = 2 * length bs"
  by (induction bs) (simp_all add: hex_encode_def hex_byte_def)

lemma hex_decode_length: "hex_decode s = Some bs \<Longrightarrow> length s = 2 * length bs"
  by (induction s arbitrary: bs rule: hex_decode.induct) (auto split: option.splits)

subsection \<open>Packages path and filepath\<close>

definition slash :: char where "slash = CHR ''/''"

fun split_slash :: "string \<Rightarrow> string \<Rightarrow> string list" where
  "split_slash acc [] = [acc]"
| "split_slash acc (c # s) = (if c = slash then acc # split_slash [] s else split_slash (acc @ [c]) s)"

text \<open>One component: empty and \<open>.\<close> vanish, \<open>..\<close> removes the component before it.\<close>

definition clean_comp :: "bool \<Rightarrow> string list \<Rightarrow> string \<Rightarrow> string list" where
  "clean_comp rooted acc c =
     (if c = [] \<or> c = ''.'' then acc
      else if c = ''..'' then
        (if acc \<noteq> [] \<and> last acc \<noteq> ''..'' then butlast acc
         else if rooted then acc else acc @ [c])
      else acc @ [c])"

fun join_slash :: "string list \<Rightarrow> string" where
  "join_slash [] = []"
| "join_slash [c] = c"
| "join_slash (c # cs) = c @ slash # join_slash cs"

definition path_clean :: "string \<Rightarrow> string" where
  "path_clean p =
     (let rooted = has_prefix [slash] p;
          comps = foldl (clean_comp rooted) [] (split_slash [] p);
          out = (if rooted then [slash] else []) @ join_slash comps
      in if out = [] then ''.'' else out)"

definition path_dir :: "string \<Rightarrow> string" where
  "path_dir p = path_clean (rev (dropWhile (\<lambda>c. c \<noteq> slash) (rev p)))"

definition filepath_join :: "string \<Rightarrow> string \<Rightarrow> string" where
  "filepath_join a b =
     (if a = [] \<and> b = [] then []
      else if a = [] then path_clean b
      else if b = [] then path_clean a
      else path_clean (a @ slash # b))"

end
