(* ===== verification/Go_Conv.thy ===== *)
theory Go_Conv
  imports Prelude "HOL-Library.Monad_Syntax"
begin

text \<open>
  The parsers of packages strconv and time that the task configuration goes through. An error
  is \<open>None\<close>: the callers only ask whether there was one. A \<open>time.Time\<close> is its instant, in
  nanoseconds since the zero time (January 1 of year 1, UTC).
\<close>

type_synonym gotime = int

subsection \<open>Package strconv\<close>

definition ParseBool :: "string \<Rightarrow> bool option" where
  "ParseBool s =
     (if s = ''1'' \<or> s = ''t'' \<or> s = ''T'' \<or> s = ''true'' \<or> s = ''TRUE'' \<or> s = ''True'' then Some True
      else if s = ''0'' \<or> s = ''f'' \<or> s = ''F'' \<or> s = ''false'' \<or> s = ''FALSE'' \<or> s = ''False'' then Some False
      else None)"

text \<open>\<open>strconv.ParseUint(s, 10, 64)\<close>\<close>

definition ParseUint :: "string \<Rightarrow> u64 option" where
  "ParseUint s =
     (if s = [] \<or> \<not> list_all is_digit s \<or> 2 ^ 64 \<le> digits_val s then None
      else Some (word_of_int (digits_val s)))"

definition Atoi :: "string \<Rightarrow> i64 option" where
  "Atoi s =
     (let (neg, ds) = (case s of
            c # cs \<Rightarrow> if c = CHR ''-'' then (True, cs) else if c = CHR ''+'' then (False, cs) else (False, s)
          | [] \<Rightarrow> (False, []));
          v = (if neg then - digits_val ds else digits_val ds)
      in if ds = [] \<or> \<not> list_all is_digit ds \<or> v < - (2 ^ 63) \<or> 2 ^ 63 \<le> v then None
         else Some (word_of_int v))"

lemma ParseUint_dec_nat:
  assumes "n < 2 ^ 64"
  shows "ParseUint (dec_nat n) = Some (of_nat n)"
proof -
  have "int n < 2 ^ 64" using assms by (metis of_nat_less_iff of_nat_numeral of_nat_power)
  then show ?thesis by (simp add: ParseUint_def dec_nat_digits)
qed

subsection \<open>Package time\<close>

definition leap_year :: "int \<Rightarrow> bool" where
  "leap_year y \<longleftrightarrow> y mod 4 = 0 \<and> (y mod 100 \<noteq> 0 \<or> y mod 400 = 0)"

definition days_in :: "nat \<Rightarrow> int \<Rightarrow> nat" where
  "days_in m y =
     (if m = 2 then (if leap_year y then 29 else 28)
      else if m \<in> {4, 6, 9, 11} then 30 else 31)"

text \<open>Days from January 1 of year 1 to the given civil date.\<close>

definition civil_days :: "int \<Rightarrow> nat \<Rightarrow> nat \<Rightarrow> int" where
  "civil_days y m d =
     (let p = y - 1
      in 365 * p + p div 4 - p div 100 + p div 400
           + int (sum_list (map (\<lambda>k. days_in k y) [1..<m])) + int d - 1)"

definition lit :: "char \<Rightarrow> string \<Rightarrow> string option" where
  "lit c s = (case s of [] \<Rightarrow> None | x # r \<Rightarrow> if x = c then Some r else None)"

definition guard_opt :: "bool \<Rightarrow> unit option" where
  "guard_opt b = (if b then Some () else None)"

text \<open>One or two digits; exactly two when \<open>fixed\<close>.\<close>

definition getnum :: "bool \<Rightarrow> string \<Rightarrow> (nat \<times> string) option" where
  "getnum fixed s =
     (case s of
        [] \<Rightarrow> None
      | a # r \<Rightarrow>
          if \<not> is_digit a then None
          else (case r of
                  b # r' \<Rightarrow> if is_digit b then Some (10 * digit_val a + digit_val b, r')
                            else if fixed then None else Some (digit_val a, r)
                | [] \<Rightarrow> if fixed then None else Some (digit_val a, r)))"

definition parse_year :: "string \<Rightarrow> (int \<times> string) option" where
  "parse_year s =
     (if length s < 4 \<or> \<not> list_all is_digit (take 4 s) then None
      else Some (digits_val (take 4 s), drop 4 s))"

text \<open>An optional fraction after the seconds, in nanoseconds: digits beyond the ninth are cut.\<close>

definition parse_frac :: "string \<Rightarrow> int \<times> string" where
  "parse_frac s =
     (case s of
        c # d # r \<Rightarrow>
          if (c = CHR ''.'' \<or> c = CHR '','') \<and> is_digit d then
            let ds = takeWhile is_digit (d # r); ds9 = take 9 ds
            in (digits_val ds9 * 10 ^ (9 - length ds9), drop (length ds) (d # r))
          else (0, s)
      | _ \<Rightarrow> (0, s))"

text \<open>The zone: \<open>Z\<close>, or a signed \<open>hh:mm\<close>; the offset in seconds.\<close>

definition parse_zone :: "string \<Rightarrow> (int \<times> string) option" where
  "parse_zone s =
     (case s of
        [] \<Rightarrow> None
      | c # r \<Rightarrow>
          if c = CHR ''Z'' then Some (0, r)
          else do {
            (hr, s1) \<leftarrow> getnum True r;
            s2 \<leftarrow> lit (CHR '':'') s1;
            (mm, s3) \<leftarrow> getnum True s2;
            guard_opt (hr \<le> 24 \<and> mm \<le> 60 \<and> (c = CHR ''+'' \<or> c = CHR ''-''));
            let off = (int hr * 60 + int mm) * 60;
            Some (if c = CHR ''-'' then - off else off, s3)
          })"

text \<open>\<open>time.Parse(time.RFC3339, s)\<close>\<close>

definition ParseRFC3339 :: "string \<Rightarrow> gotime option" where
  "ParseRFC3339 s = do {
     (y, s) \<leftarrow> parse_year s;
     s \<leftarrow> lit (CHR ''-'') s;
     (mo, s) \<leftarrow> getnum True s;
     guard_opt (1 \<le> mo \<and> mo \<le> 12);
     s \<leftarrow> lit (CHR ''-'') s;
     (d, s) \<leftarrow> getnum True s;
     s \<leftarrow> lit (CHR ''T'') s;
     (h, s) \<leftarrow> getnum False s;
     guard_opt (h < 24);
     s \<leftarrow> lit (CHR '':'') s;
     (mi, s) \<leftarrow> getnum True s;
     guard_opt (mi < 60);
     s \<leftarrow> lit (CHR '':'') s;
     (sec, s) \<leftarrow> getnum True s;
     guard_opt (sec < 60);
     let (nsec, s) = parse_frac s;
     (off, s) \<leftarrow> parse_zone s;
     guard_opt (s = [] \<and> 1 \<le> d \<and> d \<le> days_in mo y);
     Some ((civil_days y mo d * 86400 + int h * 3600 + int mi * 60 + int sec - off) * 1000000000 + nsec)
   }"

text \<open>
  \<open>t.Add(d)\<close> moves an instant by a duration of type \<open>int64\<close>; \<open>t.Sub(u)\<close> saturates at the ends of
  that type.
\<close>

definition time_Add :: "gotime \<Rightarrow> i64 \<Rightarrow> gotime" where
  "time_Add t d = t + sint d"

definition time_Sub :: "gotime \<Rightarrow> gotime \<Rightarrow> i64" where
  "time_Sub t u = word_of_int (max (- (2 ^ 63)) (min (2 ^ 63 - 1) (t - u)))"

end
