(* ===== verification/Events.thy ===== *)
theory Events
  imports Run_State
begin

text \<open>
  The events of kloset's bus as the listener reads them (\<open>listener.go\<close>): a type, a level, a
  snapshot identifier, a workflow name and a map of dynamically typed values. A type assertion
  \<open>v.(T)\<close> is a partial function out of \<open>gval\<close>; \<open>eventField\<close> gives the zero value and \<open>false\<close>
  when the key is missing or holds another type. The values of type \<open>objects.FileInfo\<close> are
  represented by what the code asks of them, their size.
\<close>

type_synonym mac = "byte list"

datatype gval =
    GString string
  | GInt64 i64
  | GUint64 u64
  | GFloat64 f64
  | GDuration i64
  | GError string
  | GMAC mac
  | GFileInfo i64
  | GMap "(string \<times> gval) list"
  | GOther nat

record event =
  evType :: string
  evLevel :: string
  evSnapshot :: mac
  evWorkflow :: string
  evData :: "(string \<times> gval) list"

fun as_string :: "gval \<Rightarrow> string option" where
  "as_string (GString s) = Some s" | "as_string _ = None"

fun as_int64 :: "gval \<Rightarrow> i64 option" where
  "as_int64 (GInt64 n) = Some n" | "as_int64 _ = None"

fun as_uint64 :: "gval \<Rightarrow> u64 option" where
  "as_uint64 (GUint64 n) = Some n" | "as_uint64 _ = None"

fun as_duration :: "gval \<Rightarrow> i64 option" where
  "as_duration (GDuration d) = Some d" | "as_duration _ = None"

fun as_error :: "gval \<Rightarrow> string option option" where
  "as_error (GError m) = Some (Some m)" | "as_error _ = None"

fun as_mac :: "gval \<Rightarrow> mac option" where
  "as_mac (GMAC m) = Some m" | "as_mac _ = None"

fun as_fileinfo :: "gval \<Rightarrow> i64 option" where
  "as_fileinfo (GFileInfo n) = Some n" | "as_fileinfo _ = None"

fun as_map :: "gval \<Rightarrow> (string \<times> gval) list option" where
  "as_map (GMap m) = Some m" | "as_map _ = None"

definition eventField :: "'a \<Rightarrow> (gval \<Rightarrow> 'a option) \<Rightarrow> event \<Rightarrow> string \<Rightarrow> 'a \<times> bool" where
  "eventField zero proj e key =
     (case map_of (evData e) key of
        None \<Rightarrow> (zero, False)
      | Some v \<Rightarrow> (case proj v of None \<Rightarrow> (zero, False) | Some x \<Rightarrow> (x, True)))"

text \<open>What the program takes from kloset's \<open>objects\<close> package.\<close>

record mac_api =
  NilMac :: mac
  FormatHex :: "mac \<Rightarrow> string"

subsection \<open>The iostats event\<close>

text \<open>\<open>latencyFromDir\<close>: durations as \<open>time.Duration\<close>, the count as \<open>int64\<close>; else zero.\<close>

definition latencyFromDir :: "(string \<times> gval) list \<Rightarrow> Latency" where
  "latencyFromDir dir =
     (case Option.bind (map_of dir ''latency'') as_map of
        None \<Rightarrow> Latency_zero
      | Some lat \<Rightarrow>
          let getd = (\<lambda>k. case Option.bind (map_of lat k) as_duration of None \<Rightarrow> 0 | Some d \<Rightarrow> d);
              count = (case Option.bind (map_of lat ''count'') as_int64 of None \<Rightarrow> 0 | Some n \<Rightarrow> n)
          in \<lparr>ltCount = count, ltAvg = getd ''avg'', ltP50 = getd ''p50'', ltP95 = getd ''p95'',
              ltMax = getd ''max''\<rparr>)"

definition getf :: "(string \<times> gval) list \<Rightarrow> string \<Rightarrow> f64" where
  "getf dir k =
     (case map_of dir k of
        Some (GFloat64 x) \<Rightarrow> x
      | Some (GInt64 n) \<Rightarrow> f64_of_i64 n
      | _ \<Rightarrow> f64_zero)"

definition ioDirFromEvent :: "event \<Rightarrow> string \<Rightarrow> IODir" where
  "ioDirFromEvent e key =
     (let (dir, _) = eventField [] as_map e key
      in \<lparr>dirTotalBytes = i64_of_f64 (getf dir ''total''),
          dirOverall = getf dir ''overall'',
          dirOverallWall = getf dir ''overall_wall'',
          dirLatency = latencyFromDir dir\<rparr>)"

text \<open>
  Lemma (total_bytes_exact). The byte total of an iostats direction goes through a
  \<open>float64\<close> on its way into the state: an \<open>int64\<close> total below \<open>2^53\<close> arrives unchanged (8 PiB of
  traffic), whatever the other fields are.
\<close>

theorem total_bytes_exact:
  assumes "map_of (evData e) key = Some (GMap dir)" and "map_of dir ''total'' = Some (GInt64 n)"
    and "\<bar>sint n\<bar> < 2 ^ 53"
  shows "dirTotalBytes (ioDirFromEvent e key) = n"
  using assms by (simp add: ioDirFromEvent_def eventField_def getf_def i64_of_f64_of_i64)

theorem total_bytes_exact_witness:
  "dirTotalBytes (ioDirFromEvent
     \<lparr>evType = ''iostats'', evLevel = ''info'', evSnapshot = [], evWorkflow = '''',
      evData = [(''r'', GMap [(''total'', GInt64 4096)])]\<rparr> ''r'') = 4096"
  by (rule total_bytes_exact [where dir = "[(''total'', GInt64 4096)]"]) simp_all

text \<open>
  Lemma (total_bytes_rounded). The first total that is not exact: \<open>2^53 + 1\<close> is stored as
  \<open>2^53\<close>.
\<close>

theorem total_bytes_rounded:
  "dirTotalBytes (ioDirFromEvent
     \<lparr>evType = ''iostats'', evLevel = ''info'', evSnapshot = [], evWorkflow = '''',
      evData = [(''r'', GMap [(''total'', GInt64 9007199254740993)])]\<rparr> ''r'') = 9007199254740992"
  by (simp add: ioDirFromEvent_def eventField_def getf_def f64_of_i64_def f64_round_def
      round53_def bits.simps trunc_fin_def)

end
