(* ===== verification/Protocol.thy ===== *)
theory Protocol
  imports Run_State Go_Strings Go_Conv Events
begin

text \<open>
  The wire protocol (\<open>protocol.go\<close>), the reports (\<open>report.go\<close>), and the readers of a connector
  configuration: \<open>params\<close> and \<open>protocolOf\<close> (\<open>kloset.go\<close>). A JSON object is represented by the
  Go value that was encoded; a UUID by its bytes.
\<close>

subsection \<open>Configurations and payloads\<close>

record Integration =
  igId :: "byte list"
  igName :: string
  igVersion :: string

datatype Configuration =
  Configuration
    (cfId: "byte list")
    (cfRevision: i64)
    (cfType: string)
    (cfIntegration: Integration)
    (cfName: string)
    (cfFields: "ConfigurationField list")
    (cfEnvironment: string)
    (cfDataClasses: "string list")
    (cfURN: string)
    (cfURNID: "byte list")
and ConfigurationField =
  ConfigurationField (fKey: string) (fProvider: "Configuration option") (fVal: string)

record ExecPayload =
  plOp :: string
  plTaskConfig :: smap
  plSource :: "Configuration option"
  plTarget :: "Configuration option"

text \<open>\<open>params\<close> flattens the fields into a map; \<open>protocolOf\<close> reads the scheme of the location.\<close>

definition params :: "Configuration \<Rightarrow> smap" where
  "params c = foldl (\<lambda>m f. AList.update (fKey f) (fVal f) m) [] (cfFields c)"

fun protocol_loop :: "ConfigurationField list \<Rightarrow> string" where
  "protocol_loop [] = ''''"
| "protocol_loop (f # fs) = (if fKey f = ''location'' then fst (cut ''://'' (fVal f)) else protocol_loop fs)"

definition protocolOf :: "Configuration \<Rightarrow> string" where
  "protocolOf conf = protocol_loop (cfFields conf)"

subsection \<open>Reports\<close>

record StoreIO =
  sioBytesRead :: i64
  sioBytesWritten :: i64

record BackupContent =
  bcFiles :: u64
  bcDirectories :: u64
  bcSymlinks :: u64
  bcDevices :: u64
  bcPipes :: u64
  bcSockets :: u64

record BackupReport =
  brSnapshotID :: mac
  brSnapshotCreationTime :: gotime
  brTook :: i64
  brName :: string
  brOrigin :: string
  brRoot :: string
  brSize :: i64
  brItems :: i64
  brTags :: "string list"
  brEnvironment :: string
  brCategory :: string
  brDataset :: string
  brDataClasses :: "string list"
  brLogicalSize :: u64
  brContent :: BackupContent
  brErrors :: i64
  brStore :: StoreIO
  brURN :: string
  brURNID :: string

record CheckReport =
  ckSnapshotID :: mac
  ckTook :: i64
  ckStore :: StoreIO

record ChecksReport =
  ccTook :: i64
  ccLogicalSize :: u64
  ccErrors :: u64
  ccChecks :: "CheckReport list"

record RestoreReport =
  rrSnapshotID :: mac
  rrTook :: i64
  rrLogicalSize :: u64
  rrContent :: BackupContent
  rrErrors :: u64
  rrStore :: StoreIO

record SyncReport =
  srSnapshotID :: mac
  srSnapshotCreationTime :: gotime
  srTook :: i64
  srName :: string
  srSourceOrigin :: string
  srRoot :: string
  srSize :: i64
  srItems :: i64
  srTags :: "string list"
  srEnvironment :: string
  srCategory :: string
  srDataset :: string
  srDataClasses :: "string list"
  srLogicalSize :: u64
  srContent :: BackupContent
  srOriginIO :: StoreIO
  srTargetIO :: StoreIO

record SyncsReport =
  ssTook :: i64
  ssLogicalSize :: u64
  ssErrors :: u64
  ssSyncs :: "SyncReport list"

record RmReport =
  rmErrors :: u64
  rmSnapshotIDs :: "mac list"

record PruneReport =
  pnErrors :: u64
  pnSnapshotIDs :: "mac list"

record Report =
  rpType :: string
  rpBackup :: "BackupReport option"
  rpCheck :: "ChecksReport option"
  rpRestore :: "RestoreReport option"
  rpSync :: "SyncsReport option"
  rpRm :: "RmReport option"
  rpPrune :: "PruneReport option"

text \<open>A report with only its type, the Go literal \<open>Report{Type: op}\<close>.\<close>

definition Report_of :: "string \<Rightarrow> Report" where
  "Report_of op = \<lparr>rpType = op, rpBackup = None, rpCheck = None, rpRestore = None, rpSync = None,
                   rpRm = None, rpPrune = None\<rparr>"

subsection \<open>Replies\<close>

record InventoryEndpoint =
  ieType :: string
  ieEndpoint :: string
  ieAttributes :: smap

record InventoryEntry =
  ivClass :: string
  ivSubClass :: string
  ivTags :: "string list"
  ivURN :: string
  ivName :: string
  ivRegion :: string
  ivService :: string
  ivResource :: string
  ivDetails :: "byte list"
  ivEndpoints :: "InventoryEndpoint list"
  ivCountry :: string

datatype ReplyType =
  ReplyInfo | ReplyWarning | ReplyError | ReplyReport | ReplyState | ReplyFailure | ReplySuccess
  | ReplyInventory

text \<open>What the \<open>report\<close> field of a reply encodes: a report, or one inventory entry.\<close>

datatype raw_report = RawReport Report | RawEntry InventoryEntry

record ExecReply =
  erType :: ReplyType
  erMessage :: string
  erReport :: "raw_report option"
  erState :: "State option"

definition message_reply :: "ReplyType \<Rightarrow> string \<Rightarrow> ExecReply" where
  "message_reply ty msg = \<lparr>erType = ty, erMessage = msg, erReport = None, erState = None\<rparr>"

subsection \<open>Properties\<close>

text \<open>
  Lemma (params_last_field_wins). The flattened parameters bind exactly the keys of the
  fields, each to the value of the last field with that key; the provider references are
  ignored.
\<close>

theorem params_last_field_wins:
  "map_of (params c) k = map_of (map (\<lambda>f. (fKey f, fVal f)) (rev (cfFields c))) k"
  by (simp add: params_def map_of_foldl_update)

lemma cut_scheme:
  assumes "CHR '':'' \<notin> set scheme"
  shows "cut ''://'' (scheme @ ''://'' @ rest) = (scheme, rest, True)"
  using assms
proof (induction scheme)
  case Nil
  then show ?case by (subst cut.simps) simp
next
  case (Cons c s)
  then have "\<not> has_prefix ''://'' ((c # s) @ ''://'' @ rest)" by simp
  with Cons show ?case by (subst cut.simps) simp
qed

text \<open>
  Lemma (protocol_scheme). For a location with a scheme separator, the protocol is the
  scheme in front of the first separator, whatever fields precede or follow; without a
  location field it is empty.
\<close>

theorem protocol_scheme:
  assumes "cfFields c = pre @ ConfigurationField ''location'' prov (scheme @ ''://'' @ rest) # post"
    and "''location'' \<notin> set (map fKey pre)" and "CHR '':'' \<notin> set scheme"
  shows "protocolOf c = scheme"
proof -
  have "protocol_loop (pre @ f # post) = fst (cut ''://'' (fVal f))"
    if "fKey f = ''location''" for f
    using assms(2) that by (induction pre) auto
  with assms(1) show ?thesis using cut_scheme [OF assms(3), of rest] by (simp add: protocolOf_def)
qed

theorem protocol_scheme_witness:
  "protocolOf (Configuration [] 0 '''' \<lparr>igId = [], igName = ''s3'', igVersion = ''1''\<rparr> ''''
     [ConfigurationField ''region'' None ''eu'', ConfigurationField ''location'' None ''s3://host/b'']
     '''' [] '''' []) = ''s3''"
  by (rule protocol_scheme [where pre = "[ConfigurationField ''region'' None ''eu'']" and prov = None
        and rest = "''host/b''" and post = "[]"]) simp_all

text \<open>
  Lemma (duplicate_location). The two readers disagree when a configuration names its
  location twice: the connector is chosen by the scheme of the first, and is given the last.
\<close>

theorem duplicate_location:
  "let c = Configuration [] 0 '''' \<lparr>igId = [], igName = ''x'', igVersion = ''1''\<rparr> ''''
     [ConfigurationField ''location'' None ''s3://a'', ConfigurationField ''location'' None ''sftp://b'']
     '''' [] '''' []
   in protocolOf c = ''s3'' \<and> smap_get (params c) ''location'' = ''sftp://b''"
  by (simp add: Let_def protocolOf_def params_def smap_get_def cut.simps)

end
