(* ===== verification/Registry.thy ===== *)
theory Registry
  imports Protocol
begin

text \<open>
  The plugin registry, \<open>plugin/plugin.go\<close> and \<open>plugin/registry.go\<close>: plugins are filed under a key
  built from name, version, connector type and protocol. The registry is a map, and each
  exported operation holds its mutex, so operations are state transformers. A package manifest
  is package \<open>pkg\<close>'s type; \<open>mcFlags\<close> is what its \<open>Flags\<close> method returns.
\<close>

subsection \<open>Plugins and keys\<close>

text \<open>The connector types of the integration SDK, as the manifests spell them.\<close>

definition ConnectorTypeImporter :: string where "ConnectorTypeImporter = ''importer''"
definition ConnectorTypeExporter :: string where "ConnectorTypeExporter = ''exporter''"
definition ConnectorTypeStorage :: string where "ConnectorTypeStorage = ''storage''"
definition ConnectorTypeInventory :: string where "ConnectorTypeInventory = ''inventory''"
definition ConnectorTypeSecretProvider :: string where "ConnectorTypeSecretProvider = ''secret_provider''"

record Plugin =
  pgName :: string
  pgVersion :: string
  pgType :: string
  pgProtocol :: string
  pgFlags :: nat
  pgExec :: string
  pgArgs :: "string list"

type_synonym pluginKey = string
type_synonym Registry = "pluginKey \<rightharpoonup> Plugin"

definition makePluginKey :: "string \<Rightarrow> string \<Rightarrow> string \<Rightarrow> string \<Rightarrow> pluginKey" where
  "makePluginKey name version conntype protocol =
     (let b = name @ '':'' @ version @ '':'' @ conntype @ '':'';
          protocol = (if conntype = ConnectorTypeSecretProvider \<or> conntype = ConnectorTypeInventory
                      then '''' else protocol)
      in b @ protocol)"

definition plugin_key :: "Plugin \<Rightarrow> pluginKey" where
  "plugin_key p = makePluginKey (pgName p) (pgVersion p) (pgType p) (pgProtocol p)"

subsection \<open>Operations\<close>

datatype registry_error = ErrPluginExist | ErrPluginNotExist | ErrPluginTypeMismatch

definition NewRegistry :: Registry where
  "NewRegistry = Map.empty"

definition registerPlugin :: "Plugin \<Rightarrow> Registry \<Rightarrow> registry_error option \<times> Registry" where
  "registerPlugin p reg =
     (case reg (plugin_key p) of
        Some _ \<Rightarrow> (Some ErrPluginExist, reg)
      | None \<Rightarrow> (None, reg(plugin_key p \<mapsto> p)))"

definition unregisterPlugin :: "pluginKey \<Rightarrow> Registry \<Rightarrow> registry_error option \<times> Registry" where
  "unregisterPlugin key reg =
     (case reg key of
        None \<Rightarrow> (Some ErrPluginNotExist, reg)
      | Some _ \<Rightarrow> (None, reg(key := None)))"

definition GetPlugin :: "Registry \<Rightarrow> string \<Rightarrow> string \<Rightarrow> string \<Rightarrow> string \<Rightarrow> registry_error + Plugin" where
  "GetPlugin reg name version conntype protocol =
     (case reg (makePluginKey name version conntype protocol) of
        None \<Rightarrow> Inl ErrPluginNotExist
      | Some p \<Rightarrow> Inr p)"

text \<open>
  \<open>ListPlugins\<close> ranges over the map in an order Go leaves open, \<open>order\<close>, and stops when the
  consumer's \<open>yield\<close> refuses. The result lists the plugins that were yielded.
\<close>

fun ListPlugins :: "pluginKey list \<Rightarrow> Registry \<Rightarrow> (Plugin \<Rightarrow> bool) \<Rightarrow> Plugin list" where
  "ListPlugins [] reg yield = []"
| "ListPlugins (k # ks) reg yield =
     (case reg k of
        None \<Rightarrow> ListPlugins ks reg yield
      | Some p \<Rightarrow> if yield p then p # ListPlugins ks reg yield else [p])"

record ManifestConnector =
  mcType :: string
  mcProtocols :: "string list"
  mcFlags :: nat
  mcExecutable :: string
  mcArgs :: "string list"

record Manifest =
  mfName :: string
  mfConnectors :: "ManifestConnector list"

definition manifest_plugin :: "Manifest \<Rightarrow> string \<Rightarrow> string \<Rightarrow> ManifestConnector \<Rightarrow> string \<Rightarrow> Plugin" where
  "manifest_plugin m version pkgdir conn proto =
     \<lparr>pgName = mfName m, pgVersion = version, pgType = mcType conn, pgProtocol = proto,
      pgFlags = mcFlags conn, pgExec = filepath_join pkgdir (mcExecutable conn), pgArgs = mcArgs conn\<rparr>"

text \<open>The two nested loops; a plugin that is already there is skipped.\<close>

definition RegisterPlugins :: "Manifest \<Rightarrow> string \<Rightarrow> string \<Rightarrow> Registry \<Rightarrow> Registry" where
  "RegisterPlugins m version pkgdir reg =
     foldl (\<lambda>reg conn.
       foldl (\<lambda>reg proto. snd (registerPlugin (manifest_plugin m version pkgdir conn proto) reg))
         reg (mcProtocols conn))
       reg (mfConnectors m)"

text \<open>\<open>UnregisterPlugins\<close>; the second component counts the warnings it logs.\<close>

definition unregister_step :: "Manifest \<Rightarrow> string \<Rightarrow> string \<Rightarrow> Registry \<times> nat \<Rightarrow> string \<Rightarrow> Registry \<times> nat" where
  "unregister_step m version conntype = (\<lambda>(reg, warnings) proto.
     case unregisterPlugin (makePluginKey (mfName m) version conntype proto) reg of
       (Some _, reg) \<Rightarrow> (reg, warnings + 1)
     | (None, reg) \<Rightarrow> (reg, warnings))"

definition UnregisterPlugins :: "Manifest \<Rightarrow> string \<Rightarrow> Registry \<Rightarrow> Registry \<times> nat" where
  "UnregisterPlugins m version reg =
     foldl (\<lambda>acc conn. foldl (unregister_step m version (mcType conn)) acc (mcProtocols conn))
       (reg, 0) (mfConnectors m)"

text \<open>\<open>pluginFor\<close> of \<open>pkgplugin.go\<close>: the plugin backing a configuration.\<close>

definition pluginFor :: "Registry \<Rightarrow> Configuration \<Rightarrow> string \<Rightarrow> registry_error + Plugin" where
  "pluginFor reg conf connType =
     GetPlugin reg (igName (cfIntegration conf)) (igVersion (cfIntegration conf)) connType (protocolOf conf)"

subsection \<open>Keys\<close>

definition colon_free :: "string \<Rightarrow> bool" where
  "colon_free s \<longleftrightarrow> CHR '':'' \<notin> set s"

definition key_protocol :: "string \<Rightarrow> string \<Rightarrow> string" where
  "key_protocol conntype protocol =
     (if conntype = ConnectorTypeSecretProvider \<or> conntype = ConnectorTypeInventory then '''' else protocol)"

lemma makePluginKey_alt:
  "makePluginKey n v t p = n @ CHR '':'' # v @ CHR '':'' # t @ CHR '':'' # key_protocol t p"
  by (simp add: makePluginKey_def key_protocol_def Let_def)

lemma key_parts:
  assumes "colon_free n" "colon_free v" "colon_free t" "colon_free n'" "colon_free v'" "colon_free t'"
  shows "makePluginKey n v t p = makePluginKey n' v' t' p'
     \<longleftrightarrow> n = n' \<and> v = v' \<and> t = t' \<and> key_protocol t p = key_protocol t' p'"
  using assms unfolding makePluginKey_alt colon_free_def by (simp add: append_sep_eq)

text \<open>
  Property C25 (plugin_key_identity). For names, versions and types without a colon, two keys are
  equal exactly when name, version and type are equal and, except for inventory and secret
  provider plugins, the protocols are: no plugin can be found under another's key.
\<close>

theorem plugin_key_identity:
  assumes "colon_free n" "colon_free v" "colon_free t" "colon_free n'" "colon_free v'" "colon_free t'"
  shows "makePluginKey n v t p = makePluginKey n' v' t' p'
     \<longleftrightarrow> n = n' \<and> v = v' \<and> t = t' \<and> key_protocol t p = key_protocol t' p'"
  by (rule key_parts [OF assms])

theorem plugin_key_identity_witness:
  "makePluginKey ''s3'' ''1.0.0'' ''storage'' ''s3+http'' \<noteq> makePluginKey ''s3'' ''1.0.0'' ''importer'' ''s3+http''"
  by (subst plugin_key_identity) (simp_all add: colon_free_def)

text \<open>
  Lemma (plugin_key_collision). With a colon in a name or a version the keys are not
  unique: two different plugins share one.
\<close>

theorem plugin_key_collision:
  "makePluginKey ''a:b'' ''c'' t p = makePluginKey ''a'' ''b:c'' t p"
  by (simp add: makePluginKey_alt)

subsection \<open>The registry as a package store\<close>

text \<open>The plugins a manifest lists, under their keys, in order.\<close>

definition manifest_entries :: "Manifest \<Rightarrow> string \<Rightarrow> string \<Rightarrow> (pluginKey \<times> Plugin) list" where
  "manifest_entries m version pkgdir =
     concat (map (\<lambda>conn. map (\<lambda>proto. (makePluginKey (mfName m) version (mcType conn) proto,
       manifest_plugin m version pkgdir conn proto)) (mcProtocols conn)) (mfConnectors m))"

definition manifest_keys :: "Manifest \<Rightarrow> string \<Rightarrow> pluginKey list" where
  "manifest_keys m version =
     concat (map (\<lambda>conn. map (makePluginKey (mfName m) version (mcType conn)) (mcProtocols conn))
       (mfConnectors m))"

lemma manifest_entries_keys: "map fst (manifest_entries m version pkgdir) = manifest_keys m version"
  by (simp add: manifest_entries_def manifest_keys_def map_concat comp_def)

lemma register_map:
  "snd (registerPlugin p reg) = [plugin_key p \<mapsto> p] ++ reg"
  by (auto simp: registerPlugin_def map_add_def fun_eq_iff split: option.splits)

lemma manifest_plugin_key [simp]:
  "plugin_key (manifest_plugin m version pkgdir conn proto)
     = makePluginKey (mfName m) version (mcType conn) proto"
  by (simp add: plugin_key_def manifest_plugin_def)

lemma register_all:
  "foldl (\<lambda>reg kp. [fst kp \<mapsto> snd kp] ++ reg) reg kps = map_of kps ++ reg"
proof (induction kps arbitrary: reg)
  case (Cons kp kps)
  have "map_of kps ++ ([fst kp \<mapsto> snd kp] ++ reg) = map_of (kp # kps) ++ reg"
    by (cases kp) (auto simp: map_add_def fun_eq_iff split: option.splits)
  then show ?case by (simp only: foldl.simps Cons.IH)
qed simp

lemma RegisterPlugins_entries:
  "RegisterPlugins m version pkgdir reg = map_of (manifest_entries m version pkgdir) ++ reg"
  unfolding register_all [symmetric] RegisterPlugins_def manifest_entries_def
  by (simp add: register_map foldl_concat_map foldl_map_arg)

lemma unregister_map: "snd (unregisterPlugin k reg) = reg(k := None)"
  by (auto simp: unregisterPlugin_def fun_eq_iff split: option.splits)

lemma unregister_step_eq:
  "unregister_step m version conntype acc proto =
     (let k = makePluginKey (mfName m) version conntype proto
      in ((fst acc)(k := None), snd acc + (if fst acc k = None then 1 else 0)))"
  by (cases acc)
    (auto simp: unregister_step_def unregisterPlugin_def Let_def fun_eq_iff split: option.splits)

definition forget :: "Registry \<times> nat \<Rightarrow> pluginKey \<Rightarrow> Registry \<times> nat" where
  "forget acc k = ((fst acc)(k := None), snd acc + (if fst acc k = None then 1 else 0))"

lemma UnregisterPlugins_keys:
  "UnregisterPlugins m version reg = foldl forget (reg, 0) (manifest_keys m version)"
proof -
  have step: "unregister_step m version t acc proto = forget acc (makePluginKey (mfName m) version t proto)"
    for t acc proto
    by (simp add: unregister_step_eq forget_def Let_def)
  show ?thesis
    by (simp add: UnregisterPlugins_def manifest_keys_def foldl_concat_map foldl_map_arg step [abs_def])
qed

lemma forget_all:
  "fst (foldl forget acc ks) = (\<lambda>k. if k \<in> set ks then None else fst acc k)"
  by (induction ks arbitrary: acc) (auto simp: forget_def fun_eq_iff)

lemma forget_warnings:
  "distinct ks \<Longrightarrow> snd (foldl forget acc ks) = snd acc + length (filter (\<lambda>k. fst acc k = None) ks)"
proof (induction ks arbitrary: acc)
  case (Cons k ks)
  then have "filter (\<lambda>k'. fst (forget acc k) k' = None) ks = filter (\<lambda>k'. fst acc k' = None) ks"
    by (intro filter_cong) (auto simp: forget_def)
  with Cons show ?case by (simp add: forget_def)
qed simp

subsection \<open>The interface of a package store\<close>

text \<open>
  What the loader and the connector builders rely on: loading a package adds its entries without
  replacing anything, unloading removes its keys.
\<close>

locale package_store =
  fixes lookup :: "'s \<Rightarrow> 'k \<Rightarrow> 'v option"
    and load :: "'p \<Rightarrow> 's \<Rightarrow> 's"
    and unload :: "'p \<Rightarrow> 's \<Rightarrow> 's"
    and entries :: "'p \<Rightarrow> ('k \<times> 'v) list"
  assumes lookup_load: "lookup (load p s) k =
      (case lookup s k of Some v \<Rightarrow> Some v | None \<Rightarrow> map_of (entries p) k)"
    and lookup_unload: "lookup (unload p s) k =
      (if k \<in> fst ` set (entries p) then None else lookup s k)"
begin

lemma load_keeps: "lookup s k = Some v \<Longrightarrow> lookup (load p s) k = Some v"
  by (simp add: lookup_load)

lemma load_twice: "lookup (load p (load p s)) k = lookup (load p s) k"
  by (simp add: lookup_load split: option.splits)

lemma unload_load:
  assumes "\<And>k. k \<in> fst ` set (entries p) \<Longrightarrow> lookup s k = None"
  shows "lookup (unload p (load p s)) k = lookup s k"
proof (cases "k \<in> fst ` set (entries p)")
  case False
  then have "map_of (entries p) k = None" by (simp add: map_of_eq_None_iff)
  with False show ?thesis by (simp add: lookup_load lookup_unload split: option.splits)
qed (simp add: lookup_unload assms)

lemma load_commute:
  assumes "fst ` set (entries p) \<inter> fst ` set (entries q) = {}"
  shows "lookup (load p (load q s)) k = lookup (load q (load p s)) k"
proof -
  have "map_of (entries p) k = None \<or> map_of (entries q) k = None"
    using assms by (auto simp: map_of_eq_None_iff)
  then show ?thesis by (auto simp: lookup_load split: option.splits)
qed

lemma unload_other:
  assumes "k \<notin> fst ` set (entries p)"
  shows "lookup (unload p s) k = lookup s k"
  using assms by (simp add: lookup_unload)

end

interpretation reg: package_store
  "\<lambda>reg. reg"
  "\<lambda>(m, version, pkgdir). RegisterPlugins m version pkgdir"
  "\<lambda>(m, version, pkgdir) reg. fst (UnregisterPlugins m version reg)"
  "\<lambda>(m, version, pkgdir). manifest_entries m version pkgdir"
proof (unfold_locales, goal_cases)
  case (1 p s k)
  then show ?case
    by (cases p) (auto simp: RegisterPlugins_entries map_add_def split: option.splits)
next
  case (2 p s k)
  obtain m version pkgdir where p: "p = (m, version, pkgdir)" by (cases p)
  have "set (manifest_keys m version) = fst ` set (manifest_entries m version pkgdir)"
    by (simp flip: manifest_entries_keys [of m version pkgdir])
  with p show ?case by (simp add: UnregisterPlugins_keys forget_all)
qed

subsection \<open>Properties\<close>

text \<open>
  Lemma (register_first_wins). Registering a package adds exactly the plugins its manifest
  lists, one per connector and protocol: of several with the same key the first, and never in
  place of one that was already registered.
\<close>

theorem register_first_wins:
  "GetPlugin (RegisterPlugins m version pkgdir reg) n v t proto
     = (case reg (makePluginKey n v t proto) of
          Some p \<Rightarrow> Inr p
        | None \<Rightarrow> (case map_of (manifest_entries m version pkgdir) (makePluginKey n v t proto) of
                     None \<Rightarrow> Inl ErrPluginNotExist | Some p \<Rightarrow> Inr p))"
  using reg.lookup_load [of "(m, version, pkgdir)" reg "makePluginKey n v t proto"]
  by (simp add: GetPlugin_def split: option.splits)

text \<open>
  Property C22 (unregister_restores). Unloading a package after loading it gives back the registry
  of before, when none of its keys was taken; loading it twice changes nothing.
\<close>

theorem unregister_restores:
  assumes "\<And>k. k \<in> set (manifest_keys m version) \<Longrightarrow> reg k = None"
  shows "fst (UnregisterPlugins m version (RegisterPlugins m version pkgdir reg)) = reg
     \<and> RegisterPlugins m version pkgdir (RegisterPlugins m version pkgdir reg)
         = RegisterPlugins m version pkgdir reg"
proof -
  have "reg k = None" if "k \<in> fst ` set (manifest_entries m version pkgdir)" for k
    using that assms by (simp flip: manifest_entries_keys [of m version pkgdir])
  then show ?thesis
    using reg.unload_load [of "(m, version, pkgdir)" reg] reg.load_twice [of "(m, version, pkgdir)" reg]
    by (simp add: fun_eq_iff)
qed

definition example_manifest :: Manifest where
  "example_manifest = \<lparr>mfName = ''s3'', mfConnectors =
     [\<lparr>mcType = ConnectorTypeStorage, mcProtocols = [''s3'', ''s3+http''], mcFlags = 0,
       mcExecutable = ''s3-storage'', mcArgs = []\<rparr>]\<rparr>"

theorem unregister_restores_witness:
  "fst (UnregisterPlugins example_manifest ''1.0.0''
          (RegisterPlugins example_manifest ''1.0.0'' ''/pkgs'' NewRegistry)) = NewRegistry
   \<and> RegisterPlugins example_manifest ''1.0.0'' ''/pkgs''
        (RegisterPlugins example_manifest ''1.0.0'' ''/pkgs'' NewRegistry)
       = RegisterPlugins example_manifest ''1.0.0'' ''/pkgs'' NewRegistry"
  by (rule unregister_restores) (simp add: NewRegistry_def)

text \<open>
  Lemma (unregister_exact). Unloading removes the keys of the manifest and no others, and
  logs one warning for each key that was not there.
\<close>

theorem unregister_exact:
  assumes "distinct (manifest_keys m version)"
  shows "UnregisterPlugins m version reg
     = ((\<lambda>k. if k \<in> set (manifest_keys m version) then None else reg k),
        length (filter (\<lambda>k. reg k = None) (manifest_keys m version)))"
  by (rule prod_eqI)
    (simp_all add: UnregisterPlugins_keys forget_all forget_warnings assms cong: if_cong)

theorem unregister_exact_witness:
  "UnregisterPlugins example_manifest ''1.0.0'' NewRegistry
     = ((\<lambda>k. if k \<in> set (manifest_keys example_manifest ''1.0.0'') then None else NewRegistry k),
        length (filter (\<lambda>k. NewRegistry k = None) (manifest_keys example_manifest ''1.0.0'')))"
  by (rule unregister_exact)
    (simp add: manifest_keys_def example_manifest_def makePluginKey_def Let_def
      ConnectorTypeStorage_def ConnectorTypeSecretProvider_def ConnectorTypeInventory_def)

text \<open>An enumeration of a registry is listed completely unless the consumer stops.\<close>

lemma ListPlugins_all: "ListPlugins ks reg (\<lambda>_. True) = List.map_filter reg ks"
  by (induction ks) (auto simp: List.map_filter_simps split: option.splits)

subsection \<open>Resolution\<close>

text \<open>The histories of the registry: packages are loaded and unloaded in any order.\<close>

datatype registry_op = LoadPkg Manifest string string | UnloadPkg Manifest string

fun registry_run :: "registry_op \<Rightarrow> Registry \<Rightarrow> Registry" where
  "registry_run (LoadPkg m version pkgdir) reg = RegisterPlugins m version pkgdir reg"
| "registry_run (UnloadPkg m version) reg = fst (UnregisterPlugins m version reg)"

definition registry_wf :: "Registry \<Rightarrow> bool" where
  "registry_wf reg \<longleftrightarrow> (\<forall>k p. reg k = Some p \<longrightarrow> k = plugin_key p)"

lemma registry_wf_run:
  assumes "registry_wf reg"
  shows "registry_wf (registry_run op reg)"
proof (cases op)
  case (LoadPkg m version pkgdir)
  have "k = plugin_key p" if "map_of (manifest_entries m version pkgdir) k = Some p" for k p
    using map_of_SomeD [OF that] by (auto simp: manifest_entries_def)
  with assms LoadPkg show ?thesis
    by (auto simp: registry_wf_def RegisterPlugins_entries map_add_def split: option.splits)
next
  case (UnloadPkg m version)
  with assms show ?thesis
    by (simp add: registry_wf_def UnregisterPlugins_keys forget_all)
qed

lemma registry_wf_history: "registry_wf (fold registry_run ops NewRegistry)"
proof (rule fold_invariant_step [where I = registry_wf])
  show "registry_wf NewRegistry" by (simp add: registry_wf_def NewRegistry_def)
qed (rule registry_wf_run)

text \<open>
  Property C21 (resolution_sound). Whatever packages were loaded and unloaded before, a plugin the
  registry resolves is the one asked for: it has the name, the version, the connector type and,
  except for inventory and secret provider plugins, the protocol of the request. So the type
  check of the connector functions never refuses a plugin the registry found.
\<close>

theorem resolution_sound:
  assumes "GetPlugin (fold registry_run ops NewRegistry) name version conntype protocol = Inr p"
    and "colon_free name" "colon_free version" "colon_free conntype"
    and "colon_free (pgName p)" "colon_free (pgVersion p)" "colon_free (pgType p)"
  shows "pgName p = name \<and> pgVersion p = version \<and> pgType p = conntype
     \<and> key_protocol conntype (pgProtocol p) = key_protocol conntype protocol"
proof -
  have "makePluginKey name version conntype protocol = plugin_key p"
    using assms(1) registry_wf_history [of ops]
    by (auto simp: GetPlugin_def registry_wf_def split: option.splits)
  then have "makePluginKey name version conntype protocol
      = makePluginKey (pgName p) (pgVersion p) (pgType p) (pgProtocol p)"
    by (simp add: plugin_key_def)
  then show ?thesis
    using key_parts assms(2-) by metis
qed

theorem resolution_sound_witness:
  "let p = \<lparr>pgName = ''s3'', pgVersion = ''1.0.0'', pgType = ConnectorTypeStorage, pgProtocol = ''s3'',
            pgFlags = 0, pgExec = ''/pkgs/s3-storage'', pgArgs = []\<rparr>
   in GetPlugin (fold registry_run [LoadPkg example_manifest ''1.0.0'' ''/pkgs''] NewRegistry)
        ''s3'' ''1.0.0'' ConnectorTypeStorage ''s3'' = Inr p
      \<and> pgType p = ConnectorTypeStorage"
proof -
  let ?p = "\<lparr>pgName = ''s3'', pgVersion = ''1.0.0'', pgType = ConnectorTypeStorage, pgProtocol = ''s3'',
            pgFlags = 0, pgExec = ''/pkgs/s3-storage'', pgArgs = []\<rparr>"
  have get: "GetPlugin (fold registry_run [LoadPkg example_manifest ''1.0.0'' ''/pkgs''] NewRegistry)
        ''s3'' ''1.0.0'' ConnectorTypeStorage ''s3'' = Inr ?p"
    by code_simp
  have "pgType ?p = ConnectorTypeStorage"
    using resolution_sound [OF get] by (simp add: colon_free_def ConnectorTypeStorage_def)
  with get show ?thesis by (simp add: Let_def)
qed

end
