(* ===== verification/Effects.thy ===== *)
theory Effects
  imports Registry
begin

text \<open>
  The effects the operations have in common. A Go function that may fail, panic or block is a
  function from the state of the process to an outcome and a new state. The state has four
  parts: what the packages outside the repository act on (an uninterpreted world), the global
  plugin registry, the replies written to stdout so far, and a record of which closable
  resources were opened and closed. The last is bookkeeping of the model: no operation reads it;
  it is what the resource-safety theorems speak of.
\<close>

subsection \<open>Errors\<close>

text \<open>
  \<open>Errorf\<close> is an error with a text of its own (\<open>errors.New\<close>, \<open>fmt.Errorf\<close>), \<open>Wrap\<close> one that
  wraps another with \<open>%w\<close> after a prefix, \<open>ConnCloseError\<close> the \<open>PluginConnCloseError\<close> of
  \<open>plugin/plugin.go\<close>, \<open>External\<close> an error of a package outside the repository.
\<close>

datatype gerror =
    Errorf string
  | Wrap string gerror
  | RegistryError registry_error
  | ErrUnsupported
  | ConnCloseError string "gerror option" "gerror option"
  | External string

fun registry_error_text :: "registry_error \<Rightarrow> string" where
  "registry_error_text ErrPluginExist = ''plugin already registered''"
| "registry_error_text ErrPluginNotExist = ''plugin not registered''"
| "registry_error_text ErrPluginTypeMismatch = ''plugin type mismatch''"

fun error_text :: "gerror \<Rightarrow> string" where
  "error_text (Errorf s) = s"
| "error_text (Wrap s e) = s @ error_text e"
| "error_text (RegistryError e) = registry_error_text e"
| "error_text ErrUnsupported = ''unsupported operation''"
| "error_text (ConnCloseError name ce cce) =
     (let closeErr = (case ce of None \<Rightarrow> ''ok'' | Some e \<Rightarrow> error_text e);
          connErr = (case cce of None \<Rightarrow> ''ok'' | Some e \<Rightarrow> error_text e)
      in name @ '': [close:'' @ closeErr @ ''] [conn:'' @ connErr @ '']'')"
| "error_text (External s) = s"

text \<open>
  The verb \<open>%q\<close> of package fmt on text: quotes and backslashes are escaped, control characters
  written as Go does; bytes of printable multi-byte characters stand for themselves.
\<close>

definition quote_char :: "char \<Rightarrow> string" where
  "quote_char c =
     (let n = of_char c :: nat in
      if c = CHR 0x22 \<or> c = CHR 0x5C then [CHR 0x5C, c]
      else if n = 7 then [CHR 0x5C, CHR ''a'']
      else if n = 8 then [CHR 0x5C, CHR ''b'']
      else if n = 12 then [CHR 0x5C, CHR ''f'']
      else if n = 10 then [CHR 0x5C, CHR ''n'']
      else if n = 13 then [CHR 0x5C, CHR ''r'']
      else if n = 9 then [CHR 0x5C, CHR ''t'']
      else if n = 11 then [CHR 0x5C, CHR ''v'']
      else if n < 32 \<or> n = 127 then CHR 0x5C # CHR ''x'' # hex_byte (word_of_nat n)
      else [c])"

definition quoted :: "string \<Rightarrow> string" where
  "quoted s = CHR 0x22 # concat (map quote_char s) @ [CHR 0x22]"

subsection \<open>Resources and the state of the process\<close>

datatype conn_kind = KImporter | KExporter | KStore | KInventory

datatype resource_kind = RConnector conn_kind | RConn | RSnapshot | RCache | RRepository

type_synonym resource = "resource_kind \<times> nat"

datatype action = Opened resource | Closed resource

record 'w rt =
  world :: 'w
  plugins :: Registry
  sent :: "ExecReply list"
  acts :: "action list"

datatype 'a outcome = Ret 'a | Err gerror | Panic string | Hang

type_synonym ('w, 'a) prog = "'w rt \<Rightarrow> 'a outcome \<times> 'w rt"

subsection \<open>The program monad\<close>

definition ret :: "'a \<Rightarrow> ('w, 'a) prog" where
  "ret x s = (Ret x, s)"

definition fail :: "gerror \<Rightarrow> ('w, 'a) prog" where
  "fail e s = (Err e, s)"

definition panic :: "string \<Rightarrow> ('w, 'a) prog" where
  "panic msg s = (Panic msg, s)"

definition hang :: "('w, 'a) prog" where
  "hang s = (Hang, s)"

definition bind :: "('w, 'a) prog \<Rightarrow> ('a \<Rightarrow> ('w, 'b) prog) \<Rightarrow> ('w, 'b) prog" where
  "bind m f s =
     (case m s of
        (Ret a, s) \<Rightarrow> f a s
      | (Err e, s) \<Rightarrow> (Err e, s)
      | (Panic msg, s) \<Rightarrow> (Panic msg, s)
      | (Hang, s) \<Rightarrow> (Hang, s))"

text \<open>\<open>defer cleanup()\<close>: it runs when the body returns, fails or panics.\<close>

definition deferring :: "('w, unit) prog \<Rightarrow> ('w, 'a) prog \<Rightarrow> ('w, 'a) prog" where
  "deferring cleanup body s =
     (case body s of
        (Hang, s) \<Rightarrow> (Hang, s)
      | (r, s) \<Rightarrow>
          (case cleanup s of
             (Ret _, s) \<Rightarrow> (r, s)
           | (Err e, s) \<Rightarrow> (r, s)
           | (Panic msg, s) \<Rightarrow> (Panic msg, s)
           | (Hang, s) \<Rightarrow> (Hang, s)))"

text \<open>
  Calls into the packages outside the repository. \<open>call\<close> returns early on an error, as
  \<open>if err != nil { return nil, err }\<close> does; \<open>tcall\<close> and \<open>ecall\<close> give the error to the caller.
\<close>

definition tcall :: "('w \<Rightarrow> (gerror + 'a) \<times> 'w) \<Rightarrow> ('w, gerror + 'a) prog" where
  "tcall f s = (let (r, w) = f (world s) in (Ret r, s\<lparr>world := w\<rparr>))"

definition ecall :: "('w \<Rightarrow> gerror option \<times> 'w) \<Rightarrow> ('w, gerror option) prog" where
  "ecall f s = (let (r, w) = f (world s) in (Ret r, s\<lparr>world := w\<rparr>))"

definition vcall :: "('w \<Rightarrow> 'a \<times> 'w) \<Rightarrow> ('w, 'a) prog" where
  "vcall f s = (let (r, w) = f (world s) in (Ret r, s\<lparr>world := w\<rparr>))"

definition look :: "('w \<Rightarrow> 'a) \<Rightarrow> ('w, 'a) prog" where
  "look f s = (Ret (f (world s)), s)"

definition change :: "('w \<Rightarrow> 'w) \<Rightarrow> ('w, unit) prog" where
  "change f s = (Ret (), s\<lparr>world := f (world s)\<rparr>)"

definition ok_or_fail :: "gerror + 'a \<Rightarrow> ('w, 'a) prog" where
  "ok_or_fail r = (case r of Inl e \<Rightarrow> fail e | Inr a \<Rightarrow> ret a)"

definition check_err :: "gerror option \<Rightarrow> ('w, unit) prog" where
  "check_err e = (case e of None \<Rightarrow> ret () | Some e \<Rightarrow> fail e)"

definition call :: "('w \<Rightarrow> (gerror + 'a) \<times> 'w) \<Rightarrow> ('w, 'a) prog" where
  "call f = bind (tcall f) ok_or_fail"

definition call_unit :: "('w \<Rightarrow> gerror option \<times> 'w) \<Rightarrow> ('w, unit) prog" where
  "call_unit f = bind (ecall f) check_err"

definition with_registry :: "(Registry \<Rightarrow> 'a) \<Rightarrow> ('w, 'a) prog" where
  "with_registry f s = (Ret (f (plugins s)), s)"

definition send :: "ExecReply \<Rightarrow> ('w, unit) prog" where
  "send r s = (Ret (), s\<lparr>sent := sent s @ [r]\<rparr>)"

definition opened :: "resource \<Rightarrow> ('w, unit) prog" where
  "opened r s = (Ret (), s\<lparr>acts := acts s @ [Opened r]\<rparr>)"

definition closed :: "resource \<Rightarrow> ('w, unit) prog" where
  "closed r s = (Ret (), s\<lparr>acts := acts s @ [Closed r]\<rparr>)"

text \<open>A call that makes a closable resource.\<close>

definition acquire :: "resource_kind \<Rightarrow> ('w \<Rightarrow> (gerror + nat) \<times> 'w) \<Rightarrow> ('w, nat) prog" where
  "acquire k f = bind (call f) (\<lambda>h. bind (opened (k, h)) (\<lambda>_. ret h))"

text \<open>
  The boundary of a function with results \<open>(*Report, error)\<close>: an early \<open>return nil, err\<close> gives
  no report.
\<close>

definition returns :: "('w, Report option \<times> gerror option) prog \<Rightarrow> ('w, Report option \<times> gerror option) prog" where
  "returns m s =
     (case m s of
        (Err e, s) \<Rightarrow> (Ret (None, Some e), s)
      | (r, s) \<Rightarrow> (r, s))"

text \<open>\<open>LogInfo\<close>, \<open>LogWarn\<close> and \<open>LogError\<close> of \<open>plaklet.go\<close> once \<open>doLog\<close> is set: a reply.\<close>

definition LogInfo :: "string \<Rightarrow> ('w, unit) prog" where
  "LogInfo msg = send (message_reply ReplyInfo msg)"

definition LogWarn :: "string \<Rightarrow> ('w, unit) prog" where
  "LogWarn msg = send (message_reply ReplyWarning msg)"

definition LogError :: "string \<Rightarrow> ('w, unit) prog" where
  "LogError msg = send (message_reply ReplyError msg)"

subsection \<open>Running\<close>

lemma run_simps [prog_simps]:
  "ret x s = (Ret x, s)"
  "fail e s = (Err e, s)"
  "panic msg s = (Panic msg, s)"
  "hang s = (Hang, s)"
  "send r s = (Ret (), s\<lparr>sent := sent s @ [r]\<rparr>)"
  "opened res s = (Ret (), s\<lparr>acts := acts s @ [Opened res]\<rparr>)"
  "closed res s = (Ret (), s\<lparr>acts := acts s @ [Closed res]\<rparr>)"
  "look g s = (Ret (g (world s)), s)"
  "change h s = (Ret (), s\<lparr>world := h (world s)\<rparr>)"
  "with_registry q s = (Ret (q (plugins s)), s)"
  by (simp_all add: ret_def fail_def panic_def hang_def send_def opened_def closed_def look_def
      change_def with_registry_def)

lemma call_simps [prog_simps]:
  "tcall f s = (Ret (fst (f (world s))), s\<lparr>world := snd (f (world s))\<rparr>)"
  "ecall g s = (Ret (fst (g (world s))), s\<lparr>world := snd (g (world s))\<rparr>)"
  "vcall h s = (Ret (fst (h (world s))), s\<lparr>world := snd (h (world s))\<rparr>)"
  by (simp_all add: tcall_def ecall_def vcall_def case_prod_beta)

lemma bind_run [prog_simps]:
  "m s = (Ret a, s') \<Longrightarrow> bind m f s = f a s'"
  "m s = (Err e, s') \<Longrightarrow> bind m f s = (Err e, s')"
  "m s = (Panic msg, s') \<Longrightarrow> bind m f s = (Panic msg, s')"
  "m s = (Hang, s') \<Longrightarrow> bind m f s = (Hang, s')"
  by (simp_all add: bind_def)

lemma bind_assoc: "bind (bind m f) g = bind m (\<lambda>x. bind (f x) g)"
  by (simp add: fun_eq_iff bind_def split: prod.splits outcome.splits)

lemma bind_ret [simp]: "bind (ret x) f = f x" "bind (fail e) f = fail e"
  "bind (panic msg) f = panic msg" "bind hang f = hang"
  by (simp_all add: fun_eq_iff bind_def ret_def fail_def panic_def hang_def)

lemma returns_run [prog_simps]:
  "m s = (Ret a, s') \<Longrightarrow> returns m s = (Ret a, s')"
  "m s = (Err e, s') \<Longrightarrow> returns m s = (Ret (None, Some e), s')"
  "m s = (Panic msg, s') \<Longrightarrow> returns m s = (Panic msg, s')"
  by (simp_all add: returns_def)

subsection \<open>The flow of resources\<close>

text \<open>
  \<open>balance\<close> counts how often a resource was opened more than closed. Repositories are left out:
  the operations open them and, except for the connectivity test, leave them to the end of the
  process.

  \<open>flow rs m Q\<close>: started with the duty to close \<open>rs\<close>, \<open>m\<close> either ends early with all of them closed
  and nothing new left open, or returns a value \<open>a\<close> with the duty to close \<open>Q a\<close> instead. A
  function that gives back all it takes is \<open>flow {#} m (\<lambda>_. {#})\<close>.
\<close>

definition balance :: "action list \<Rightarrow> resource \<Rightarrow> int" where
  "balance as r = int (count_list as (Opened r)) - int (count_list as (Closed r))"

lemma balance_append [simp]:
  "balance (as @ [Opened r']) r = balance as r + (if r' = r then 1 else 0)"
  "balance (as @ [Closed r']) r = balance as r - (if r' = r then 1 else 0)"
  by (auto simp: balance_def)

definition left_open :: "'w rt \<Rightarrow> 'w rt \<Rightarrow> resource multiset \<Rightarrow> resource multiset \<Rightarrow> bool" where
  "left_open s s' rs qs \<longleftrightarrow>
     (\<forall>r. fst r \<noteq> RRepository \<longrightarrow>
        balance (acts s') r = balance (acts s) r - int (count rs r) + int (count qs r))"

definition flow :: "resource multiset \<Rightarrow> ('w, 'a) prog \<Rightarrow> ('a \<Rightarrow> resource multiset) \<Rightarrow> bool" where
  "flow rs m Q \<longleftrightarrow>
     (\<forall>s. case m s of
            (Ret a, s') \<Rightarrow> left_open s s' rs (Q a)
          | (Hang, s') \<Rightarrow> True
          | (_, s') \<Rightarrow> left_open s s' rs {#})"

abbreviation neutral :: "('w, 'a) prog \<Rightarrow> bool" where
  "neutral m \<equiv> flow {#} m (\<lambda>_. {#})"

lemma left_open_refl [simp]: "left_open s s rs rs"
  by (simp add: left_open_def)

lemma left_open_world [simp]:
  "left_open s (s'\<lparr>world := w\<rparr>) rs qs = left_open s s' rs qs"
  "left_open s (s'\<lparr>sent := out\<rparr>) rs qs = left_open s s' rs qs"
  by (simp_all add: left_open_def)

lemma left_open_trans:
  "left_open s s' rs qs \<Longrightarrow> left_open s' s'' qs ts \<Longrightarrow> left_open s s'' rs ts"
  unfolding left_open_def by auto

lemma flowD:
  assumes "flow rs m Q"
  shows "m s = (Ret a, s') \<Longrightarrow> left_open s s' rs (Q a)"
    and "m s = (Err e, s') \<Longrightarrow> left_open s s' rs {#}"
    and "m s = (Panic msg, s') \<Longrightarrow> left_open s s' rs {#}"
  using assms [unfolded flow_def, rule_format, of s] by simp_all

lemma flow_bind:
  assumes "flow rs m Q" and "\<And>a. flow (Q a) (f a) R"
  shows "flow rs (bind m f) R"
  unfolding flow_def
proof
  fix s
  obtain r s' where m: "m s = (r, s')" by fastforce
  show "case bind m f s of (Ret a, s'') \<Rightarrow> left_open s s'' rs (R a) | (Hang, s'') \<Rightarrow> True
      | (_, s'') \<Rightarrow> left_open s s'' rs {#}"
  proof (cases r)
    case (Ret a)
    with m assms(1) have "left_open s s' rs (Q a)" by (auto dest: flowD)
    with m Ret show ?thesis
      using assms(2) [of a, unfolded flow_def, rule_format, of s']
      by (auto simp: bind_def split: prod.splits outcome.splits intro: left_open_trans)
  qed (use m assms(1) in \<open>auto simp: bind_def dest: flowD\<close>)
qed

lemma neutral_bind: "neutral m \<Longrightarrow> (\<And>a. neutral (f a)) \<Longrightarrow> neutral (bind m f)"
  by (rule flow_bind)

text \<open>A cleanup, and a body that takes and gives back what it needs itself.\<close>

lemma flow_deferring [takes_intros]:
  assumes "flow rs cleanup (\<lambda>_. {#})" and "neutral body"
  shows "flow rs (deferring cleanup body) (\<lambda>_. {#})"
  unfolding flow_def
proof
  fix s
  obtain r s' where b: "body s = (r, s')" by fastforce
  obtain r' s'' where c: "cleanup s' = (r', s'')" by fastforce
  have "left_open s s'' rs {#}" if "r \<noteq> Hang" "r' \<noteq> Hang"
  proof -
    have one: "left_open s s' {#} {#}"
      using that b flowD [OF assms(2), of s] by (cases r) auto
    moreover have "left_open s' s'' rs {#}"
      using that c flowD [OF assms(1), of s'] by (cases r') auto
    ultimately show ?thesis unfolding left_open_def by simp
  qed
  then show "case deferring cleanup body s of (Ret a, s'') \<Rightarrow> left_open s s'' rs {#} | (Hang, s'') \<Rightarrow> True
      | (_, s'') \<Rightarrow> left_open s s'' rs {#}"
    by (simp add: deferring_def b c split: outcome.split)
qed

lemma flow_ret: "flow (Q x) (ret x) Q"
  by (simp add: flow_def ret_def)

lemma flow_ret_eq: "Q x = rs \<Longrightarrow> flow rs (ret x) Q"
  by (auto simp: flow_def ret_def)

lemma flow_ret_const [keeps_intros]: "flow rs (ret x) (\<lambda>_. rs)"
  by (simp add: flow_def ret_def)

lemma flow_leaf [keeps_intros]:
  "flow {#} (fail e) Q" "flow {#} (panic msg) Q" "flow rs hang Q"
  "flow rs (tcall f) (\<lambda>_. rs)" "flow rs (ecall g) (\<lambda>_. rs)" "flow rs (vcall h) (\<lambda>_. rs)"
  "flow rs (look l) (\<lambda>_. rs)" "flow rs (change c) (\<lambda>_. rs)" "flow rs (send r) (\<lambda>_. rs)"
  "flow rs (with_registry q) (\<lambda>_. rs)"
  "flow rs (LogWarn msg) (\<lambda>_. rs)" "flow rs (LogInfo msg) (\<lambda>_. rs)" "flow rs (LogError msg) (\<lambda>_. rs)"
  by (simp_all add: flow_def prog_simps LogWarn_def LogInfo_def LogError_def)

lemma flow_opened: "flow rs (opened r) (\<lambda>_. add_mset r rs)"
  by (auto simp: flow_def prog_simps left_open_def)

lemma flow_closed [takes_intros]: "flow (add_mset r rs) (closed r) (\<lambda>_. rs)"
  by (auto simp: flow_def prog_simps left_open_def)

lemma flow_opened_repo: "flow rs (opened (RRepository, h)) (\<lambda>_. rs)"
  by (auto simp: flow_def prog_simps left_open_def)

lemma flow_closed_repo: "flow rs (closed (RRepository, h)) (\<lambda>_. rs)"
  by (auto simp: flow_def prog_simps left_open_def)

lemma neutral_ok_or_fail [keeps_intros]: "neutral (ok_or_fail r)"
  by (cases r) (simp_all add: flow_def ok_or_fail_def prog_simps)

lemma neutral_check_err [keeps_intros]: "neutral (check_err e)"
  by (cases e) (simp_all add: flow_def check_err_def prog_simps)

lemma neutral_call [keeps_intros]: "neutral (call f)"
  unfolding call_def by (intro neutral_bind keeps_intros)

lemma neutral_call_unit [keeps_intros]: "neutral (call_unit f)"
  unfolding call_unit_def by (intro neutral_bind keeps_intros)

lemma flow_acquire:
  "flow {#} (acquire k f) (\<lambda>h. {#(k, h)#})"
proof -
  have "flow {#} (bind (opened (k, h)) (\<lambda>_. ret h)) (\<lambda>h. {#(k, h)#})" for h :: nat
    by (rule flow_bind [OF flow_opened]) (rule flow_ret)
  then show ?thesis unfolding acquire_def by (rule flow_bind [OF neutral_call])
qed

lemma acquire_then [takes_intros]:
  "(\<And>h. flow {#(k, h)#} (f h) Q) \<Longrightarrow> flow {#} (bind (acquire k g) f) Q"
  by (rule flow_bind [OF flow_acquire])

lemma neutral_acquire_repo [keeps_intros]: "neutral (acquire RRepository f)"
proof -
  have "neutral (bind (opened (RRepository, h)) (\<lambda>_. ret h))" for h
    by (rule flow_bind [OF flow_opened_repo]) (rule flow_ret_const)
  then show ?thesis unfolding acquire_def by (rule flow_bind [OF neutral_call])
qed

lemma flow_if [keeps_intros]:
  "(b \<Longrightarrow> flow rs m Q) \<Longrightarrow> (\<not> b \<Longrightarrow> flow rs m' Q) \<Longrightarrow> flow rs (if b then m else m') Q"
  by simp

lemma flow_option [keeps_intros]:
  "(x = None \<Longrightarrow> flow rs m Q) \<Longrightarrow> (\<And>a. x = Some a \<Longrightarrow> flow rs (f a) Q)
     \<Longrightarrow> flow rs (case x of None \<Rightarrow> m | Some a \<Rightarrow> f a) Q"
  by (cases x) simp_all

lemma flow_sum [keeps_intros]:
  "(\<And>a. x = Inl a \<Longrightarrow> flow rs (f a) Q) \<Longrightarrow> (\<And>a. x = Inr a \<Longrightarrow> flow rs (g a) Q)
     \<Longrightarrow> flow rs (case x of Inl a \<Rightarrow> f a | Inr a \<Rightarrow> g a) Q"
  by (cases x) simp_all

lemma flow_list [keeps_intros]:
  "(x = [] \<Longrightarrow> flow rs m Q) \<Longrightarrow> (\<And>a as. x = a # as \<Longrightarrow> flow rs (f a as) Q)
     \<Longrightarrow> flow rs (case x of [] \<Rightarrow> m | a # as \<Rightarrow> f a as) Q"
  by (cases x) simp_all

lemma flow_prod [keeps_intros]:
  "(\<And>a b. x = (a, b) \<Longrightarrow> flow rs (f a b) Q) \<Longrightarrow> flow rs (case x of (a, b) \<Rightarrow> f a b) Q"
  by (cases x) simp

lemma flow_known_case [takes_intros]:
  "flow rs (f a b) Q \<Longrightarrow> flow rs (case (a, b) of (x, y) \<Rightarrow> f x y) Q"
  "flow rs (g e) Q \<Longrightarrow> flow rs (case Inl e of Inl x \<Rightarrow> g x | Inr y \<Rightarrow> h y) Q"
  "flow rs (h c) Q \<Longrightarrow> flow rs (case Inr c of Inl x \<Rightarrow> g x | Inr y \<Rightarrow> h y) Q"
  by simp_all

lemma neutral_returns [keeps_intros]:
  assumes "neutral m" shows "neutral (returns m)"
  unfolding flow_def
proof
  fix s
  obtain r s' where "m s = (r, s')" by fastforce
  with flowD [OF assms, of s] show "case returns m s of (Ret a, s') \<Rightarrow> left_open s s' {#} {#}
      | (Hang, s') \<Rightarrow> True | (_, s') \<Rightarrow> left_open s s' {#} {#}"
    by (cases r) (auto simp: returns_def)
qed

text \<open>A loop over a list, as \<open>for _, x := range xs\<close> with an accumulator.\<close>

fun for_each :: "('a \<Rightarrow> 'acc \<Rightarrow> ('w, 'acc) prog) \<Rightarrow> 'a list \<Rightarrow> 'acc \<Rightarrow> ('w, 'acc) prog" where
  "for_each body [] acc = ret acc"
| "for_each body (x # xs) acc = bind (body x acc) (for_each body xs)"

lemma neutral_for_each [keeps_intros]:
  assumes "\<And>x acc. neutral (body x acc)"
  shows "neutral (for_each body xs acc)"
  by (induction xs arbitrary: acc) (auto intro!: flow_ret_const flow_bind [OF assms])

subsection \<open>What a returned value tells\<close>

text \<open>
  \<open>gives m Q\<close>: a value \<open>m\<close> returns satisfies \<open>Q\<close>. The rules record, for a call into another
  package, that the value is one the call can return.
\<close>

definition gives :: "('w, 'a) prog \<Rightarrow> ('a \<Rightarrow> bool) \<Rightarrow> bool" where
  "gives m Q \<longleftrightarrow> (\<forall>s. case m s of (Ret a, s') \<Rightarrow> Q a | _ \<Rightarrow> True)"

lemma givesD:
  assumes "gives m Q" and "m s = (Ret a, s')"
  shows "Q a"
  using assms(1) [unfolded gives_def, rule_format, of s] assms(2) by simp

lemma gives_leaf [gives_intros]:
  "Q x \<Longrightarrow> gives (ret x) Q" "gives (fail e) R" "gives (panic msg) R" "gives hang R"
  by (simp_all add: gives_def prog_simps)

lemma gives_bind:
  assumes "gives m P" and "\<And>a. P a \<Longrightarrow> gives (f a) Q"
  shows "gives (bind m f) Q"
  unfolding gives_def
proof
  fix s
  obtain r s' where m: "m s = (r, s')" by fastforce
  show "case bind m f s of (Ret a, s') \<Rightarrow> Q a | _ \<Rightarrow> True"
  proof (cases r)
    case (Ret a)
    with m assms(1) have "P a" by (auto dest: givesD)
    from assms(2) [OF this] m Ret show ?thesis by (auto simp: gives_def bind_def)
  qed (simp_all add: m bind_def)
qed

lemma gives_bind_any: "(\<And>a. gives (f a) Q) \<Longrightarrow> gives (bind m f) Q"
  by (rule gives_bind [where P = "\<lambda>_. True"]) (simp_all add: gives_def split: prod.split outcome.split)

lemma gives_call: "gives (call g) (\<lambda>a. \<exists>w w'. g w = (Inr a, w'))"
  by (auto simp: gives_def call_def bind_def prog_simps ok_or_fail_def prod_eq_iff
      split: sum.splits prod.splits outcome.splits)

lemma gives_call_unit: "gives (call_unit g) (\<lambda>_. \<exists>w w'. g w = (None, w'))"
  by (auto simp: gives_def call_unit_def bind_def prog_simps check_err_def prod_eq_iff
      split: option.splits prod.splits outcome.splits)

lemma gives_acquire: "gives (acquire k g) (\<lambda>a. \<exists>w w'. g w = (Inr a, w'))"
  unfolding acquire_def by (rule gives_bind [OF gives_call]) (auto simp: gives_def bind_def prog_simps)

lemma gives_call_then [gives_intros]:
  "(\<And>a w w'. g w = (Inr a, w') \<Longrightarrow> gives (f a) Q) \<Longrightarrow> gives (bind (call g) f) Q"
  by (rule gives_bind [OF gives_call]) auto

lemma gives_call_unit_then [gives_intros]:
  "(\<And>w w'. g w = (None, w') \<Longrightarrow> gives (f ()) Q) \<Longrightarrow> gives (bind (call_unit g) f) Q"
  by (rule gives_bind [OF gives_call_unit]) auto

lemma gives_acquire_then [gives_intros]:
  "(\<And>a w w'. g w = (Inr a, w') \<Longrightarrow> gives (f a) Q) \<Longrightarrow> gives (bind (acquire k g) f) Q"
  by (rule gives_bind [OF gives_acquire]) auto

lemma gives_total_then [gives_intros]:
  "(\<And>w. gives (f1 (fst (g1 w))) Q) \<Longrightarrow> gives (bind (tcall g1) f1) Q"
  "(\<And>w. gives (f2 (fst (g2 w))) Q) \<Longrightarrow> gives (bind (ecall g2) f2) Q"
  "(\<And>w. gives (f3 (fst (g3 w))) Q) \<Longrightarrow> gives (bind (vcall g3) f3) Q"
  "(\<And>w. gives (f4 (g4 w)) Q) \<Longrightarrow> gives (bind (look g4) f4) Q"
  by (auto simp: gives_def bind_def prog_simps)

lemma gives_deferring [gives_intros]: "gives body Q \<Longrightarrow> gives (deferring cleanup body) Q"
  by (auto simp: gives_def deferring_def split: prod.splits outcome.splits)

lemma gives_returns [gives_intros]:
  "gives m Q \<Longrightarrow> (\<And>e. Q (None, Some e)) \<Longrightarrow> gives (returns m) Q"
  by (auto simp: gives_def returns_def split: prod.splits outcome.splits)

lemma gives_cases [gives_intros]:
  "(b \<Longrightarrow> gives m Q) \<Longrightarrow> (\<not> b \<Longrightarrow> gives m' Q) \<Longrightarrow> gives (if b then m else m') Q"
  "(x = None \<Longrightarrow> gives m Q) \<Longrightarrow> (\<And>a. x = Some a \<Longrightarrow> gives (f1 a) Q)
     \<Longrightarrow> gives (case x of None \<Rightarrow> m | Some a \<Rightarrow> f1 a) Q"
  "(\<And>a. y = Inl a \<Longrightarrow> gives (f2 a) Q) \<Longrightarrow> (\<And>a. y = Inr a \<Longrightarrow> gives (g2 a) Q)
     \<Longrightarrow> gives (case y of Inl a \<Rightarrow> f2 a | Inr a \<Rightarrow> g2 a) Q"
  "(z = [] \<Longrightarrow> gives m Q) \<Longrightarrow> (\<And>a as. z = a # as \<Longrightarrow> gives (f3 a as) Q)
     \<Longrightarrow> gives (case z of [] \<Rightarrow> m | a # as \<Rightarrow> f3 a as) Q"
  "(\<And>a b. p = (a, b) \<Longrightarrow> gives (f4 a b) Q) \<Longrightarrow> gives (case p of (a, b) \<Rightarrow> f4 a b) Q"
  by (auto split: option.split sum.split list.split prod.split)

lemma gives_mono: "gives m P \<Longrightarrow> (\<And>a. P a \<Longrightarrow> Q a) \<Longrightarrow> gives m Q"
  by (auto simp: gives_def split: prod.splits outcome.splits)

end
