(* ===== verification/Plugin_Conn.thy ===== *)
theory Plugin_Conn
  imports Effects
begin

text \<open>
  Connectors that run out of process: \<open>plugin/plugin.go\<close> and \<open>plugin/importer.go\<close>,
  \<open>exporter.go\<close>, \<open>storage.go\<close>, \<open>inventory.go\<close>. A plugin process is spawned, a gRPC client is put on
  its connection, and the SDK makes the connector from the client; the three are closed
  together. The packages \<open>stdioconn\<close>, \<open>grpc\<close> and the integration SDK are the fields of
  \<open>plugin_api\<close>; objects they make are known by a number.
\<close>

subsection \<open>The packages outside the repository\<close>

text \<open>The fields of the connector options the code sets.\<close>

record Options =
  opHostname :: string
  opOperatingSystem :: string
  opArchitecture :: string
  opCWD :: string
  opMaxConcurrency :: i64
  opExcludes :: "string list"

definition Options_zero :: Options where
  "Options_zero = \<lparr>opHostname = '''', opOperatingSystem = '''', opArchitecture = '''', opCWD = '''',
                   opMaxConcurrency = 0, opExcludes = []\<rparr>"

text \<open>\<open>CloseFn\<close> is the \<open>Close\<close> method of a connector that is not wrapped, by the interface it has.\<close>

record 'w plugin_api =
  Spawn :: "string \<Rightarrow> string list \<Rightarrow> 'w \<Rightarrow> (gerror + nat) \<times> 'w"
  GrpcClient :: "nat \<Rightarrow> 'w \<Rightarrow> (gerror + nat) \<times> 'w"
  ConnClose :: "nat \<Rightarrow> 'w \<Rightarrow> gerror option \<times> 'w"
  SdkImporter :: "nat \<Rightarrow> Options \<Rightarrow> string \<Rightarrow> smap \<Rightarrow> 'w \<Rightarrow> (gerror + nat) \<times> 'w"
  SdkExporter :: "nat \<Rightarrow> Options \<Rightarrow> string \<Rightarrow> smap \<Rightarrow> 'w \<Rightarrow> (gerror + nat) \<times> 'w"
  SdkStorage :: "nat \<Rightarrow> string \<Rightarrow> smap \<Rightarrow> 'w \<Rightarrow> (gerror + nat) \<times> 'w"
  SdkInventory :: "nat \<Rightarrow> smap \<Rightarrow> 'w \<Rightarrow> (gerror + nat) \<times> 'w"
  CloseFn :: "conn_kind \<Rightarrow> nat \<Rightarrow> 'w \<Rightarrow> gerror option \<times> 'w"

subsection \<open>Connectors\<close>

text \<open>
  A value of one of the connector interfaces: an object of a package, or one of the
  \<open>PluginConn\<close> structures, the SDK's object together with its connection.
\<close>

datatype connector = Direct nat | PluginConn nat nat

fun inner :: "connector \<Rightarrow> nat" where
  "inner (Direct h) = h"
| "inner (PluginConn h _) = h"

definition Connect :: "('w, 'z) plugin_api_scheme \<Rightarrow> Plugin \<Rightarrow> ('w, nat \<times> nat) prog" where
  "Connect K p =
     bind (acquire RConn (Spawn K (pgExec p) (pgArgs p))) (\<lambda>conn.
     bind (tcall (GrpcClient K conn)) (\<lambda>r.
     case r of
       Inl e \<Rightarrow>
         bind (ecall (ConnClose K conn)) (\<lambda>_.
         bind (closed (RConn, conn)) (\<lambda>_.
         fail (Wrap ''grpc client creation failed: '' e)))
     | Inr client \<Rightarrow> ret (client, conn)))"

text \<open>The part that the four \<open>New\<close> functions share: the type check, and closing when the SDK fails.\<close>

definition plugin_new ::
  "('w, 'z) plugin_api_scheme \<Rightarrow> string \<Rightarrow> conn_kind \<Rightarrow> (nat \<Rightarrow> 'w \<Rightarrow> (gerror + nat) \<times> 'w) \<Rightarrow> Plugin
     \<Rightarrow> ('w, connector) prog" where
  "plugin_new K conntype kind sdk p =
     (if pgType p \<noteq> conntype then fail (RegistryError ErrPluginTypeMismatch)
      else
        bind (Connect K p) (\<lambda>(client, conn).
        bind (tcall (sdk client)) (\<lambda>r.
        case r of
          Inl e \<Rightarrow>
            bind (ecall (ConnClose K conn)) (\<lambda>_.
            bind (closed (RConn, conn)) (\<lambda>_.
            fail e))
        | Inr h \<Rightarrow>
            bind (opened (RConnector kind, h)) (\<lambda>_.
            ret (PluginConn h conn)))))"

definition NewImporter :: "('w, 'z) plugin_api_scheme \<Rightarrow> Plugin \<Rightarrow> string \<Rightarrow> smap \<Rightarrow> Options
    \<Rightarrow> ('w, connector) prog" where
  "NewImporter K p proto ps opts =
     plugin_new K ConnectorTypeImporter KImporter (\<lambda>client. SdkImporter K client opts proto ps) p"

definition NewExporter :: "('w, 'z) plugin_api_scheme \<Rightarrow> Plugin \<Rightarrow> string \<Rightarrow> smap \<Rightarrow> Options
    \<Rightarrow> ('w, connector) prog" where
  "NewExporter K p proto ps opts =
     plugin_new K ConnectorTypeExporter KExporter (\<lambda>client. SdkExporter K client opts proto ps) p"

definition NewStorage :: "('w, 'z) plugin_api_scheme \<Rightarrow> Plugin \<Rightarrow> string \<Rightarrow> smap
    \<Rightarrow> ('w, connector) prog" where
  "NewStorage K p proto ps =
     plugin_new K ConnectorTypeStorage KStore (\<lambda>client. SdkStorage K client proto ps) p"

definition NewInventory :: "('w, 'z) plugin_api_scheme \<Rightarrow> Plugin \<Rightarrow> string \<Rightarrow> smap
    \<Rightarrow> ('w, connector) prog" where
  "NewInventory K p proto ps =
     plugin_new K ConnectorTypeInventory KInventory (\<lambda>client. SdkInventory K client ps) p"

subsection \<open>Closing\<close>

definition closePluginConn ::
  "('w, 'z) plugin_api_scheme \<Rightarrow> string \<Rightarrow> conn_kind \<Rightarrow> nat \<Rightarrow> nat \<Rightarrow> ('w, gerror option) prog" where
  "closePluginConn K name kind h conn =
     bind (ecall (CloseFn K kind h)) (\<lambda>closeErr.
     bind (closed (RConnector kind, h)) (\<lambda>_.
     bind (ecall (ConnClose K conn)) (\<lambda>connCloseErr.
     bind (closed (RConn, conn)) (\<lambda>_.
     ret (if closeErr \<noteq> None \<or> connCloseErr \<noteq> None
          then Some (ConnCloseError name closeErr connCloseErr) else None)))))"

text \<open>
  The \<open>Close\<close> methods of the four wrappers. The exporter's reports its errors under the name
  \<open>importer\<close>, as \<open>plugin/exporter.go\<close> does.
\<close>

definition ImporterPluginConn_Close :: "('w, 'z) plugin_api_scheme \<Rightarrow> nat \<Rightarrow> nat \<Rightarrow> ('w, gerror option) prog" where
  "ImporterPluginConn_Close K h conn = closePluginConn K ''importer'' KImporter h conn"

definition ExporterPluginConn_Close :: "('w, 'z) plugin_api_scheme \<Rightarrow> nat \<Rightarrow> nat \<Rightarrow> ('w, gerror option) prog" where
  "ExporterPluginConn_Close K h conn = closePluginConn K ''importer'' KExporter h conn"

definition StoragePluginConn_Close :: "('w, 'z) plugin_api_scheme \<Rightarrow> nat \<Rightarrow> nat \<Rightarrow> ('w, gerror option) prog" where
  "StoragePluginConn_Close K h conn = closePluginConn K ''store'' KStore h conn"

definition InventoryPluginConn_Close :: "('w, 'z) plugin_api_scheme \<Rightarrow> nat \<Rightarrow> nat \<Rightarrow> ('w, gerror option) prog" where
  "InventoryPluginConn_Close K h conn = closePluginConn K ''inventory'' KInventory h conn"

fun wrapper_close :: "('w, 'z) plugin_api_scheme \<Rightarrow> conn_kind \<Rightarrow> nat \<Rightarrow> nat \<Rightarrow> ('w, gerror option) prog" where
  "wrapper_close K KImporter h conn = ImporterPluginConn_Close K h conn"
| "wrapper_close K KExporter h conn = ExporterPluginConn_Close K h conn"
| "wrapper_close K KStore h conn = StoragePluginConn_Close K h conn"
| "wrapper_close K KInventory h conn = InventoryPluginConn_Close K h conn"

lemmas wrapper_close_defs = ImporterPluginConn_Close_def ExporterPluginConn_Close_def
  StoragePluginConn_Close_def InventoryPluginConn_Close_def

text \<open>The \<open>Close\<close> method of a connector value.\<close>

fun connector_close :: "('w, 'z) plugin_api_scheme \<Rightarrow> conn_kind \<Rightarrow> connector \<Rightarrow> ('w, gerror option) prog" where
  "connector_close K kind (Direct h) =
     bind (ecall (CloseFn K kind h)) (\<lambda>e.
     bind (closed (RConnector kind, h)) (\<lambda>_.
     ret e))"
| "connector_close K kind (PluginConn h conn) = wrapper_close K kind h conn"

lemma wrapper_close_named: "\<exists>name. wrapper_close K kind h conn = closePluginConn K name kind h conn"
  by (cases kind) (auto simp: wrapper_close_defs)

subsection \<open>What a connector owns\<close>

fun owned :: "conn_kind \<Rightarrow> connector \<Rightarrow> resource multiset" where
  "owned kind (Direct h) = {#(RConnector kind, h)#}"
| "owned kind (PluginConn h conn) = {#(RConnector kind, h), (RConn, conn)#}"

lemma flow_Connect: "flow {#} (Connect K p) (\<lambda>(client, conn). {#(RConn, conn)#})"
proof -
  have "flow {#(RConn, conn)#}
      (case r of Inl e \<Rightarrow> bind (ecall (ConnClose K conn)) (\<lambda>_. bind (closed (RConn, conn)) (\<lambda>_.
          fail (Wrap ''grpc client creation failed: '' e)))
        | Inr client \<Rightarrow> ret (client, conn)) (\<lambda>(client, conn). {#(RConn, conn)#})" for r :: "gerror + nat" and conn
    by (cases r) (auto intro!: flow_bind [OF flow_leaf(5)] flow_bind [OF flow_closed] flow_leaf
        flow_ret_eq)
  then show ?thesis
    unfolding Connect_def by (intro acquire_then flow_bind [OF flow_leaf(4)])
qed

lemma flow_plugin_new: "flow {#} (plugin_new K conntype kind sdk p) (owned kind)"
proof -
  have "flow {#(RConn, conn)#}
      (case r of Inl e \<Rightarrow> bind (ecall (ConnClose K conn)) (\<lambda>_. bind (closed (RConn, conn)) (\<lambda>_. fail e))
        | Inr h \<Rightarrow> bind (opened (RConnector kind, h)) (\<lambda>_. ret (PluginConn h conn))) (owned kind)"
    for r :: "gerror + nat" and conn
    by (cases r) (auto intro!: flow_bind [OF flow_leaf(5)] flow_bind [OF flow_closed] flow_leaf
        flow_bind [OF flow_opened] flow_ret_eq)
  then have body: "flow {#(RConn, conn)#} (bind (tcall (sdk client)) (\<lambda>r.
      case r of Inl e \<Rightarrow> bind (ecall (ConnClose K conn)) (\<lambda>_. bind (closed (RConn, conn)) (\<lambda>_. fail e))
        | Inr h \<Rightarrow> bind (opened (RConnector kind, h)) (\<lambda>_. ret (PluginConn h conn)))) (owned kind)"
    for client conn by (intro flow_bind [OF flow_leaf(4)])
  show ?thesis
    unfolding plugin_new_def
    by (rule flow_if, rule flow_leaf) (rule flow_bind [OF flow_Connect], use body in auto)
qed

lemma flow_NewX:
  "flow {#} (NewImporter K p proto ps opts) (owned KImporter)"
  "flow {#} (NewExporter K p proto ps opts) (owned KExporter)"
  "flow {#} (NewStorage K p proto ps) (owned KStore)"
  "flow {#} (NewInventory K p proto ps) (owned KInventory)"
  by (simp_all add: NewImporter_def NewExporter_def NewStorage_def NewInventory_def flow_plugin_new)

lemma flow_connector_close [takes_intros]:
  "flow (owned kind c) (connector_close K kind c) (\<lambda>_. {#})"
proof (cases c)
  case (Direct h)
  show ?thesis unfolding Direct connector_close.simps owned.simps
    by (rule flow_bind [OF flow_leaf(5)], rule flow_bind [OF flow_closed], rule flow_ret_const)
next
  case (PluginConn h conn)
  obtain name where named: "wrapper_close K kind h conn = closePluginConn K name kind h conn"
    using wrapper_close_named by blast
  show ?thesis unfolding PluginConn connector_close.simps owned.simps named closePluginConn_def
    by (rule flow_bind [OF flow_leaf(5)], rule flow_bind [OF flow_closed],
        rule flow_bind [OF flow_leaf(5)], rule flow_bind [OF flow_closed], rule flow_ret_const)
qed

subsection \<open>Properties\<close>

text \<open>
  Property C26 (plugin_connector_lifecycle). Making a connector from a plugin never leaves
  anything behind when it fails: neither the process nor its connection. When it succeeds,
  exactly the connector and its connection are open, and closing it closes both, whatever
  errors the two closes return.
\<close>

theorem plugin_connector_lifecycle:
  "case plugin_new K conntype kind sdk p s of
     (Ret c, s1) \<Rightarrow>
       (\<exists>h conn. c = PluginConn h conn \<and> left_open s s1 {#} {#(RConnector kind, h), (RConn, conn)#})
       \<and> (\<exists>e s2. connector_close K kind c s1 = (Ret e, s2) \<and> left_open s s2 {#} {#})
   | (Err e, s1) \<Rightarrow> left_open s s1 {#} {#}
   | (_, s1) \<Rightarrow> False"
proof -
  obtain r s1 where run: "plugin_new K conntype kind sdk p s = (r, s1)" by fastforce
  show ?thesis
  proof (cases r)
    case (Ret c)
    have "\<exists>h conn. c = PluginConn h conn"
      using run unfolding Ret plugin_new_def Connect_def acquire_def call_def
      by (auto simp: bind_def prog_simps ok_or_fail_def split: if_splits sum.splits prod.splits outcome.splits)
    then obtain h conn where c: "c = PluginConn h conn" by auto
    have open1: "left_open s s1 {#} (owned kind c)"
      using flowD(1) [OF flow_plugin_new run [unfolded Ret]] .
    obtain name where named: "wrapper_close K kind h conn = closePluginConn K name kind h conn"
      using wrapper_close_named by blast
    obtain e s2 where close: "connector_close K kind c s1 = (Ret e, s2)"
      by (simp add: c named closePluginConn_def prog_simps bind_def)
    then have "left_open s1 s2 (owned kind c) {#}"
      using flowD(1) [OF flow_connector_close] by blast
    with open1 have "left_open s s2 {#} {#}" by (rule left_open_trans)
    with run Ret open1 close c show ?thesis by auto
  next
    case (Err e)
    then show ?thesis using run flowD(2) [OF flow_plugin_new run [unfolded Err]] by simp
  qed (use run in \<open>auto simp: plugin_new_def Connect_def acquire_def call_def bind_def prog_simps
        ok_or_fail_def split: if_splits sum.splits prod.splits outcome.splits\<close>)
qed

text \<open>
  Lemma (close_plugin_conn). Closing a plugin connector always closes the connection too,
  after the connector, and fails exactly when one of the two closes fails; the error then
  carries both.
\<close>

theorem close_plugin_conn:
  "closePluginConn K name kind h conn s =
     (let (e1, w1) = CloseFn K kind h (world s);
          (e2, w2) = ConnClose K conn w1
      in (Ret (if e1 = None \<and> e2 = None then None else Some (ConnCloseError name e1 e2)),
          s\<lparr>world := w2, acts := acts s @ [Closed (RConnector kind, h), Closed (RConn, conn)]\<rparr>))"
  by (simp add: closePluginConn_def bind_def prog_simps case_prod_beta Let_def)

text \<open>A plugin of another connector type is refused before a process is spawned.\<close>

lemma plugin_type_checked:
  "(pgType p \<noteq> ConnectorTypeImporter \<longrightarrow>
      NewImporter K p proto ps opts s = (Err (RegistryError ErrPluginTypeMismatch), s))
   \<and> (pgType p \<noteq> ConnectorTypeExporter \<longrightarrow>
      NewExporter K p proto ps opts s = (Err (RegistryError ErrPluginTypeMismatch), s))
   \<and> (pgType p \<noteq> ConnectorTypeStorage \<longrightarrow>
      NewStorage K p proto ps s = (Err (RegistryError ErrPluginTypeMismatch), s))
   \<and> (pgType p \<noteq> ConnectorTypeInventory \<longrightarrow>
      NewInventory K p proto ps s = (Err (RegistryError ErrPluginTypeMismatch), s))"
  by (simp add: NewImporter_def NewExporter_def NewStorage_def NewInventory_def plugin_new_def
      prog_simps)

end
