(* ===== verification/Kloset_Conn.thy ===== *)
theory Kloset_Conn
  imports Plugin_Conn
begin

text \<open>
  Connectors and repositories, \<open>kloset.go\<close>, and the package hooks of \<open>pkgplugin.go\<close>. kloset, the
  compiled-in connectors and the Go runtime are the fields of \<open>kloset_api\<close>. \<open>ctx\<close> is the
  kloset context; of it the code reads only \<open>MaxConcurrency\<close>.
\<close>

subsection \<open>The packages outside the repository\<close>

text \<open>The store configuration has the fields the code uses; the others are one number.\<close>

record Encryption =
  encKDFParams :: nat
  encCanary :: "byte list"

record StoreConfig =
  cfgCompression :: "nat option"
  cfgEncryption :: "Encryption option"
  cfgRest :: nat

record 'w kloset_api = "'w plugin_api" +
  GOOS :: string
  GOARCH :: string
  MaxConcurrency :: i64
  FsImporter :: "Options \<Rightarrow> string \<Rightarrow> smap \<Rightarrow> 'w \<Rightarrow> (gerror + nat) \<times> 'w"
  BuiltinImporter :: "Options \<Rightarrow> smap \<Rightarrow> 'w \<Rightarrow> (gerror + nat) \<times> 'w"
  FsExporter :: "Options \<Rightarrow> string \<Rightarrow> smap \<Rightarrow> 'w \<Rightarrow> (gerror + nat) \<times> 'w"
  BuiltinExporter :: "Options \<Rightarrow> smap \<Rightarrow> 'w \<Rightarrow> (gerror + nat) \<times> 'w"
  FsStore :: "string \<Rightarrow> smap \<Rightarrow> 'w \<Rightarrow> (gerror + nat) \<times> 'w"
  StoreOpen :: "nat \<Rightarrow> 'w \<Rightarrow> (gerror + byte list) \<times> 'w"
  ParseConfig :: "byte list \<Rightarrow> gerror + StoreConfig"
  DeriveKey :: "nat \<Rightarrow> string \<Rightarrow> 'w \<Rightarrow> (gerror + byte list) \<times> 'w"
  VerifyCanary :: "Encryption \<Rightarrow> byte list \<Rightarrow> bool"
  RepositoryNew :: "byte list option \<Rightarrow> connector \<Rightarrow> byte list \<Rightarrow> 'w \<Rightarrow> (gerror + nat) \<times> 'w"
  StorageRegister :: "string \<Rightarrow> nat \<Rightarrow> string \<times> string \<times> string \<Rightarrow> 'w \<Rightarrow> gerror option \<times> 'w"
  StorageUnregister :: "string \<Rightarrow> 'w \<Rightarrow> 'w"
  CloserText :: "conn_kind \<Rightarrow> connector \<Rightarrow> string"

definition nil_dereference :: string where
  "nil_dereference = ''runtime error: invalid memory address or nil pointer dereference''"

subsection \<open>Building connectors\<close>

definition direct :: "conn_kind \<Rightarrow> ('w \<Rightarrow> (gerror + nat) \<times> 'w) \<Rightarrow> ('w, connector) prog" where
  "direct kind f = bind (acquire (RConnector kind) f) (\<lambda>h. ret (Direct h))"

definition importer_options :: "('w, 'z) kloset_api_scheme \<Rightarrow> string list \<Rightarrow> Options" where
  "importer_options K ignores =
     \<lparr>opHostname = ''plaklet'', opOperatingSystem = GOOS K, opArchitecture = GOARCH K,
      opCWD = ''/'', opMaxConcurrency = MaxConcurrency K, opExcludes = ignores\<rparr>"

definition mkimporter :: "('w, 'z) kloset_api_scheme \<Rightarrow> Configuration \<Rightarrow> string list \<Rightarrow> ('w, connector) prog" where
  "mkimporter K conf ignores =
     (let opts = importer_options K ignores in
      if igName (cfIntegration conf) = ''fs'' then direct KImporter (FsImporter K opts ''fs'' (params conf))
      else
        bind (with_registry (\<lambda>reg. pluginFor reg conf ConnectorTypeImporter)) (\<lambda>r.
        case r of
          Inr p \<Rightarrow> NewImporter K p (protocolOf conf) (params conf) opts
        | Inl e \<Rightarrow>
            if e \<noteq> ErrPluginNotExist then fail (RegistryError e)
            else direct KImporter (BuiltinImporter K opts (params conf))))"

definition mkexporter :: "('w, 'z) kloset_api_scheme \<Rightarrow> Configuration \<Rightarrow> ('w, connector) prog" where
  "mkexporter K conf =
     (let opts = Options_zero\<lparr>opMaxConcurrency := MaxConcurrency K\<rparr> in
      if igName (cfIntegration conf) = ''fs'' then direct KExporter (FsExporter K opts ''fs'' (params conf))
      else
        bind (with_registry (\<lambda>reg. pluginFor reg conf ConnectorTypeExporter)) (\<lambda>r.
        case r of
          Inr p \<Rightarrow> NewExporter K p (protocolOf conf) (params conf) opts
        | Inl e \<Rightarrow>
            if e \<noteq> ErrPluginNotExist then fail (RegistryError e)
            else direct KExporter (BuiltinExporter K opts (params conf))))"

text \<open>The part of \<open>mkstorage\<close> that makes the store from the remaining parameters.\<close>

definition make_store :: "('w, 'z) kloset_api_scheme \<Rightarrow> Configuration \<Rightarrow> smap \<Rightarrow> ('w, connector) prog" where
  "make_store K conf ps =
     (if igName (cfIntegration conf) = ''fs'' then direct KStore (FsStore K ''fs'' ps)
      else
        bind (with_registry (\<lambda>reg. pluginFor reg conf ConnectorTypeStorage)) (\<lambda>r.
        case r of
          Inr p \<Rightarrow> NewStorage K p (protocolOf conf) ps
        | Inl e \<Rightarrow> fail (RegistryError e)))"

definition mkstorage :: "('w, 'z) kloset_api_scheme \<Rightarrow> Configuration \<Rightarrow> ('w, connector \<times> string \<times> smap) prog" where
  "mkstorage K conf =
     (let ps = params conf;
          passphrase = smap_get ps ''passphrase'';
          ps = AList.delete ''passphrase'' ps
      in bind (make_store K conf ps) (\<lambda>store.
         ret (store, passphrase, ps)))"

definition mkinventory :: "('w, 'z) kloset_api_scheme \<Rightarrow> Configuration \<Rightarrow> ('w, connector) prog" where
  "mkinventory K conf =
     bind (with_registry (\<lambda>reg. pluginFor reg conf ConnectorTypeInventory)) (\<lambda>r.
     case r of
       Inl e \<Rightarrow> fail (RegistryError e)
     | Inr p \<Rightarrow> NewInventory K p (protocolOf conf) (params conf))"

subsection \<open>Opening a repository\<close>

definition openrepo :: "('w, 'z) kloset_api_scheme \<Rightarrow> connector \<Rightarrow> string \<Rightarrow> ('w, nat) prog" where
  "openrepo K store passphrase =
     bind (call (StoreOpen K (inner store))) (\<lambda>serializedConfig.
     bind (ok_or_fail (ParseConfig K serializedConfig)) (\<lambda>repoConfig.
     bind (if passphrase \<noteq> '''' then
             (case cfgEncryption repoConfig of
                None \<Rightarrow> panic nil_dereference
              | Some enc \<Rightarrow>
                  bind (call (DeriveKey K (encKDFParams enc) passphrase)) (\<lambda>key.
                  if \<not> VerifyCanary K enc key
                  then fail (Errorf ''failed to verify canary; wrong passphrase?'')
                  else ret (Some key)))
           else ret None) (\<lambda>key.
     acquire RRepository (RepositoryNew K key store serializedConfig))))"

subsection \<open>Closing on every path\<close>

definition ensureClose :: "('w, 'z) kloset_api_scheme \<Rightarrow> conn_kind \<Rightarrow> connector \<Rightarrow> ('w, unit) prog" where
  "ensureClose K kind closer =
     bind (connector_close K kind closer) (\<lambda>e.
     case e of
       None \<Rightarrow> ret ()
     | Some e \<Rightarrow> LogWarn (''plaklet: '' @ CloserText K kind closer @ '': close failed: '' @ error_text e))"

subsection \<open>Package hooks\<close>

definition set_registry :: "(Registry \<Rightarrow> Registry) \<Rightarrow> ('w, unit) prog" where
  "set_registry f s = (Ret (), s\<lparr>plugins := f (plugins s)\<rparr>)"

text \<open>
  The constructor \<open>registerStorage\<close> hands to kloset's storage registry: it looks the plugin up
  when it is called, not when it is registered.
\<close>

definition storage_constructor :: "('w, 'z) plugin_api_scheme \<Rightarrow> string \<Rightarrow> string \<Rightarrow> string \<Rightarrow> smap
    \<Rightarrow> ('w, connector) prog" where
  "storage_constructor K name version proto config =
     bind (with_registry (\<lambda>reg. GetPlugin reg name version ConnectorTypeStorage proto)) (\<lambda>r.
     case r of
       Inl e \<Rightarrow> fail (Wrap ''failed to get plugin: '' (RegistryError e))
     | Inr p \<Rightarrow> NewStorage K p proto config)"

definition registerStorage :: "('w, 'z) kloset_api_scheme \<Rightarrow> string \<Rightarrow> string \<Rightarrow> string \<Rightarrow> nat
    \<Rightarrow> ('w, gerror option) prog" where
  "registerStorage K name version proto flags = ecall (StorageRegister K proto flags (name, version, proto))"

text \<open>The two nested loops over the protocols of a manifest's storage connectors.\<close>

definition for_storage :: "Manifest \<Rightarrow> (ManifestConnector \<Rightarrow> string \<Rightarrow> ('w, unit) prog) \<Rightarrow> ('w, unit) prog" where
  "for_storage m act =
     for_each (\<lambda>conn _. for_each (\<lambda>proto _.
         if mcType conn = ConnectorTypeStorage then act conn proto else ret ())
       (mcProtocols conn) ()) (mfConnectors m) ()"

definition pkgLoadHook :: "('w, 'z) kloset_api_scheme \<Rightarrow> Manifest \<Rightarrow> string \<Rightarrow> string \<Rightarrow> ('w, unit) prog" where
  "pkgLoadHook K m version pkgdir =
     bind (set_registry (RegisterPlugins m version pkgdir)) (\<lambda>_.
     for_storage m (\<lambda>conn proto.
       bind (registerStorage K (mfName m) version proto (mcFlags conn)) (\<lambda>_. ret ())))"

definition pkgUnloadHook :: "('w, 'z) kloset_api_scheme \<Rightarrow> Manifest \<Rightarrow> string \<Rightarrow> ('w, unit) prog" where
  "pkgUnloadHook K m version =
     bind (set_registry (\<lambda>reg. fst (UnregisterPlugins m version reg))) (\<lambda>_.
     for_storage m (\<lambda>conn proto. change (StorageUnregister K proto)))"

subsection \<open>Resources\<close>

lemma flow_direct: "flow {#} (direct kind f) (owned kind)"
  unfolding direct_def by (rule flow_bind [OF flow_acquire], rule flow_ret_eq) simp

lemma flow_mkimporter: "flow {#} (mkimporter K conf ignores) (owned KImporter)"
  unfolding mkimporter_def Let_def
  by (intro flow_if flow_direct flow_bind [OF flow_leaf(10)] flow_sum flow_leaf flow_NewX)

lemma flow_mkexporter: "flow {#} (mkexporter K conf) (owned KExporter)"
  unfolding mkexporter_def Let_def
  by (intro flow_if flow_direct flow_bind [OF flow_leaf(10)] flow_sum flow_leaf flow_NewX)

lemma flow_mkinventory: "flow {#} (mkinventory K conf) (owned KInventory)"
  unfolding mkinventory_def
  by (intro flow_if flow_direct flow_bind [OF flow_leaf(10)] flow_sum flow_leaf flow_NewX)

lemma flow_make_store: "flow {#} (make_store K conf ps) (owned KStore)"
  unfolding make_store_def
  by (intro flow_if flow_direct flow_bind [OF flow_leaf(10)] flow_sum flow_leaf flow_NewX)

lemma flow_mkstorage: "flow {#} (mkstorage K conf) (\<lambda>(store, _). owned KStore store)"
  unfolding mkstorage_def Let_def by (rule flow_bind [OF flow_make_store]) (rule flow_ret_eq, simp)

lemma mkimporter_then [takes_intros]:
  "(\<And>c. flow (owned KImporter c) (f c) Q) \<Longrightarrow> flow {#} (bind (mkimporter K conf ignores) f) Q"
  by (rule flow_bind [OF flow_mkimporter])

lemma mkexporter_then [takes_intros]:
  "(\<And>c. flow (owned KExporter c) (f c) Q) \<Longrightarrow> flow {#} (bind (mkexporter K conf) f) Q"
  by (rule flow_bind [OF flow_mkexporter])

lemma mkinventory_then [takes_intros]:
  "(\<And>c. flow (owned KInventory c) (f c) Q) \<Longrightarrow> flow {#} (bind (mkinventory K conf) f) Q"
  by (rule flow_bind [OF flow_mkinventory])

lemma mkstorage_then [takes_intros]:
  "(\<And>c pass ps. flow (owned KStore c) (f (c, pass, ps)) Q) \<Longrightarrow> flow {#} (bind (mkstorage K conf) f) Q"
  by (rule flow_bind [OF flow_mkstorage]) auto

lemma flow_ensureClose [takes_intros]:
  "flow (owned kind c) (ensureClose K kind c) (\<lambda>_. {#})"
  unfolding ensureClose_def
  by (rule flow_bind [OF flow_connector_close]) (intro flow_option flow_ret_const flow_leaf)

lemma neutral_openrepo [keeps_intros]: "neutral (openrepo K store passphrase)"
  unfolding openrepo_def by (intro neutral_bind keeps_intros)

subsection \<open>Properties\<close>


text \<open>
  Property C16 (storage_hides_passphrase). The passphrase of a store never reaches the code that
  makes the store: two configurations that differ only in it have the same effects on the
  world, the registry, the reply stream and the open resources, and get the same store and the
  same parameters, which hold no passphrase.
\<close>

theorem storage_hides_passphrase:
  assumes "cfIntegration c = cfIntegration c'" and "protocolOf c = protocolOf c'"
    and "AList.delete ''passphrase'' (params c) = AList.delete ''passphrase'' (params c')"
  shows "snd (mkstorage K c s) = snd (mkstorage K c' s)
     \<and> map_outcome (\<lambda>(store, _, ps). (store, ps)) (fst (mkstorage K c s))
         = map_outcome (\<lambda>(store, _, ps). (store, ps)) (fst (mkstorage K c' s))
     \<and> (case fst (mkstorage K c s) of
           Ret (store, pass, ps) \<Rightarrow> map_of ps ''passphrase'' = None \<and> pass = smap_get (params c) ''passphrase''
         | _ \<Rightarrow> True)"
proof -
  have erase: "snd (bind m (\<lambda>x. ret (x, a, ps)) s) = snd (bind m (\<lambda>x. ret (x, b, ps)) s)
      \<and> map_outcome (\<lambda>(x, _, ps). (x, ps)) (fst (bind m (\<lambda>x. ret (x, a, ps)) s))
          = map_outcome (\<lambda>(x, _, ps). (x, ps)) (fst (bind m (\<lambda>x. ret (x, b, ps)) s))
      \<and> (case fst (bind m (\<lambda>x. ret (x, a, ps)) s) of Ret (x, pass, ps') \<Rightarrow> ps' = ps \<and> pass = a | _ \<Rightarrow> True)"
    for m :: "('a, connector) prog" and a b :: string and ps :: smap and s
    by (auto simp: bind_def ret_def split: prod.splits outcome.splits)
  have "make_store K c = make_store K c'"
    using assms(1,2) by (simp add: make_store_def fun_eq_iff pluginFor_def)
  then show ?thesis
    unfolding mkstorage_def Let_def assms(3)
    using erase [where a = "smap_get (params c) ''passphrase''" and b = "smap_get (params c') ''passphrase''"
        and ps = "AList.delete ''passphrase'' (params c')" and s = s
        and m = "make_store K c' (AList.delete ''passphrase'' (params c'))"]
    by (auto split: outcome.splits)
qed

definition example_store :: "string \<Rightarrow> Configuration" where
  "example_store pass = Configuration [] 0 ''store'' \<lparr>igId = [], igName = ''s3'', igVersion = ''1''\<rparr> ''''
     [ConfigurationField ''location'' None ''s3://b'', ConfigurationField ''passphrase'' None pass]
     '''' [] '''' []"

theorem storage_hides_passphrase_witness:
  "\<forall>K s. snd (mkstorage K (example_store ''one'') s) = snd (mkstorage K (example_store ''two'') s)"
proof (intro allI)
  fix K :: "('w, 'z) kloset_api_scheme" and s
  show "snd (mkstorage K (example_store ''one'') s) = snd (mkstorage K (example_store ''two'') s)"
    by (rule storage_hides_passphrase [THEN conjunct1])
      (simp_all add: example_store_def protocolOf_def params_def cut.simps)
qed

text \<open>
  Property C27 (openrepo_key). Opening a repository with a passphrase gives a repository only if
  the key derived from it opens the canary of the store's configuration, and the repository is
  opened with that key. A failure opens nothing. The one way to crash is a passphrase for a
  store that is not encrypted: the code then dereferences a nil pointer.
\<close>

theorem openrepo_key:
  "case openrepo K store pass s of
     (Ret repo, s') \<Rightarrow>
       pass = '''' \<or>
       (\<exists>bytes w cfg enc key w'. StoreOpen K (inner store) (world s) = (Inr bytes, w)
          \<and> ParseConfig K bytes = Inr cfg \<and> cfgEncryption cfg = Some enc
          \<and> DeriveKey K (encKDFParams enc) pass w = (Inr key, w') \<and> VerifyCanary K enc key
          \<and> fst (RepositoryNew K (Some key) store bytes w') = Inr repo)
   | (Err _, s') \<Rightarrow> acts s' = acts s
   | (Panic _, s') \<Rightarrow>
       pass \<noteq> '''' \<and> acts s' = acts s
       \<and> (\<exists>bytes w cfg. StoreOpen K (inner store) (world s) = (Inr bytes, w)
            \<and> ParseConfig K bytes = Inr cfg \<and> cfgEncryption cfg = None)
   | (Hang, _) \<Rightarrow> False"
  by (auto simp: openrepo_def call_def acquire_def ok_or_fail_def prog_simps bind_def prod_eq_iff
      split: option.splits sum.splits prod.splits outcome.splits if_splits)

lemma for_each_plugins:
  assumes "\<And>x acc s. \<exists>a s'. body x acc s = (Ret a, s') \<and> plugins s' = plugins s"
  shows "\<exists>a s'. for_each body xs acc s = (Ret a, s') \<and> plugins s' = plugins s"
proof (induction xs arbitrary: acc s)
  case Nil
  then show ?case by (simp add: prog_simps)
next
  case (Cons x xs)
  obtain a s1 where step: "body x acc s = (Ret a, s1)" "plugins s1 = plugins s"
    using assms [of x acc s] by blast
  then show ?case using Cons.IH [of a s1] by (auto simp: prog_simps)
qed

lemma for_storage_plugins:
  assumes "\<And>conn proto s. \<exists>s'. act conn proto s = (Ret (), s') \<and> plugins s' = plugins s"
  shows "\<exists>s'. for_storage m act s = (Ret (), s') \<and> plugins s' = plugins s"
proof -
  have one: "\<exists>a s'. (if b then act conn proto else ret ()) s = (Ret a, s') \<and> plugins s' = plugins s"
    for b conn proto s
    using assms [of conn proto s] by (auto simp: prog_simps)
  have "\<exists>a s'. for_storage m act s = (Ret a, s') \<and> plugins s' = plugins s"
    unfolding for_storage_def by (intro for_each_plugins one)
  then show ?thesis by simp
qed

lemma load_hook_run: "\<exists>s'. pkgLoadHook K m version pkgdir s = (Ret (), s')
     \<and> plugins s' = RegisterPlugins m version pkgdir (plugins s)"
proof -
  let ?s = "s\<lparr>plugins := RegisterPlugins m version pkgdir (plugins s)\<rparr>"
  have "\<exists>s'. for_storage m (\<lambda>conn proto.
      bind (registerStorage K (mfName m) version proto (mcFlags conn)) (\<lambda>_. ret ())) ?s = (Ret (), s')
      \<and> plugins s' = plugins ?s"
    by (rule for_storage_plugins) (simp add: registerStorage_def prog_simps bind_def)
  then show ?thesis by (simp add: pkgLoadHook_def set_registry_def bind_def)
qed

lemma unload_hook_run: "\<exists>s'. pkgUnloadHook K m version s = (Ret (), s')
     \<and> plugins s' = fst (UnregisterPlugins m version (plugins s))"
proof -
  let ?s = "s\<lparr>plugins := fst (UnregisterPlugins m version (plugins s))\<rparr>"
  have "\<exists>s'. for_storage m (\<lambda>conn proto. change (StorageUnregister K proto)) ?s = (Ret (), s')
      \<and> plugins s' = plugins ?s"
    by (rule for_storage_plugins) (simp add: prog_simps)
  then show ?thesis by (simp add: pkgUnloadHook_def set_registry_def bind_def)
qed

lemma manifest_keys_member:
  assumes "conn \<in> set (mfConnectors m)" and "proto \<in> set (mcProtocols conn)"
  shows "makePluginKey (mfName m) version (mcType conn) proto \<in> set (manifest_keys m version)"
  using assms by (auto simp: manifest_keys_def)

text \<open>
  Property C23 (storage_hooks). The storage constructor that loading a package hands to kloset works
  on the registry as it is when the constructor runs: after the package is loaded it starts the
  plugin registered for the protocol, and once the package is unloaded it fails, without a
  side effect.
\<close>

theorem storage_hooks:
  assumes "conn \<in> set (mfConnectors m)" and "proto \<in> set (mcProtocols conn)"
    and "mcType conn = ConnectorTypeStorage"
  shows "(\<exists>s1 p. pkgLoadHook K m version pkgdir s = (Ret (), s1)
            \<and> plugins s1 (makePluginKey (mfName m) version ConnectorTypeStorage proto) = Some p
            \<and> storage_constructor K (mfName m) version proto config s1 = NewStorage K p proto config s1)
     \<and> (\<exists>s2. pkgUnloadHook K m version s = (Ret (), s2)
            \<and> storage_constructor K (mfName m) version proto config s2
                = (Err (Wrap ''failed to get plugin: '' (RegistryError ErrPluginNotExist)), s2))"
proof
  let ?key = "makePluginKey (mfName m) version ConnectorTypeStorage proto"
  have key: "?key \<in> set (manifest_keys m version)"
    using manifest_keys_member [OF assms(1,2), of version] assms(3) by simp
  obtain s1 where s1: "pkgLoadHook K m version pkgdir s = (Ret (), s1)"
    "plugins s1 = RegisterPlugins m version pkgdir (plugins s)" using load_hook_run by blast
  have "?key \<in> fst ` set (manifest_entries m version pkgdir)"
    using key by (simp flip: manifest_entries_keys [of m version pkgdir])
  then have "map_of (manifest_entries m version pkgdir) ?key \<noteq> None"
    by (simp add: map_of_eq_None_iff)
  then have "plugins s1 ?key \<noteq> None"
    by (simp add: s1(2) RegisterPlugins_entries map_add_None)
  then obtain p where "plugins s1 ?key = Some p" by blast
  with s1 show "\<exists>s1 p. pkgLoadHook K m version pkgdir s = (Ret (), s1) \<and> plugins s1 ?key = Some p
      \<and> storage_constructor K (mfName m) version proto config s1 = NewStorage K p proto config s1"
    by (auto simp: storage_constructor_def bind_def prog_simps GetPlugin_def)
  obtain s2 where s2: "pkgUnloadHook K m version s = (Ret (), s2)"
    "plugins s2 = fst (UnregisterPlugins m version (plugins s))" using unload_hook_run by blast
  then have "plugins s2 ?key = None"
    using key by (simp add: UnregisterPlugins_keys forget_all)
  with s2 show "\<exists>s2. pkgUnloadHook K m version s = (Ret (), s2)
      \<and> storage_constructor K (mfName m) version proto config s2
          = (Err (Wrap ''failed to get plugin: '' (RegistryError ErrPluginNotExist)), s2)"
    by (auto simp: storage_constructor_def bind_def prog_simps GetPlugin_def)
qed

theorem storage_hooks_witness:
  "\<forall>K s. \<exists>s2. pkgUnloadHook K example_manifest ''1.0.0'' s = (Ret (), s2)
     \<and> storage_constructor K ''s3'' ''1.0.0'' ''s3+http'' [] s2
         = (Err (Wrap ''failed to get plugin: '' (RegistryError ErrPluginNotExist)), s2)"
proof (intro allI)
  fix K :: "('w, 'z) kloset_api_scheme" and s
  show "\<exists>s2. pkgUnloadHook K example_manifest ''1.0.0'' s = (Ret (), s2)
     \<and> storage_constructor K ''s3'' ''1.0.0'' ''s3+http'' [] s2
         = (Err (Wrap ''failed to get plugin: '' (RegistryError ErrPluginNotExist)), s2)"
    using storage_hooks [THEN conjunct2, of "hd (mfConnectors example_manifest)" example_manifest
        "''s3+http''" K "''1.0.0''" s "[]"]
    by (simp add: example_manifest_def)
qed

end
