(* ===== verification/Task_Config.thy ===== *)
theory Task_Config
  imports Prelude
begin

text \<open>
  \<open>indexedList\<close> of \<open>plaklet.go\<close>: the control plane flattens a list of strings into the keys
  \<open>key.0\<close>, \<open>key.1\<close>, \<dots>; the reader stops at the first missing index. The Go loop has no
  bound of its own; it ends because a map is finite, which is the termination proof below.
\<close>

definition index_key :: "string \<Rightarrow> nat \<Rightarrow> string" where
  "index_key key i = key @ ''.'' @ dec_nat i"

lemma index_key_inject [simp]: "index_key key i = index_key key j \<longleftrightarrow> i = j"
  by (simp add: index_key_def)

lemma finite_indices: "finite {j. i \<le> j \<and> index_key key j \<in> dom (map_of cfg)}"
proof -
  have "inj (index_key key)" by (simp add: inj_def)
  then have "finite (index_key key -` dom (map_of cfg))"
    by (intro finite_vimageI finite_dom_map_of)
  then show ?thesis by (rule rev_finite_subset) auto
qed

function indexed_from :: "smap \<Rightarrow> string \<Rightarrow> nat \<Rightarrow> string list" where
  "indexed_from cfg key i =
     (case map_of cfg (index_key key i) of
        None \<Rightarrow> []
      | Some v \<Rightarrow> v # indexed_from cfg key (i + 1))"
  by pat_completeness auto
termination
proof (relation "measure (\<lambda>(cfg, key, i). card {j. i \<le> j \<and> index_key key j \<in> dom (map_of cfg)})")
  fix cfg :: smap and key :: string and i :: nat and v :: string
  assume "map_of cfg (index_key key i) = Some v"
  then have "{j. i + 1 \<le> j \<and> index_key key j \<in> dom (map_of cfg)}
      \<subset> {j. i \<le> j \<and> index_key key j \<in> dom (map_of cfg)}" by (auto simp: Suc_le_eq)
  then have "card {j. i + 1 \<le> j \<and> index_key key j \<in> dom (map_of cfg)}
      < card {j. i \<le> j \<and> index_key key j \<in> dom (map_of cfg)}"
    by (rule psubset_card_mono [OF finite_indices])
  then show "((cfg, key, i + 1), cfg, key, i)
      \<in> measure (\<lambda>(cfg, key, i). card {j. i \<le> j \<and> index_key key j \<in> dom (map_of cfg)})" by simp
qed simp

declare indexed_from.simps [simp del]

definition indexedList :: "smap \<Rightarrow> string \<Rightarrow> string list" where
  "indexedList cfg key = indexed_from cfg key 0"

lemma indexed_from_spec:
  "map (\<lambda>j. map_of cfg (index_key key j)) [i..<i + length (indexed_from cfg key i)]
     = map Some (indexed_from cfg key i)
   \<and> map_of cfg (index_key key (i + length (indexed_from cfg key i))) = None"
proof (induction cfg key i rule: indexed_from.induct)
  case (1 cfg key i)
  show ?case
  proof (cases "map_of cfg (index_key key i)")
    case None
    then show ?thesis by (simp add: indexed_from.simps [of cfg key i])
  next
    case (Some v)
    let ?n = "length (indexed_from cfg key (i + 1))"
    have "[i..<i + Suc ?n] = i # [i + 1..<i + 1 + ?n]" by (simp add: upt_conv_Cons del: upt_Suc)
    with Some 1 [OF Some] show ?thesis
      by (simp add: indexed_from.simps [of cfg key i] del: upt_Suc)
  qed
qed

text \<open>The result is the only list that fills the indices from \<open>i\<close> up to the first hole.\<close>

lemma indexed_from_unique:
  assumes "map (\<lambda>j. map_of cfg (index_key key j)) [i..<i + length vs] = map Some vs"
    and "map_of cfg (index_key key (i + length vs)) = None"
  shows "indexed_from cfg key i = vs"
  using assms
proof (induction vs arbitrary: i)
  case Nil
  then show ?case by (simp add: indexed_from.simps [of cfg key i])
next
  case (Cons v vs)
  have "[i..<i + Suc (length vs)] = i # [Suc i..<Suc i + length vs]"
    by (simp add: upt_conv_Cons del: upt_Suc)
  with Cons show ?case
    by (simp add: indexed_from.simps [of cfg key i] del: upt_Suc)
qed

subsection \<open>Keys of different lists never meet\<close>

lemma dot_not_digit: "CHR ''.'' \<notin> set (dec_nat n)"
  using dec_nat_digits [of n] by (auto simp: list_all_iff is_digit_def)

lemma index_key_eq_iff: "index_key k i = index_key k' j \<longleftrightarrow> k = k' \<and> i = j"
  using append_sep_eq_last [OF dot_not_digit dot_not_digit, of k i k' j] by (simp add: index_key_def)

lemma index_key_dot: "CHR ''.'' \<in> set (index_key k i)"
  by (simp add: index_key_def)

subsection \<open>Properties\<close>

text \<open>
  Lemma (indexed_list_prefix). For every configuration the reader returns, and returns
  exactly the values at the indices below the first one missing, in order.
\<close>

theorem indexed_list_prefix:
  "let vs = indexedList cfg key
   in map (\<lambda>j. map_of cfg (index_key key j)) [0..<length vs] = map Some vs
      \<and> map_of cfg (index_key key (length vs)) = None"
  using indexed_from_spec [of cfg key 0] by (simp add: indexedList_def Let_def)

text \<open>The flattened form of a list, as the control plane writes it.\<close>

definition flatten_list :: "string \<Rightarrow> string list \<Rightarrow> smap" where
  "flatten_list key vs = map (\<lambda>(i, v). (index_key key i, v)) (enumerate 0 vs)"

lemma map_of_flatten:
  "map_of (map (\<lambda>(i, v). (index_key key i, v)) (enumerate n vs)) (index_key key j)
     = (if n \<le> j \<and> j < n + length vs then Some (vs ! (j - n)) else None)"
proof (induction vs arbitrary: n)
  case (Cons v vs)
  show ?case
  proof (cases "j = n")
    case False
    then have "n \<le> j \<and> j < n + length (v # vs) \<longleftrightarrow> Suc n \<le> j \<and> j < Suc n + length vs" by auto
    moreover have "vs ! (j - Suc n) = (v # vs) ! (j - n)" if "Suc n \<le> j"
      using that by (simp add: Suc_diff_le nth_Cons')
    ultimately show ?thesis using False Cons.IH [of "Suc n"] by simp
  qed simp
qed simp

lemma indexedList_eqI:
  assumes "\<And>j. map_of cfg (index_key key j) = (if j < length vs then Some (vs ! j) else None)"
  shows "indexedList cfg key = vs"
proof -
  have "map (\<lambda>j. map_of cfg (index_key key j)) [0..<0 + length vs] = map Some vs"
    using assms by (auto intro: nth_equalityI)
  moreover have "map_of cfg (index_key key (0 + length vs)) = None" using assms by simp
  ultimately show ?thesis unfolding indexedList_def by (rule indexed_from_unique)
qed

text \<open>
  Property C30 (indexed_list_roundtrip). A list the control plane flattened under a key is read
  back unchanged, whatever else the configuration holds, as long as no other entry continues
  the list at its end.
\<close>

theorem indexed_list_roundtrip:
  assumes "map_of rest (index_key key (length vs)) = None"
  shows "indexedList (flatten_list key vs @ rest) key = vs"
proof -
  have "map_of (flatten_list key vs) (index_key key j) = (if j < length vs then Some (vs ! j) else None)"
    for j using map_of_flatten [of key 0 vs j] by (simp add: flatten_list_def)
  then have look: "map_of (flatten_list key vs @ rest) (index_key key j)
      = (if j < length vs then Some (vs ! j) else map_of rest (index_key key j))" for j
    by (simp add: map_add_def)
  have "map (\<lambda>j. map_of (flatten_list key vs @ rest) (index_key key j)) [0..<0 + length vs] = map Some vs"
    by (rule nth_equalityI) (simp_all add: look del: map_of_append)
  moreover have "map_of (flatten_list key vs @ rest) (index_key key (0 + length vs)) = None"
    using assms look [of "length vs"] by simp
  ultimately show ?thesis unfolding indexedList_def by (rule indexed_from_unique)
qed

theorem indexed_list_roundtrip_witness:
  "indexedList (flatten_list ''labels'' [''a'', ''b''] @ [(''labels.3'', ''x'')]) ''labels'' = [''a'', ''b'']"
  by (rule indexed_list_roundtrip) code_simp

subsection \<open>Several lists in one configuration\<close>

definition flatten_all :: "(string \<times> string list) list \<Rightarrow> smap" where
  "flatten_all kvs = concat (map (\<lambda>(k, vs). flatten_list k vs) kvs)"

lemma map_of_flatten_list:
  "map_of (flatten_list k vs) (index_key k' j) =
     (if k' = k \<and> j < length vs then Some (vs ! j) else None)"
proof (cases "k' = k")
  case True
  then show ?thesis using map_of_flatten [of k 0 vs j] by (simp add: flatten_list_def)
next
  case False
  have "map_of (map (\<lambda>(i, v). (index_key k i, v)) (enumerate n vs)) (index_key k' j) = None" for n
    using False by (induction vs arbitrary: n) (auto simp: index_key_eq_iff)
  with False show ?thesis by (simp add: flatten_list_def)
qed

lemma map_of_flatten_all:
  "distinct (map fst kvs) \<Longrightarrow>
   map_of (flatten_all kvs) (index_key k j) =
     (case map_of kvs k of None \<Rightarrow> None | Some vs \<Rightarrow> if j < length vs then Some (vs ! j) else None)"
proof (induction kvs)
  case Nil
  then show ?case by (simp add: flatten_all_def)
next
  case (Cons kv kvs)
  obtain k' vs where kv: "kv = (k', vs)" by (cases kv)
  have "map_of kvs k' = None" using Cons.prems kv by (simp add: map_of_eq_None_iff)
  with Cons kv show ?case
    by (auto simp: flatten_all_def map_of_flatten_list map_add_def split: option.splits)
qed

lemma indexedList_flatten_all:
  assumes "distinct (map fst kvs)"
  shows "indexedList (flatten_all kvs) k = (case map_of kvs k of None \<Rightarrow> [] | Some vs \<Rightarrow> vs)"
  by (rule indexedList_eqI) (simp add: map_of_flatten_all [OF assms] split: option.splits)

lemma map_of_flatten_plain:
  assumes "CHR ''.'' \<notin> set k"
  shows "map_of (flatten_all kvs) k = None"
proof -
  have "k' \<noteq> k" if "k' \<in> fst ` set (flatten_all kvs)" for k'
    using that assms index_key_dot by (auto simp: flatten_all_def flatten_list_def)
  then show ?thesis by (auto simp: map_of_eq_None_iff)
qed

end
