(* ===== verification/Locate.thy ===== *)
theory Locate
  imports Task_Config Go_Conv
begin

text \<open>
  \<open>locateOptions\<close> (\<open>locate.go\<close>): the snapshot selection a flat task configuration asks for, and
  the default grouping of \<open>prune.go\<close>. The option types are kloset's; the record below has the
  fields the code sets. What \<open>locate.NewDefaultLocateOptions\<close> returns, the clock and
  \<open>HasPeriods\<close> are arguments.
\<close>

record LocatePeriod =
  lpKeep :: i64
  lpCap :: i64

record LocateFilters =
  lfBefore :: gotime
  lfSince :: gotime
  lfName :: string
  lfCategory :: string
  lfEnvironment :: string
  lfPerimeter :: string
  lfJob :: string
  lfDataset :: string
  lfTags :: "string list"
  lfIgnoreTags :: "string list"
  lfLatest :: bool
  lfIDs :: "string list"
  lfTypes :: "string list"
  lfOrigins :: "string list"
  lfRoots :: "string list"
  lfDataClasses :: "string list"

record LocatePeriods =
  pdMinute :: LocatePeriod
  pdHour :: LocatePeriod
  pdDay :: LocatePeriod
  pdWeek :: LocatePeriod
  pdMonth :: LocatePeriod
  pdYear :: LocatePeriod
  pdMonday :: LocatePeriod
  pdTuesday :: LocatePeriod
  pdWednesday :: LocatePeriod
  pdThursday :: LocatePeriod
  pdFriday :: LocatePeriod
  pdSaturday :: LocatePeriod
  pdSunday :: LocatePeriod

record LocateOptions =
  loFilters :: LocateFilters
  loGroupBy :: string
  loPeriods :: LocatePeriods

text \<open>The closures \<open>str\<close>, \<open>boolean\<close>, \<open>when\<close> and \<open>period\<close>: a missing or malformed value leaves the old one.\<close>

definition cfg_str :: "smap \<Rightarrow> string \<Rightarrow> string \<Rightarrow> string" where
  "cfg_str cfg key dst = (case map_of cfg key of None \<Rightarrow> dst | Some v \<Rightarrow> v)"

definition cfg_parsed :: "(string \<Rightarrow> 'a option) \<Rightarrow> smap \<Rightarrow> string \<Rightarrow> 'a \<Rightarrow> 'a" where
  "cfg_parsed parse cfg key dst =
     (case map_of cfg key of
        None \<Rightarrow> dst
      | Some v \<Rightarrow> (case parse v of None \<Rightarrow> dst | Some x \<Rightarrow> x))"

definition cfg_period :: "smap \<Rightarrow> string \<Rightarrow> LocatePeriod \<Rightarrow> LocatePeriod" where
  "cfg_period cfg name dst =
     (let dst = dst\<lparr>lpKeep := cfg_parsed Atoi cfg (''locate.period.'' @ name @ ''.keep'') (lpKeep dst)\<rparr>
      in dst\<lparr>lpCap := cfg_parsed Atoi cfg (''locate.period.'' @ name @ ''.cap'') (lpCap dst)\<rparr>)"

text \<open>\<open>now.Add(-time.Duration(secs) * time.Second)\<close>, in 64-bit arithmetic.\<close>

definition window :: "gotime \<Rightarrow> u64 \<Rightarrow> gotime" where
  "window now secs = time_Add now (- secs * 1000000000)"

definition cfg_filters :: "smap \<Rightarrow> LocateFilters \<Rightarrow> LocateFilters" where
  "cfg_filters cfg f =
     f\<lparr>lfBefore := cfg_parsed ParseRFC3339 cfg ''locate.filter.before'' (lfBefore f),
       lfSince := cfg_parsed ParseRFC3339 cfg ''locate.filter.since'' (lfSince f),
       lfName := cfg_str cfg ''locate.filter.name'' (lfName f),
       lfCategory := cfg_str cfg ''locate.filter.category'' (lfCategory f),
       lfEnvironment := cfg_str cfg ''locate.filter.environment'' (lfEnvironment f),
       lfPerimeter := cfg_str cfg ''locate.filter.perimeter'' (lfPerimeter f),
       lfJob := cfg_str cfg ''locate.filter.job'' (lfJob f),
       lfDataset := cfg_str cfg ''locate.filter.dataset'' (lfDataset f),
       lfTags := indexedList cfg ''locate.filter.tags'',
       lfIgnoreTags := indexedList cfg ''locate.filter.ignore_tags'',
       lfLatest := cfg_parsed ParseBool cfg ''locate.filter.latest'' (lfLatest f),
       lfIDs := indexedList cfg ''locate.filter.ids'',
       lfTypes := indexedList cfg ''locate.filter.types'',
       lfOrigins := indexedList cfg ''locate.filter.origins'',
       lfRoots := indexedList cfg ''locate.filter.roots'',
       lfDataClasses := indexedList cfg ''locate.filter.data_classes''\<rparr>"

definition cfg_periods :: "smap \<Rightarrow> LocatePeriods \<Rightarrow> LocatePeriods" where
  "cfg_periods cfg p =
     \<lparr>pdMinute = cfg_period cfg ''minute'' (pdMinute p),
      pdHour = cfg_period cfg ''hour'' (pdHour p),
      pdDay = cfg_period cfg ''day'' (pdDay p),
      pdWeek = cfg_period cfg ''week'' (pdWeek p),
      pdMonth = cfg_period cfg ''month'' (pdMonth p),
      pdYear = cfg_period cfg ''year'' (pdYear p),
      pdMonday = cfg_period cfg ''monday'' (pdMonday p),
      pdTuesday = cfg_period cfg ''tuesday'' (pdTuesday p),
      pdWednesday = cfg_period cfg ''wednesday'' (pdWednesday p),
      pdThursday = cfg_period cfg ''thursday'' (pdThursday p),
      pdFriday = cfg_period cfg ''friday'' (pdFriday p),
      pdSaturday = cfg_period cfg ''saturday'' (pdSaturday p),
      pdSunday = cfg_period cfg ''sunday'' (pdSunday p)\<rparr>"

text \<open>The folds of the top-level keys, after the \<open>locate.filter\<close> namespace.\<close>

definition cfg_folds :: "gotime \<Rightarrow> smap \<Rightarrow> LocateFilters \<Rightarrow> LocateFilters" where
  "cfg_folds now cfg f =
     (let labels = indexedList cfg ''labels'';
          f = (if labels \<noteq> [] then f\<lparr>lfTags := labels\<rparr> else f);
          f = f\<lparr>lfLatest := cfg_parsed ParseBool cfg ''latest'' (lfLatest f)\<rparr>;
          sid = smap_get cfg ''snapshot_id'';
          f = (if sid \<noteq> [] then f\<lparr>lfIDs := [sid]\<rparr> else f);
          f = f\<lparr>lfBefore := cfg_parsed (\<lambda>v. map_option (window now) (ParseUint v)) cfg ''before''
                             (lfBefore f)\<rparr>
      in f\<lparr>lfSince := cfg_parsed (\<lambda>v. map_option (window now) (ParseUint v)) cfg ''after''
                        (lfSince f)\<rparr>)"

definition locateOptions :: "LocateOptions \<Rightarrow> gotime \<Rightarrow> smap \<Rightarrow> LocateOptions" where
  "locateOptions dflt now cfg =
     (let lo = dflt\<lparr>loFilters := cfg_filters cfg (loFilters dflt)\<rparr>;
          lo = lo\<lparr>loGroupBy := cfg_str cfg ''locate.group_by'' (loGroupBy lo)\<rparr>;
          lo = lo\<lparr>loPeriods := cfg_periods cfg (loPeriods lo)\<rparr>
      in lo\<lparr>loFilters := cfg_folds now cfg (loFilters lo)\<rparr>)"

text \<open>
  \<open>defaultPruneGroupByDataset\<close> (\<open>prune.go\<close>); kloset's constants and \<open>HasPeriods\<close> are arguments.
\<close>

definition defaultPruneGroupByDataset ::
  "string \<Rightarrow> string \<Rightarrow> (LocateOptions \<Rightarrow> bool) \<Rightarrow> LocateOptions \<Rightarrow> LocateOptions" where
  "defaultPruneGroupByDataset GroupByNone GroupByDataset HasPeriods lo =
     (if loGroupBy lo = GroupByNone \<and> HasPeriods lo then lo\<lparr>loGroupBy := GroupByDataset\<rparr> else lo)"

subsection \<open>Properties\<close>

text \<open>The valid value a key holds, and the first of two candidates.\<close>

definition valid_at :: "(string \<Rightarrow> 'a option) \<Rightarrow> smap \<Rightarrow> string \<Rightarrow> 'a option" where
  "valid_at parse cfg key = Option.bind (map_of cfg key) parse"

definition or_else :: "'a option \<Rightarrow> 'a \<Rightarrow> 'a" where
  "or_else a b = (case a of None \<Rightarrow> b | Some x \<Rightarrow> x)"

lemma cfg_parsed_valid: "cfg_parsed parse cfg key dst = or_else (valid_at parse cfg key) dst"
  by (simp add: cfg_parsed_def valid_at_def or_else_def split: option.splits)

lemma valid_at_map: "valid_at (\<lambda>v. map_option g (parse v)) cfg key = map_option g (valid_at parse cfg key)"
  by (cases "map_of cfg key") (simp_all add: valid_at_def)

text \<open>
  Property C32 (locate_folds). The order of precedence of the selection: \<open>labels\<close> over
  \<open>locate.filter.tags\<close>, a valid \<open>latest\<close> over a valid \<open>locate.filter.latest\<close> over the default,
  \<open>snapshot_id\<close> over \<open>locate.filter.ids\<close>, a valid \<open>before\<close> or \<open>after\<close> window over a valid
  absolute time over the default. A malformed value never hides a valid one of lower rank.
\<close>

theorem locate_folds:
  "let f = loFilters (locateOptions dflt now cfg); d = loFilters dflt;
       win = (\<lambda>key. map_option (window now) (valid_at ParseUint cfg key))
   in lfTags f = (if indexedList cfg ''labels'' = [] then indexedList cfg ''locate.filter.tags''
                  else indexedList cfg ''labels'')
      \<and> lfIDs f = (if smap_get cfg ''snapshot_id'' = [] then indexedList cfg ''locate.filter.ids''
                   else [smap_get cfg ''snapshot_id''])
      \<and> lfLatest f = or_else (valid_at ParseBool cfg ''latest'')
                       (or_else (valid_at ParseBool cfg ''locate.filter.latest'') (lfLatest d))
      \<and> lfBefore f = or_else (win ''before'')
                       (or_else (valid_at ParseRFC3339 cfg ''locate.filter.before'') (lfBefore d))
      \<and> lfSince f = or_else (win ''after'')
                      (or_else (valid_at ParseRFC3339 cfg ''locate.filter.since'') (lfSince d))"
  by (simp add: locateOptions_def cfg_filters_def cfg_folds_def cfg_parsed_valid valid_at_map Let_def)

text \<open>The list filters of a selection in the flattened form of the control plane.\<close>

definition flatten_filters :: "LocateFilters \<Rightarrow> smap" where
  "flatten_filters f = flatten_all
     [(''locate.filter.tags'', lfTags f), (''locate.filter.ignore_tags'', lfIgnoreTags f),
      (''locate.filter.ids'', lfIDs f), (''locate.filter.types'', lfTypes f),
      (''locate.filter.origins'', lfOrigins f), (''locate.filter.roots'', lfRoots f),
      (''locate.filter.data_classes'', lfDataClasses f)]"

text \<open>
  Property C31 (locate_lists_roundtrip). The seven list filters survive the trip through their
  flattened form, whatever strings they hold: no list leaks into another.
\<close>

theorem locate_lists_roundtrip:
  "let g = loFilters (locateOptions dflt now (flatten_filters f))
   in lfTags g = lfTags f \<and> lfIgnoreTags g = lfIgnoreTags f \<and> lfIDs g = lfIDs f
      \<and> lfTypes g = lfTypes f \<and> lfOrigins g = lfOrigins f \<and> lfRoots g = lfRoots f
      \<and> lfDataClasses g = lfDataClasses f"
  by (simp add: locateOptions_def cfg_filters_def cfg_folds_def Let_def flatten_filters_def
      indexedList_flatten_all smap_get_def map_of_flatten_plain)

lemma window_int: "window now secs = now + sint (word_of_int (- (int (unat secs) * 1000000000)) :: i64)"
proof -
  have "- secs * 1000000000 = (word_of_int (- (int (unat secs) * 1000000000)) :: i64)"
    by simp
  then show ?thesis by (simp only: window_def time_Add_def)
qed

lemma signed_63: "signed_take_bit 63 (- int n * 1000000000) = - int n * 1000000000 \<longleftrightarrow> n \<le> 9223372036"
proof -
  have "signed_take_bit 63 (- int n * 1000000000) = - int n * 1000000000
      \<longleftrightarrow> - (2 ^ 63) \<le> - int n * 1000000000 \<and> - int n * 1000000000 < 2 ^ 63"
    by (rule signed_take_bit_int_eq_self_iff)
  then show ?thesis by simp linarith
qed

lemma LENGTH_63: "LENGTH(64) - 1 = 63"
  by simp

lemma window_exact_iff: "window now secs = now - int (unat secs) * 1000000000 \<longleftrightarrow> unat secs \<le> 9223372036"
proof -
  have "sint (word_of_int (- int (unat secs) * 1000000000) :: i64)
      = signed_take_bit 63 (- int (unat secs) * 1000000000)"
    using sint_sbintrunc' [where 'a = 64] by (metis LENGTH_63)
  then show ?thesis
    using window_int [of now secs] signed_63 [of "unat secs"] by simp
qed

text \<open>
  Property C33 (relative_window). A \<open>before\<close> or \<open>after\<close> window of \<open>n\<close> seconds is anchored exactly that
  long before now if and only if \<open>n\<close> is at most 9223372036 (292 years): beyond, the product in
  nanoseconds wraps.
\<close>

theorem relative_window:
  assumes "n < 2 ^ 64" and "map_of cfg ''before'' = Some (dec_nat n)" and "map_of cfg ''after'' = Some (dec_nat n)"
  shows "(lfBefore (loFilters (locateOptions dflt now cfg)) = now - int n * 1000000000 \<longleftrightarrow> n \<le> 9223372036)
     \<and> (lfSince (loFilters (locateOptions dflt now cfg)) = now - int n * 1000000000 \<longleftrightarrow> n \<le> 9223372036)"
proof -
  have "ParseUint (dec_nat n) = Some (of_nat n)" using assms(1) by (rule ParseUint_dec_nat)
  moreover have "unat (of_nat n :: u64) = n" using assms(1) by (simp add: unat_of_nat take_bit_nat_eq_self)
  ultimately show ?thesis
    using assms(2,3) window_exact_iff [of now "of_nat n"]
    by (simp add: locateOptions_def cfg_folds_def cfg_parsed_def Let_def)
qed

theorem relative_window_witness:
  "\<forall>dflt. lfBefore (loFilters (locateOptions dflt 5000000000000 [(''before'', dec_nat 3600), (''after'', dec_nat 3600)]))
     = 5000000000000 - int 3600 * 1000000000"
proof
  fix dflt
  show "lfBefore (loFilters (locateOptions dflt 5000000000000 [(''before'', dec_nat 3600), (''after'', dec_nat 3600)]))
     = 5000000000000 - int 3600 * 1000000000"
    using relative_window [of 3600 "[(''before'', dec_nat 3600), (''after'', dec_nat 3600)]" dflt 5000000000000]
    by simp
qed

text \<open>
  Lemma (window_overflow). One second more and the product wraps: the window of
  9223372037 seconds lies 292 years in the future instead of the past.
\<close>

theorem window_overflow:
  "window now 9223372037 = now + 9223372036709551616"
  by (simp add: window_def time_Add_def)

end
