(* ===== verification/Snapshot_Api.thy ===== *)
theory Snapshot_Api
  imports Kloset_Conn Locate
begin

text \<open>
  The part of kloset the operations drive, as the fields of \<open>repo_api\<close>: repositories, snapshots,
  snapshot selection and the clock. Repositories, snapshots, sources, caches and file systems
  are known by a number. The records below have the fields the operations read. The helpers at
  the end are the fragments several operations have in common.
\<close>

unbundle bit_operations_syntax

subsection \<open>The package interface\<close>

record SourceSummary =
  sumSize :: u64
  sumFiles :: u64
  sumDirectories :: u64
  sumSymlinks :: u64
  sumDevices :: u64
  sumPipes :: u64
  sumSockets :: u64
  sumErrors :: u64

text \<open>What \<open>Header.GetSource(0)\<close> gives: the importer's identity and the summary's two halves.\<close>

record SourceInfo =
  siType :: string
  siOrigin :: string
  siDirectory :: string
  siSummaryDirectory :: SourceSummary
  siSummaryBelow :: SourceSummary

record Header =
  hdIdentifier :: mac
  hdTimestamp :: gotime
  hdDuration :: i64
  hdTags :: "string list"
  hdEnvironment :: string
  hdCategory :: string
  hdDataset :: string
  hdDataClasses :: "string list"
  hdSource :: SourceInfo

text \<open>
  The builder options; the state refresher is a closure that rebuilds the state of a repository,
  represented by that repository.
\<close>

record BuilderOptions =
  boName :: string
  boTags :: "string list"
  boEnvironment :: string
  boDataset :: string
  boDataClasses :: "string list"
  boStateRefresher :: nat

record 'w repo_api = "'w kloset_api" +
  Now :: "'w \<Rightarrow> gotime \<times> 'w"
  NowText :: "'w \<Rightarrow> string \<times> 'w"
  UuidText :: "byte list \<Rightarrow> string"
  ZeroMac :: mac
  SnapshotCreate :: "nat \<Rightarrow> string \<Rightarrow> mac \<Rightarrow> BuilderOptions \<Rightarrow> 'w \<Rightarrow> (gerror + nat) \<times> 'w"
  SnapshotLoad :: "nat \<Rightarrow> mac \<Rightarrow> 'w \<Rightarrow> (gerror + nat) \<times> 'w"
  SnapshotClose :: "nat \<Rightarrow> 'w \<Rightarrow> gerror option \<times> 'w"
  HeaderOf :: "nat \<Rightarrow> 'w \<Rightarrow> Header"
  SetHeader :: "nat \<Rightarrow> Header \<Rightarrow> 'w \<Rightarrow> 'w"
  NewSource :: "nat \<Rightarrow> connector \<Rightarrow> 'w \<Rightarrow> (gerror + nat) \<times> 'w"
  SourceRoot :: "nat \<Rightarrow> 'w \<Rightarrow> string"
  SourceType :: "nat \<Rightarrow> 'w \<Rightarrow> string"
  SourceOrigin :: "nat \<Rightarrow> 'w \<Rightarrow> string"
  ImporterFlags :: "nat \<Rightarrow> 'w \<Rightarrow> nat"
  FLAG_NOCACHE :: nat
  DefaultLocateOptions :: LocateOptions
  LocateMatch :: "nat \<Rightarrow> LocateOptions \<Rightarrow> 'w \<Rightarrow> (gerror + mac list) \<times> 'w"
  LocateSnapshotIDs :: "nat \<Rightarrow> LocateOptions \<Rightarrow> 'w \<Rightarrow> (gerror + mac list) \<times> 'w"
  FilesystemWithCache :: "nat \<Rightarrow> 'w \<Rightarrow> (gerror + nat) \<times> 'w"
  WithVFSCache :: "nat \<Rightarrow> nat option \<Rightarrow> 'w \<Rightarrow> 'w"
  RBytes :: "nat \<Rightarrow> 'w \<Rightarrow> i64"
  WBytes :: "nat \<Rightarrow> 'w \<Rightarrow> i64"

text \<open>What single operations call, in the order of their theories.\<close>

datatype hasher = Hasher string | MACHasher string "byte list"

record 'w ops_api = "'w repo_api" +
  SnapBackup :: "nat \<Rightarrow> nat \<Rightarrow> 'w \<Rightarrow> gerror option \<times> 'w"
  SnapCommit :: "nat \<Rightarrow> 'w \<Rightarrow> gerror option \<times> 'w"
  CheckCache :: "'w \<Rightarrow> (gerror + nat) \<times> 'w"
  CacheClose :: "nat \<Rightarrow> 'w \<Rightarrow> gerror option \<times> 'w"
  OpenSnapshotByPath :: "nat \<Rightarrow> string \<Rightarrow> 'w \<Rightarrow> (gerror + nat \<times> string) \<times> 'w"
  SetCheckCache :: "nat \<Rightarrow> nat \<Rightarrow> 'w \<Rightarrow> 'w"
  SnapCheck :: "nat \<Rightarrow> string \<Rightarrow> 'w \<Rightarrow> gerror option \<times> 'w"
  OpenSnapshotByPathRelative :: "nat \<Rightarrow> string \<Rightarrow> 'w \<Rightarrow> (gerror + nat \<times> string \<times> string) \<times> 'w"
  SnapExport :: "nat \<Rightarrow> connector \<Rightarrow> string \<Rightarrow> string \<Rightarrow> 'w \<Rightarrow> gerror option \<times> 'w"
  ListSnapshots :: "nat \<Rightarrow> 'w \<Rightarrow> (mac \<times> gerror option) list \<times> 'w"
  SnapSynchronize :: "nat \<Rightarrow> nat \<Rightarrow> 'w \<Rightarrow> gerror option \<times> 'w"
  MacLength :: nat
  DeleteSnapshot :: "nat \<Rightarrow> mac \<Rightarrow> 'w \<Rightarrow> gerror option \<times> 'w"
  NewConfiguration :: StoreConfig
  LookupCompression :: "string \<Rightarrow> gerror + nat"
  DefaultCompression :: nat
  DEFAULT_HASHING_ALGORITHM :: string
  DeriveCanary :: "Encryption \<Rightarrow> byte list \<Rightarrow> 'w \<Rightarrow> (gerror + byte list) \<times> 'w"
  ConfigToBytes :: "StoreConfig \<Rightarrow> gerror + byte list"
  Serialize :: "hasher \<Rightarrow> byte list \<Rightarrow> 'w \<Rightarrow> (gerror + nat) \<times> 'w"
  ReadAll :: "nat \<Rightarrow> 'w \<Rightarrow> (gerror + byte list) \<times> 'w"
  StoreCreate :: "nat \<Rightarrow> byte list \<Rightarrow> 'w \<Rightarrow> gerror option \<times> 'w"
  RepoClose :: "nat \<Rightarrow> 'w \<Rightarrow> gerror option \<times> 'w"
  ImporterPing :: "nat \<Rightarrow> 'w \<Rightarrow> gerror option \<times> 'w"
  ExporterPing :: "nat \<Rightarrow> 'w \<Rightarrow> gerror option \<times> 'w"

subsection \<open>Fragments the operations share\<close>

definition close_snapshot :: "('w, 'z) repo_api_scheme \<Rightarrow> nat \<Rightarrow> ('w, unit) prog" where
  "close_snapshot K snap =
     bind (ecall (SnapshotClose K snap)) (\<lambda>_.
     closed (RSnapshot, snap))"

text \<open>The literal \<open>locate.LocateOptions{Filters: locate.LocateFilters{Latest: true, ...}}\<close>.\<close>

definition LocatePeriod_zero :: LocatePeriod where
  "LocatePeriod_zero = \<lparr>lpKeep = 0, lpCap = 0\<rparr>"

definition latest_of :: "string \<Rightarrow> string \<Rightarrow> string \<Rightarrow> LocateOptions" where
  "latest_of root type origin =
     \<lparr>loFilters =
        \<lparr>lfBefore = 0, lfSince = 0, lfName = '''', lfCategory = '''', lfEnvironment = '''',
         lfPerimeter = '''', lfJob = '''', lfDataset = '''', lfTags = [], lfIgnoreTags = [],
         lfLatest = True, lfIDs = [], lfTypes = [type], lfOrigins = [origin], lfRoots = [root],
         lfDataClasses = []\<rparr>,
      loGroupBy = '''',
      loPeriods =
        \<lparr>pdMinute = LocatePeriod_zero, pdHour = LocatePeriod_zero, pdDay = LocatePeriod_zero,
         pdWeek = LocatePeriod_zero, pdMonth = LocatePeriod_zero, pdYear = LocatePeriod_zero,
         pdMonday = LocatePeriod_zero, pdTuesday = LocatePeriod_zero,
         pdWednesday = LocatePeriod_zero, pdThursday = LocatePeriod_zero,
         pdFriday = LocatePeriod_zero, pdSaturday = LocatePeriod_zero,
         pdSunday = LocatePeriod_zero\<rparr>\<rparr>"

definition logical_size :: "SourceInfo \<Rightarrow> u64" where
  "logical_size src = sumSize (siSummaryDirectory src) + sumSize (siSummaryBelow src)"

definition content_of :: "SourceInfo \<Rightarrow> BackupContent" where
  "content_of src =
     (let d = siSummaryDirectory src; b = siSummaryBelow src
      in \<lparr>bcFiles = sumFiles d + sumFiles b, bcDirectories = sumDirectories d + sumDirectories b,
          bcSymlinks = sumSymlinks d + sumSymlinks b, bcDevices = sumDevices d + sumDevices b,
          bcPipes = sumPipes d + sumPipes b, bcSockets = sumSockets d + sumSockets b\<rparr>)"

definition store_io :: "('w, 'z) repo_api_scheme \<Rightarrow> nat \<Rightarrow> 'w \<Rightarrow> StoreIO" where
  "store_io K repo w = \<lparr>sioBytesRead = RBytes K repo w, sioBytesWritten = WBytes K repo w\<rparr>"

text \<open>Calls whose error the caller handles itself, and calls that make several results.\<close>

definition attempt :: "('w, 'a) prog \<Rightarrow> ('w, gerror + 'a) prog" where
  "attempt m s =
     (case m s of
        (Ret a, s) \<Rightarrow> (Ret (Inr a), s)
      | (Err e, s) \<Rightarrow> (Ret (Inl e), s)
      | (Panic msg, s) \<Rightarrow> (Panic msg, s)
      | (Hang, s) \<Rightarrow> (Hang, s))"

text \<open>Opening a snapshot by its path: the snapshot comes first in the result.\<close>

definition acquire_snapshot :: "('w \<Rightarrow> (gerror + nat \<times> 'a) \<times> 'w) \<Rightarrow> ('w, nat \<times> 'a) prog" where
  "acquire_snapshot f =
     bind (call f) (\<lambda>r.
     bind (opened (RSnapshot, fst r)) (\<lambda>_.
     ret r))"

subsection \<open>Resources\<close>

lemma flow_close_snapshot [takes_intros]:
  "flow {#(RSnapshot, snap)#} (close_snapshot K snap) (\<lambda>_. {#})"
  unfolding close_snapshot_def by (rule flow_bind [OF flow_leaf(5)]) (rule flow_closed)

lemma close_snapshot_then [takes_intros]:
  "neutral (f ()) \<Longrightarrow> flow {#(RSnapshot, snap)#} (bind (close_snapshot K snap) f) (\<lambda>_. {#})"
  by (rule flow_bind [OF flow_close_snapshot]) simp

lemma flow_attempt:
  assumes "flow {#} m Q"
  shows "flow {#} (attempt m) (\<lambda>r. case r of Inl e \<Rightarrow> {#} | Inr a \<Rightarrow> Q a)"
  unfolding flow_def
proof
  fix s
  obtain r s' where "m s = (r, s')" by fastforce
  with flowD [OF assms, of s]
  show "case attempt m s of
      (Ret a, s') \<Rightarrow> left_open s s' {#} (case a of Inl e \<Rightarrow> {#} | Inr a \<Rightarrow> Q a)
    | (Hang, s') \<Rightarrow> True | (_, s') \<Rightarrow> left_open s s' {#} {#}"
    by (cases r) (auto simp: attempt_def)
qed

lemma attempt_acquire_then [takes_intros]:
  assumes "\<And>e. neutral (f (Inl e))" and "\<And>h. flow {#(k, h)#} (f (Inr h)) (\<lambda>_. {#})"
  shows "neutral (bind (attempt (acquire k g)) f)"
  by (rule flow_bind [OF flow_attempt [OF flow_acquire]]) (use assms in \<open>auto split: sum.split\<close>)

lemma acquire_snapshot_flow: "flow {#} (acquire_snapshot f) (\<lambda>r. {#(RSnapshot, fst r)#})"
  unfolding acquire_snapshot_def
  by (rule flow_bind [OF neutral_call], rule flow_bind [OF flow_opened], rule flow_ret_eq) simp

lemma acquire_snapshot_then [takes_intros]:
  "(\<And>h a. flow {#(RSnapshot, h)#} (f (h, a)) Q) \<Longrightarrow> flow {#} (bind (acquire_snapshot g) f) Q"
  by (rule flow_bind [OF acquire_snapshot_flow]) auto

lemma attempt_acquire_snapshot_then [takes_intros]:
  assumes "\<And>e. neutral (f (Inl e))" and "\<And>h a. flow {#(RSnapshot, h)#} (f (Inr (h, a))) (\<lambda>_. {#})"
  shows "neutral (bind (attempt (acquire_snapshot g)) f)"
  by (rule flow_bind [OF flow_attempt [OF acquire_snapshot_flow]])
    (use assms in \<open>auto split: sum.split\<close>)

lemma neutral_attempt [keeps_intros]: "neutral m \<Longrightarrow> neutral (attempt m)"
proof -
  assume "neutral m"
  from flow_attempt [OF this] have "flow {#} (attempt m) (\<lambda>r. case r of Inl e \<Rightarrow> {#} | Inr a \<Rightarrow> {#})" .
  moreover have "(\<lambda>r :: gerror + 'b. case r of Inl e \<Rightarrow> {#} | Inr a \<Rightarrow> {#}) = (\<lambda>_. {#})"
    by (auto simp: fun_eq_iff split: sum.split)
  ultimately show ?thesis by simp
qed

text \<open>Calls that cannot end a function early may stand between taking a resource and closing it.\<close>

lemma leaf_then [takes_intros]:
  "(\<And>a. flow rs (f1 a) Q) \<Longrightarrow> flow rs (bind (tcall g1) f1) Q"
  "(\<And>a. flow rs (f2 a) Q) \<Longrightarrow> flow rs (bind (ecall g2) f2) Q"
  "(\<And>a. flow rs (f3 a) Q) \<Longrightarrow> flow rs (bind (vcall g3) f3) Q"
  "(\<And>a. flow rs (f4 a) Q) \<Longrightarrow> flow rs (bind (look g4) f4) Q"
  "(\<And>a. flow rs (f5 a) Q) \<Longrightarrow> flow rs (bind (change g5) f5) Q"
  by (rule flow_bind, rule flow_leaf, simp)+

lemma attempt_run [prog_simps]:
  "m s = (Ret a, s') \<Longrightarrow> attempt m s = (Ret (Inr a), s')"
  "m s = (Err e, s') \<Longrightarrow> attempt m s = (Ret (Inl e), s')"
  by (simp_all add: attempt_def)

subsection \<open>Returned values\<close>

text \<open>\<open>ids\<close> is a selection the task configuration asks for.\<close>

definition selected :: "('w, 'z) ops_api_scheme \<Rightarrow> ExecPayload \<Rightarrow> nat \<Rightarrow> mac list \<Rightarrow> bool" where
  "selected K input repo ids \<longleftrightarrow>
     (\<exists>now w w'. LocateSnapshotIDs K repo (locateOptions (DefaultLocateOptions K) now (plTaskConfig input)) w
        = (Inr ids, w'))"

lemma gives_attempt: "gives m P \<Longrightarrow> gives (attempt m) (\<lambda>r. case r of Inl e \<Rightarrow> True | Inr a \<Rightarrow> P a)"
  by (auto simp: gives_def attempt_def split: prod.splits outcome.splits)

lemma gives_acquire_snapshot: "gives (acquire_snapshot g) (\<lambda>a. \<exists>w w'. g w = (Inr a, w'))"
  unfolding acquire_snapshot_def
  by (rule gives_bind [OF gives_call]) (auto simp: gives_def bind_def prog_simps)

lemma gives_acquire_snapshot_then [gives_intros]:
  "(\<And>a w w'. g w = (Inr a, w') \<Longrightarrow> gives (f a) Q) \<Longrightarrow> gives (bind (acquire_snapshot g) f) Q"
  by (rule gives_bind [OF gives_acquire_snapshot]) auto

lemma gives_attempt_acquire_snapshot_then [gives_intros]:
  assumes "\<And>e. gives (f (Inl e)) Q" and "\<And>a w w'. g w = (Inr a, w') \<Longrightarrow> gives (f (Inr a)) Q"
  shows "gives (bind (attempt (acquire_snapshot g)) f) Q"
  by (rule gives_bind [OF gives_attempt [OF gives_acquire_snapshot]])
    (use assms in \<open>auto split: sum.splits\<close>)

end
