(* ===== verification/Backup_Op.thy ===== *)
theory Backup_Op
  imports Snapshot_Api
begin

text \<open>
  The backup operation, \<open>backup.go\<close>: an importer and a store are opened, a snapshot is built from
  the importer with the latest snapshot of the same source as a cache, committed, and reported.
  Each \<open>defer\<close> of the source is a \<open>deferring\<close> around the rest of the function.
\<close>

definition backup_options :: "('w, 'z) repo_api_scheme \<Rightarrow> Configuration \<Rightarrow> string list \<Rightarrow> string \<Rightarrow> nat
    \<Rightarrow> BuilderOptions" where
  "backup_options K source tags now repo =
     \<lparr>boName = ''plaklet-'' @ now, boTags = tags, boEnvironment = cfEnvironment source,
      boDataset = UuidText K (cfId source), boDataClasses = cfDataClasses source,
      boStateRefresher = repo\<rparr>"

definition backup_report :: "('w, 'z) repo_api_scheme \<Rightarrow> Configuration \<Rightarrow> Header \<Rightarrow> StoreIO \<Rightarrow> BackupReport" where
  "backup_report K source hdr io =
     (let src = hdSource hdr; logical = logical_size src;
          d = siSummaryDirectory src; b = siSummaryBelow src
      in \<lparr>brSnapshotID = hdIdentifier hdr, brSnapshotCreationTime = hdTimestamp hdr,
          brTook = hdDuration hdr, brName = siType src @ '' backup of '' @ siOrigin src,
          brOrigin = siOrigin src, brRoot = siDirectory src, brSize = logical,
          brItems = sumFiles d + sumFiles b, brTags = hdTags hdr,
          brEnvironment = hdEnvironment hdr, brCategory = hdCategory hdr,
          brDataset = hdDataset hdr, brDataClasses = hdDataClasses hdr, brLogicalSize = logical,
          brContent = content_of src, brErrors = sumErrors d + sumErrors b, brStore = io,
          brURN = cfURN source, brURNID = UuidText K (cfURNID source)\<rparr>)"

text \<open>From \<open>snap.WithVFSCache\<close> to the end of the function.\<close>

definition backup_run :: "('w, 'z) ops_api_scheme \<Rightarrow> ExecPayload \<Rightarrow> Configuration \<Rightarrow> nat \<Rightarrow> nat \<Rightarrow> nat
    \<Rightarrow> nat option \<Rightarrow> ('w, Report option \<times> gerror option) prog" where
  "backup_run K input source repo snap src parentVFS =
     bind (change (WithVFSCache K snap parentVFS)) (\<lambda>_.
     bind (call_unit (SnapBackup K snap src)) (\<lambda>_.
     bind (call_unit (SnapCommit K snap)) (\<lambda>_.
     bind (look (HeaderOf K snap)) (\<lambda>hdr.
     bind (look (store_io K repo)) (\<lambda>io.
     ret (Some ((Report_of (plOp input))\<lparr>rpBackup := Some (backup_report K source hdr io)\<rparr>), None))))))"

text \<open>
  The choice of the parent: none for an importer that is not cached, none when no snapshot
  matches or the match does not load; the loaded parent is closed at the end of the function.
  The messages to stderr are left out.
\<close>

definition with_parent :: "('w, 'z) repo_api_scheme \<Rightarrow> nat \<Rightarrow> connector \<Rightarrow> nat
    \<Rightarrow> (nat option \<Rightarrow> ('w, 'a) prog) \<Rightarrow> ('w, 'a) prog" where
  "with_parent K repo imp src finish =
     bind (look (ImporterFlags K (inner imp))) (\<lambda>flags.
     if flags AND FLAG_NOCACHE K = 0 then
       bind (look (\<lambda>w. latest_of (SourceRoot K src w) (SourceType K src w) (SourceOrigin K src w))) (\<lambda>lo.
       bind (call (LocateMatch K repo lo)) (\<lambda>parentID.
       case parentID of
         [] \<Rightarrow> finish None
       | pid # _ \<Rightarrow>
           bind (attempt (acquire RSnapshot (SnapshotLoad K repo pid))) (\<lambda>r.
           case r of
             Inl _ \<Rightarrow> finish None
           | Inr parent \<Rightarrow>
               deferring (close_snapshot K parent) (
               bind (tcall (FilesystemWithCache K parent)) (\<lambda>r.
               finish (case r of Inl _ \<Rightarrow> None | Inr fs \<Rightarrow> Some fs))))))
     else finish None)"

definition backup :: "('w, 'z) ops_api_scheme \<Rightarrow> ExecPayload \<Rightarrow> ('w, Report option \<times> gerror option) prog" where
  "backup K input =
     returns (case (plSource input, plTarget input) of
       (Some source, Some target) \<Rightarrow>
         (let tags = indexedList (plTaskConfig input) ''labels'';
              ignores = indexedList (plTaskConfig input) ''ignores''
          in
          bind (mkimporter K source ignores) (\<lambda>imp.
          deferring (ensureClose K KImporter imp) (
          bind (mkstorage K target) (\<lambda>(store, passphrase, _).
          deferring (ensureClose K KStore store) (
          bind (openrepo K store passphrase) (\<lambda>repo.
          bind (vcall (NowText K)) (\<lambda>now.
          bind (acquire RSnapshot
                 (SnapshotCreate K repo '''' (ZeroMac K) (backup_options K source tags now repo))) (\<lambda>snap.
          deferring (close_snapshot K snap) (
          bind (call (NewSource K repo imp)) (\<lambda>src.
          with_parent K repo imp src (backup_run K input source repo snap src)))))))))))
     | _ \<Rightarrow> fail (Errorf ''source and target must be set for backup''))"

lemma neutral_backup_run [keeps_intros]: "neutral (backup_run K input source repo snap src p)"
  unfolding backup_run_def by (intro neutral_bind keeps_intros)

lemma neutral_with_parent [keeps_intros]:
  "(\<And>p. neutral (finish p)) \<Longrightarrow> neutral (with_parent K repo imp src finish)"
  unfolding with_parent_def
  by (rule takes_intros keeps_intros neutral_bind | assumption)+

lemma neutral_backup [keeps_intros]: "neutral (backup K input)"
  unfolding backup_def Let_def
  by (rule takes_intros keeps_intros neutral_bind)+

subsection \<open>What a backup reports\<close>

text \<open>The snapshot \<open>snap\<close> was filled from the source \<open>src\<close> and committed.\<close>

definition committed :: "('w, 'z) ops_api_scheme \<Rightarrow> nat \<Rightarrow> nat \<Rightarrow> bool" where
  "committed K snap src \<longleftrightarrow>
     (\<exists>w w' v v'. SnapBackup K snap src w = (None, w') \<and> SnapCommit K snap v = (None, v'))"

definition backup_sound :: "('w, 'z) ops_api_scheme \<Rightarrow> ExecPayload \<Rightarrow> Report option \<times> gerror option \<Rightarrow> bool" where
  "backup_sound K input r =
     (case r of
        (None, err) \<Rightarrow> err \<noteq> None
      | (Some rep, err) \<Rightarrow> err = None
          \<and> (\<exists>source repo snap src v v'. plSource input = Some source \<and> committed K snap src
               \<and> rep = (Report_of (plOp input))\<lparr>rpBackup :=
                     Some (backup_report K source (HeaderOf K snap v) (store_io K repo v'))\<rparr>))"

lemma gives_backup_run:
  assumes "plSource input = Some source"
  shows "gives (backup_run K input source repo snap src p) (backup_sound K input)"
proof -
  have Q: "backup_sound K input (Some ((Report_of (plOp input))\<lparr>rpBackup :=
      Some (backup_report K source (HeaderOf K snap v) (store_io K repo v'))\<rparr>), None)"
    if "SnapBackup K snap src w = (None, w')" "SnapCommit K snap u = (None, u')" for w w' u u' v v'
  proof -
    have "committed K snap src" using that unfolding committed_def by blast
    with assms show ?thesis unfolding backup_sound_def by (simp only: prod.case option.case) blast
  qed
  show ?thesis
    unfolding backup_run_def
    by (rule gives_bind_any, rule gives_call_unit_then, rule gives_call_unit_then, rule gives_total_then,
        rule gives_total_then, rule gives_leaf, rule Q)
qed

lemma gives_with_parent:
  "(\<And>p. gives (finish p) Q) \<Longrightarrow> gives (with_parent K repo imp src finish) Q"
  unfolding with_parent_def by (intro gives_cases gives_bind_any gives_deferring) auto

lemma gives_backup: "gives (backup K input) (backup_sound K input)"
  unfolding backup_def Let_def
  by (rule gives_returns, rule gives_cases(5), rule gives_cases(2), rule gives_leaf,
        rule gives_cases(2), rule gives_leaf, rule gives_bind_any, rule gives_deferring,
        rule gives_bind_any, rule gives_cases(5), rule gives_cases(5), rule gives_deferring,
        rule gives_bind_any, rule gives_bind_any, rule gives_bind_any, rule gives_deferring,
        rule gives_bind_any, rule gives_with_parent, rule gives_backup_run)
      (simp_all add: backup_sound_def)


end
