(* ===== verification/Check_Op.thy ===== *)
theory Check_Op
  imports Snapshot_Api
begin

text \<open>
  The check operation, \<open>check.go\<close>: the snapshots the task configuration selects are opened and
  verified one after the other; a snapshot that fails is counted, one that cannot be opened ends
  the run.
\<close>

text \<open>The loop; the second result is the error of an early return out of it.\<close>

fun check_loop :: "('w, 'z) ops_api_scheme \<Rightarrow> nat \<Rightarrow> nat \<Rightarrow> mac list \<Rightarrow> ChecksReport
    \<Rightarrow> ('w, ChecksReport \<times> gerror option) prog" where
  "check_loop K repo cache [] ccr = ret (ccr, None)"
| "check_loop K repo cache (sid # ids) ccr =
     bind (attempt (acquire_snapshot (OpenSnapshotByPath K repo (hex_encode sid @ '':'')))) (\<lambda>r.
     case r of
       Inl e \<Rightarrow> ret (ccr, Some e)
     | Inr (snap, pathname) \<Rightarrow>
         bind (change (SetCheckCache K snap cache)) (\<lambda>_.
         bind (vcall (Now K)) (\<lambda>snapStart.
         bind (look (store_io K repo)) (\<lambda>before.
         bind (ecall (SnapCheck K snap pathname)) (\<lambda>err.
         bind (look (HeaderOf K snap)) (\<lambda>hdr.
         bind (vcall (Now K)) (\<lambda>now.
         bind (look (store_io K repo)) (\<lambda>after.
         bind (close_snapshot K snap) (\<lambda>_.
         check_loop K repo cache ids
           (ccr\<lparr>ccErrors := (if err \<noteq> None then ccErrors ccr + 1 else ccErrors ccr),
                ccChecks := ccChecks ccr @
                  [\<lparr>ckSnapshotID = hdIdentifier hdr, ckTook = time_Sub now snapStart,
                    ckStore = \<lparr>sioBytesRead = sioBytesRead after - sioBytesRead before,
                               sioBytesWritten = sioBytesWritten after - sioBytesWritten before\<rparr>\<rparr>]\<rparr>))))))))))"

definition ChecksReport_zero :: ChecksReport where
  "ChecksReport_zero = \<lparr>ccTook = 0, ccLogicalSize = 0, ccErrors = 0, ccChecks = []\<rparr>"

definition close_cache :: "('w, 'z) ops_api_scheme \<Rightarrow> nat \<Rightarrow> ('w, unit) prog" where
  "close_cache K cache =
     bind (ecall (CacheClose K cache)) (\<lambda>_.
     closed (RCache, cache))"

definition check_report :: "ExecPayload \<Rightarrow> ChecksReport \<Rightarrow> Report" where
  "check_report input ccr = (Report_of (plOp input))\<lparr>rpCheck := Some ccr\<rparr>"

text \<open>The end of the function, with the early return of the loop in front.\<close>

definition check_finish :: "('w, 'z) ops_api_scheme \<Rightarrow> ExecPayload \<Rightarrow> nat \<Rightarrow> gotime \<Rightarrow> ChecksReport
    \<Rightarrow> gerror option \<Rightarrow> ('w, Report option \<times> gerror option) prog" where
  "check_finish K input n start ccr err =
     (case err of
        Some e \<Rightarrow> ret (Some (check_report input ccr), Some e)
      | None \<Rightarrow>
          bind (vcall (Now K)) (\<lambda>now.
          let ccr = ccr\<lparr>ccTook := time_Sub now start\<rparr>
          in if ccErrors ccr \<noteq> 0 then
               ret (Some (check_report input ccr),
                    Some (Errorf (''check failed: '' @ dec_nat (unat (ccErrors ccr)) @ '' of ''
                            @ dec_nat n @ '' snapshot(s) had errors'')))
             else ret (Some (check_report input ccr), None)))"

definition check :: "('w, 'z) ops_api_scheme \<Rightarrow> ExecPayload \<Rightarrow> ('w, Report option \<times> gerror option) prog" where
  "check K input =
     returns (case plSource input of
       None \<Rightarrow> fail (Errorf ''source must be set for check'')
     | Some source \<Rightarrow>
         bind (mkstorage K source) (\<lambda>(store, passphrase, _).
         deferring (ensureClose K KStore store) (
         bind (openrepo K store passphrase) (\<lambda>repo.
         bind (vcall (Now K)) (\<lambda>now.
         bind (call (LocateSnapshotIDs K repo (locateOptions (DefaultLocateOptions K) now (plTaskConfig input))))
           (\<lambda>snapshotIDs.
         bind (acquire RCache (CheckCache K)) (\<lambda>checkCache.
         deferring (close_cache K checkCache) (
         bind (vcall (Now K)) (\<lambda>start.
         bind (check_loop K repo checkCache snapshotIDs ChecksReport_zero) (\<lambda>(ccr, err).
         check_finish K input (length snapshotIDs) start ccr err))))))))))"

lemma flow_close_cache [takes_intros]: "flow {#(RCache, c)#} (close_cache K c) (\<lambda>_. {#})"
  unfolding close_cache_def by (rule flow_bind [OF flow_leaf(5)]) (rule flow_closed)

lemma neutral_check_loop [keeps_intros]: "neutral (check_loop K repo cache ids ccr)"
proof (induction ids arbitrary: ccr)
  case Nil
  then show ?case by (simp add: flow_ret_const)
next
  case (Cons sid ids)
  show ?case
    unfolding check_loop.simps
    by (rule takes_intros) (simp_all add: flow_ret_const leaf_then close_snapshot_then Cons.IH)
qed

lemma neutral_check_finish [keeps_intros]: "neutral (check_finish K input n start ccr err)"
  unfolding check_finish_def Let_def by (rule takes_intros keeps_intros neutral_bind)+

lemma neutral_check [keeps_intros]: "neutral (check K input)"
  unfolding check_def Let_def
  by (rule takes_intros keeps_intros neutral_bind)+

subsection \<open>What a check verifies\<close>

text \<open>\<open>out\<close> is a result of verifying a snapshot opened by the identifier \<open>sid\<close>.\<close>

definition verifies_to :: "('w, 'z) ops_api_scheme \<Rightarrow> nat \<Rightarrow> mac \<Rightarrow> gerror option \<Rightarrow> bool" where
  "verifies_to K repo sid out \<longleftrightarrow>
     (\<exists>snap path w w' v. OpenSnapshotByPath K repo (hex_encode sid @ '':'') w = (Inr (snap, path), w')
        \<and> fst (SnapCheck K snap path v) = out)"

definition verified :: "('w, 'z) ops_api_scheme \<Rightarrow> nat \<Rightarrow> mac list \<Rightarrow> gerror option list \<Rightarrow> bool" where
  "verified K repo ids outs \<longleftrightarrow> list_all2 (verifies_to K repo) (take (length outs) ids) outs"

definition bad :: "gerror option list \<Rightarrow> nat" where
  "bad outs = length (filter (\<lambda>out. out \<noteq> None) outs)"

definition loop_checked :: "('w, 'z) ops_api_scheme \<Rightarrow> nat \<Rightarrow> mac list \<Rightarrow> ChecksReport
    \<Rightarrow> ChecksReport \<times> gerror option \<Rightarrow> bool" where
  "loop_checked K repo ids ccr = (\<lambda>(ccr', err). \<exists>outs. verified K repo ids outs
     \<and> length outs \<le> length ids \<and> (err = None \<longleftrightarrow> length outs = length ids)
     \<and> length (ccChecks ccr') = length (ccChecks ccr) + length outs
     \<and> ccErrors ccr' = ccErrors ccr + of_nat (bad outs))"

lemma loop_checked_none: "loop_checked K repo [] ccr (ccr, None)" "loop_checked K repo (sid # ids) ccr (ccr, Some e)"
  by (auto simp: loop_checked_def verified_def bad_def intro!: exI [of _ "[]"])

lemma loop_checked_next:
  assumes "verifies_to K repo sid out"
    and "loop_checked K repo ids (ccr\<lparr>ccErrors := (if out \<noteq> None then ccErrors ccr + 1 else ccErrors ccr),
           ccChecks := ccChecks ccr @ [ck]\<rparr>) r"
  shows "loop_checked K repo (sid # ids) ccr r"
proof -
  obtain ccr' err where r: "r = (ccr', err)" by fastforce
  with assms(2) obtain outs where outs: "verified K repo ids outs" "length outs \<le> length ids"
    "err = None \<longleftrightarrow> length outs = length ids" "length (ccChecks ccr') = length (ccChecks ccr) + 1 + length outs"
    "ccErrors ccr' = (if out \<noteq> None then ccErrors ccr + 1 else ccErrors ccr) + of_nat (bad outs)"
    by (auto simp: loop_checked_def)
  have "verified K repo (sid # ids) (out # outs)" using outs(1) assms(1) by (simp add: verified_def)
  with outs show ?thesis
    unfolding r loop_checked_def prod.case by (intro exI [of _ "out # outs"]) (auto simp: bad_def)
qed

lemma gives_check_loop: "gives (check_loop K repo cache ids ccr) (loop_checked K repo ids ccr)"
proof (induction ids arbitrary: ccr)
  case Nil
  show ?case by (simp add: gives_leaf loop_checked_none)
next
  case (Cons sid ids)
  show ?case
    unfolding check_loop.simps
  proof (rule gives_attempt_acquire_snapshot_then, goal_cases)
    case (1 e)
    show ?case by (simp add: gives_leaf loop_checked_none)
  next
    case (2 a w w')
    obtain snap path where a: "a = (snap, path)" by fastforce
    have out: "verifies_to K repo sid (fst (SnapCheck K snap path v))" for v
      using 2 unfolding a verifies_to_def by blast
    show ?case
      unfolding a sum.case prod.case
      by (rule gives_bind_any, (rule gives_total_then)+, rule gives_bind_any)
        (rule gives_mono [OF Cons.IH], rule loop_checked_next [OF out])
  qed
qed

text \<open>The verdict of a check over the selection \<open>ids\<close>.\<close>

definition check_sound :: "('w, 'z) ops_api_scheme \<Rightarrow> ExecPayload \<Rightarrow> nat \<Rightarrow> mac list
    \<Rightarrow> Report option \<times> gerror option \<Rightarrow> bool" where
  "check_sound K input repo ids = (\<lambda>(rep, err). \<exists>outs ccr.
     rep = Some (check_report input ccr) \<and> verified K repo ids outs
     \<and> length (ccChecks ccr) = length outs \<and> ccErrors ccr = of_nat (bad outs)
     \<and> (err = None \<longleftrightarrow> length outs = length ids \<and> ccErrors ccr = 0))"

lemma gives_check_finish:
  assumes "loop_checked K repo ids ChecksReport_zero (ccr, err)"
  shows "gives (check_finish K input (length ids) start ccr err) (check_sound K input repo ids)"
proof -
  obtain outs where outs: "verified K repo ids outs" "err = None \<longleftrightarrow> length outs = length ids"
    "length (ccChecks ccr) = length outs" "ccErrors ccr = of_nat (bad outs)"
    using assms by (auto simp: loop_checked_def ChecksReport_zero_def)
  have sound: "check_sound K input repo ids (Some (check_report input (ccr\<lparr>ccTook := t\<rparr>)), e)"
    if "e = None \<longleftrightarrow> err = None \<and> ccErrors ccr = 0" for t e
    using that outs unfolding check_sound_def prod.case
    by (intro exI [of _ outs] exI [of _ "ccr\<lparr>ccTook := t\<rparr>"]) auto
  have "check_sound K input repo ids (Some (check_report input ccr), e)"
    if "e = None \<longleftrightarrow> err = None \<and> ccErrors ccr = 0" for e
    using sound [OF that, of "ccTook ccr"] by simp
  then show ?thesis
    unfolding check_finish_def Let_def
    by (intro gives_intros) (auto intro: sound)
qed

lemma check_sound_report: "check_sound K input repo ids r \<Longrightarrow> \<exists>rep err. r = (Some rep, err)"
  by (cases r) (auto simp: check_sound_def)

definition check_verdict_of :: "('w, 'z) ops_api_scheme \<Rightarrow> ExecPayload \<Rightarrow> Report option \<times> gerror option \<Rightarrow> bool" where
  "check_verdict_of K input r =
     (case r of
        (None, err) \<Rightarrow> err \<noteq> None
      | (Some rep, err) \<Rightarrow>
          (\<exists>repo ids. selected K input repo ids \<and> check_sound K input repo ids (Some rep, err)))"

lemma gives_check: "gives (check K input) (check_verdict_of K input)"
proof -
  have finish: "gives (check_finish K input (length ids) start ccr err) (check_verdict_of K input)"
    if "selected K input repo ids" "loop_checked K repo ids ChecksReport_zero (ccr, err)"
    for repo ids ccr err start
  proof (rule gives_mono [OF gives_check_finish [OF that(2)]])
    fix r assume sound: "check_sound K input repo ids r"
    then obtain rep err where "r = (Some rep, err)" using check_sound_report by blast
    with sound that(1) show "check_verdict_of K input r" by (auto simp: check_verdict_of_def)
  qed
  have loop: "gives (bind (check_loop K repo cache ids ChecksReport_zero) (\<lambda>(ccr, err).
      check_finish K input (length ids) start ccr err)) (check_verdict_of K input)"
    if "LocateSnapshotIDs K repo (locateOptions (DefaultLocateOptions K) now (plTaskConfig input)) w = (Inr ids, w')"
    for repo cache ids start now w w'
  proof -
    have "selected K input repo ids" using that unfolding selected_def by blast
    from finish [OF this] show ?thesis
      by (intro gives_bind [OF gives_check_loop] gives_cases(5)) blast
  qed
  show ?thesis
    unfolding check_def
    by (rule gives_returns, rule gives_cases(2), rule gives_leaf, rule gives_bind_any, rule gives_cases(5),
        rule gives_cases(5), rule gives_deferring, rule gives_bind_any, rule gives_total_then,
        rule gives_call_then, rule gives_bind_any, rule gives_deferring, rule gives_total_then,
        rule loop, assumption) (simp add: check_verdict_of_def)
qed

text \<open>
  Property C11 (check_verdict). A check that returns a report verified snapshots of the selection
  the task configuration asks for, in order, each opened by its identifier; the report has one
  entry per verified snapshot and counts the failed ones. The check is a success exactly when
  it reached the end of the selection and counted no failure.
\<close>

theorem check_verdict:
  "case check K input s of (Ret r, _) \<Rightarrow> check_verdict_of K input r | _ \<Rightarrow> True"
  using gives_check [of K input] by (simp add: gives_def)

end
