(* ===== verification/Demo_Api.thy ===== *)
theory Demo_Api
  imports Snapshot_Api
begin

text \<open>
  A small instance of the packages outside the repository, at which the properties that assume
  something of them are applied. The world counts the objects made so far; every call
  succeeds; a key is the bytes of its passphrase and a canary is its key. \<open>stored\<close> is the
  configuration that a store holds.
\<close>

definition fresh :: "nat \<Rightarrow> (gerror + nat) \<times> nat" where
  "fresh w = (Inr w, w + 1)"

definition fine :: "nat \<Rightarrow> gerror option \<times> nat" where
  "fine w = (None, w)"

definition no_summary :: SourceSummary where
  "no_summary = \<lparr>sumSize = 0, sumFiles = 0, sumDirectories = 0, sumSymlinks = 0, sumDevices = 0,
                 sumPipes = 0, sumSockets = 0, sumErrors = 0\<rparr>"

definition demo_header :: Header where
  "demo_header = \<lparr>hdIdentifier = [1], hdTimestamp = 0, hdDuration = 0, hdTags = [], hdEnvironment = '''',
     hdCategory = '''', hdDataset = '''', hdDataClasses = [],
     hdSource = \<lparr>siType = ''fs'', siOrigin = ''host'', siDirectory = ''/data'',
                 siSummaryDirectory = no_summary, siSummaryBelow = no_summary\<rparr>\<rparr>"

definition demo :: "StoreConfig \<Rightarrow> nat ops_api" where
  "demo stored =
    \<lparr>Spawn = (\<lambda>_ _. fresh), GrpcClient = (\<lambda>_. fresh), ConnClose = (\<lambda>_. fine),
     SdkImporter = (\<lambda>_ _ _ _. fresh), SdkExporter = (\<lambda>_ _ _ _. fresh), SdkStorage = (\<lambda>_ _ _. fresh),
     SdkInventory = (\<lambda>_ _. fresh), CloseFn = (\<lambda>_ _. fine),
     GOOS = ''linux'', GOARCH = ''amd64'', MaxConcurrency = 2,
     FsImporter = (\<lambda>_ _ _. fresh), BuiltinImporter = (\<lambda>_ _. fresh),
     FsExporter = (\<lambda>_ _ _. fresh), BuiltinExporter = (\<lambda>_ _. fresh), FsStore = (\<lambda>_ _. fresh),
     StoreOpen = (\<lambda>_ w. (Inr [], w)), ParseConfig = (\<lambda>_. Inr stored),
     DeriveKey = (\<lambda>_ p w. (Inr (map of_char p), w)),
     VerifyCanary = (\<lambda>enc key. encCanary enc = key),
     RepositoryNew = (\<lambda>_ _ _. fresh), StorageRegister = (\<lambda>_ _ _. fine), StorageUnregister = (\<lambda>_ w. w),
     CloserText = (\<lambda>_ _. ''connector''),
     Now = (\<lambda>w. (0, w)), NowText = (\<lambda>w. (''now'', w)), UuidText = hex_encode, ZeroMac = [0],
     SnapshotCreate = (\<lambda>_ _ _ _. fresh), SnapshotLoad = (\<lambda>_ _. fresh), SnapshotClose = (\<lambda>_. fine),
     HeaderOf = (\<lambda>_ _. demo_header), SetHeader = (\<lambda>_ _ w. w), NewSource = (\<lambda>_ _. fresh),
     SourceRoot = (\<lambda>_ _. ''/data''), SourceType = (\<lambda>_ _. ''fs''), SourceOrigin = (\<lambda>_ _. ''host''),
     ImporterFlags = (\<lambda>_ _. 0), FLAG_NOCACHE = 1,
     DefaultLocateOptions = latest_of '''' '''' '''',
     LocateMatch = (\<lambda>_ _ w. (Inr [], w)), LocateSnapshotIDs = (\<lambda>_ _ w. (Inr [[1]], w)),
     FilesystemWithCache = (\<lambda>_. fresh), WithVFSCache = (\<lambda>_ _ w. w), RBytes = (\<lambda>_ _. 0), WBytes = (\<lambda>_ _. 0),
     SnapBackup = (\<lambda>_ _. fine), SnapCommit = (\<lambda>_. fine),
     CheckCache = fresh, CacheClose = (\<lambda>_. fine),
     OpenSnapshotByPath = (\<lambda>_ _ w. (Inr (w, ''/''), w + 1)), SetCheckCache = (\<lambda>_ _ w. w),
     SnapCheck = (\<lambda>_ _. fine),
     OpenSnapshotByPathRelative = (\<lambda>_ _ w. (Inr (w, ''/'', ''''), w + 1)), SnapExport = (\<lambda>_ _ _ _. fine),
     ListSnapshots = (\<lambda>_ w. ([], w)), SnapSynchronize = (\<lambda>_ _. fine),
     MacLength = 32, DeleteSnapshot = (\<lambda>_ _. fine),
     NewConfiguration = \<lparr>cfgCompression = None, cfgEncryption = Some \<lparr>encKDFParams = 0, encCanary = []\<rparr>, cfgRest = 0\<rparr>,
     LookupCompression = (\<lambda>_. Inr 1), DefaultCompression = 1, DEFAULT_HASHING_ALGORITHM = ''BLAKE3'',
     DeriveCanary = (\<lambda>_ key w. (Inr key, w)), ConfigToBytes = (\<lambda>_. Inr []),
     Serialize = (\<lambda>_ _. fresh), ReadAll = (\<lambda>_ w. (Inr [], w)), StoreCreate = (\<lambda>_ _. fine),
     RepoClose = (\<lambda>_. fine), ImporterPing = (\<lambda>_. fine), ExporterPing = (\<lambda>_. fine)\<rparr>"

definition demo_state :: "nat rt" where
  "demo_state = \<lparr>world = 0, plugins = NewRegistry, sent = [], acts = []\<rparr>"

definition fs_config :: "string \<Rightarrow> (string \<times> string) list \<Rightarrow> Configuration" where
  "fs_config type kvs =
     Configuration [] 0 type \<lparr>igId = [], igName = ''fs'', igVersion = ''1''\<rparr> ''''
       (map (\<lambda>(k, v). ConfigurationField k None v) kvs) '''' [] '''' []"

end
