(* ===== verification/Create_Op.thy ===== *)
theory Create_Op
  imports Demo_Api
begin

text \<open>
  The create operation, \<open>create.go\<close>: a store is initialised with a configuration whose compression
  and encryption the task configuration and the store's passphrase decide.
\<close>

text \<open>The \<open>switch\<close> on the compression keys.\<close>

definition create_compression :: "('w, 'z) ops_api_scheme \<Rightarrow> smap \<Rightarrow> gerror + nat option" where
  "create_compression K cfg =
     (if smap_get cfg ''no_compression'' = ''true'' then Inr None
      else if smap_get cfg ''compression'' \<noteq> '''' then
        (case LookupCompression K (to_upper (smap_get cfg ''compression'')) of
           Inl e \<Rightarrow> Inl (Wrap (''compression algorithm '' @ quoted (smap_get cfg ''compression'') @ '': '') e)
         | Inr c \<Rightarrow> Inr (Some c))
      else Inr (Some (DefaultCompression K)))"

text \<open>The encryption and the hasher that follows from it.\<close>

definition create_encryption :: "('w, 'z) ops_api_scheme \<Rightarrow> smap \<Rightarrow> string \<Rightarrow> StoreConfig
    \<Rightarrow> ('w, StoreConfig \<times> hasher) prog" where
  "create_encryption K cfg passphrase conf =
     (if smap_get cfg ''no_encryption'' = ''true'' \<or> passphrase = '''' then
        ret (conf\<lparr>cfgEncryption := None\<rparr>, Hasher (DEFAULT_HASHING_ALGORITHM K))
      else case cfgEncryption conf of
        None \<Rightarrow> panic nil_dereference
      | Some enc \<Rightarrow>
          bind (call (DeriveKey K (encKDFParams enc) passphrase)) (\<lambda>key.
          bind (call (DeriveCanary K enc key)) (\<lambda>canary.
          ret (conf\<lparr>cfgEncryption := Some (enc\<lparr>encCanary := canary\<rparr>)\<rparr>,
               MACHasher (DEFAULT_HASHING_ALGORITHM K) key))))"

definition create :: "('w, 'z) ops_api_scheme \<Rightarrow> ExecPayload \<Rightarrow> ('w, Report option \<times> gerror option) prog" where
  "create K input =
     returns (case plSource input of
       None \<Rightarrow> fail (Errorf ''source must be set for create'')
     | Some source \<Rightarrow>
         bind (mkstorage K source) (\<lambda>(store, passphrase, _).
         deferring (ensureClose K KStore store) (
         bind (ok_or_fail (create_compression K (plTaskConfig input))) (\<lambda>compression.
         bind (create_encryption K (plTaskConfig input) passphrase
                ((NewConfiguration K)\<lparr>cfgCompression := compression\<rparr>)) (\<lambda>(conf, hasher).
         bind (ok_or_fail (ConfigToBytes K conf)) (\<lambda>serialized.
         bind (call (Serialize K hasher serialized)) (\<lambda>rd.
         bind (call (ReadAll K rd)) (\<lambda>wrapped.
         bind (call_unit (StoreCreate K (inner store) wrapped)) (\<lambda>_.
         ret (None, None))))))))))"

lemma neutral_create_encryption [keeps_intros]: "neutral (create_encryption K cfg passphrase conf)"
  unfolding create_encryption_def by (rule takes_intros keeps_intros neutral_bind)+

lemma neutral_create [keeps_intros]: "neutral (create K input)"
  unfolding create_def by (rule takes_intros keeps_intros neutral_bind)+

subsection \<open>What create writes\<close>

definition unencrypted :: "smap \<Rightarrow> string \<Rightarrow> bool" where
  "unencrypted cfg pass \<longleftrightarrow> smap_get cfg ''no_encryption'' = ''true'' \<or> pass = ''''"

text \<open>The configuration and the hasher that a task configuration and a passphrase call for.\<close>

definition chosen :: "('w, 'z) ops_api_scheme \<Rightarrow> smap \<Rightarrow> string \<Rightarrow> StoreConfig \<Rightarrow> hasher \<Rightarrow> bool" where
  "chosen K cfg pass conf h \<longleftrightarrow>
     create_compression K cfg = Inr (cfgCompression conf) \<and> cfgRest conf = cfgRest (NewConfiguration K)
     \<and> (if unencrypted cfg pass
        then cfgEncryption conf = None \<and> h = Hasher (DEFAULT_HASHING_ALGORITHM K)
        else (\<exists>enc key canary w w' v v'. cfgEncryption (NewConfiguration K) = Some enc
                \<and> DeriveKey K (encKDFParams enc) pass w = (Inr key, w')
                \<and> DeriveCanary K enc key v = (Inr canary, v')
                \<and> cfgEncryption conf = Some (enc\<lparr>encCanary := canary\<rparr>)
                \<and> h = MACHasher (DEFAULT_HASHING_ALGORITHM K) key))"

text \<open>\<open>wrapped\<close> is a serialisation of \<open>conf\<close>, authenticated by \<open>h\<close>, that a store accepted.\<close>

definition written :: "('w, 'z) ops_api_scheme \<Rightarrow> StoreConfig \<Rightarrow> hasher \<Rightarrow> byte list \<Rightarrow> bool" where
  "written K conf h wrapped \<longleftrightarrow>
     (\<exists>bytes rd w w' v v' store u u'. ConfigToBytes K conf = Inr bytes
        \<and> Serialize K h bytes w = (Inr rd, w') \<and> ReadAll K rd v = (Inr wrapped, v')
        \<and> StoreCreate K store wrapped u = (None, u'))"

definition create_sound :: "('w, 'z) ops_api_scheme \<Rightarrow> ExecPayload \<Rightarrow> Report option \<times> gerror option \<Rightarrow> bool" where
  "create_sound K input r \<longleftrightarrow> fst r = None
     \<and> (snd r \<noteq> None \<or>
        (\<exists>source conf h wrapped. plSource input = Some source
           \<and> chosen K (plTaskConfig input) (smap_get (params source) ''passphrase'') conf h
           \<and> written K conf h wrapped))"

lemma gives_ok_or_fail: "gives (ok_or_fail r) (\<lambda>a. r = Inr a)"
  by (cases r) (simp_all add: ok_or_fail_def gives_leaf)

lemma gives_create_encryption:
  assumes "create_compression K cfg = Inr cmp"
  shows "gives (create_encryption K cfg pass ((NewConfiguration K)\<lparr>cfgCompression := cmp\<rparr>))
     (\<lambda>(conf, h). chosen K cfg pass conf h)"
  unfolding create_encryption_def
proof (rule gives_cases(1), goal_cases)
  case 1
  with assms show ?case by (intro gives_leaf) (simp add: chosen_def unencrypted_def)
next
  case 2
  then have enc: "\<not> unencrypted cfg pass" by (simp add: unencrypted_def)
  show ?case
  proof (rule gives_cases(2), rule gives_leaf, rule gives_call_then, rule gives_call_then, rule gives_leaf, goal_cases)
    case (1 e key w w' canary v v')
    then show ?case using assms enc by (auto simp: chosen_def)
  qed
qed

lemma gives_mkstorage: "gives (mkstorage K conf) (\<lambda>(store, pass, ps). pass = smap_get (params conf) ''passphrase'')"
  unfolding mkstorage_def Let_def by (rule gives_bind_any, rule gives_leaf) simp

lemma gives_create: "gives (create K input) (create_sound K input)"
proof -
  have sound: "create_sound K input (None, None)"
    if "plSource input = Some source" "pass = smap_get (params source) ''passphrase''"
      "chosen K (plTaskConfig input) pass conf h" "ConfigToBytes K conf = Inr bytes"
      "Serialize K h bytes w = (Inr rd, w')" "ReadAll K rd v = (Inr wrapped, v')"
      "StoreCreate K st wrapped u = (None, u')"
    for source pass conf h bytes rd wrapped st w w' v v' u u'
  proof -
    have "written K conf h wrapped" using that(4-) unfolding written_def by blast
    with that(1-3) show ?thesis unfolding create_sound_def by (simp only: fst_conv snd_conv) blast
  qed
  have body: "gives (bind (ok_or_fail (create_compression K (plTaskConfig input))) (\<lambda>compression.
         bind (create_encryption K (plTaskConfig input) pass
                ((NewConfiguration K)\<lparr>cfgCompression := compression\<rparr>)) (\<lambda>(conf, hasher).
         bind (ok_or_fail (ConfigToBytes K conf)) (\<lambda>serialized.
         bind (call (Serialize K hasher serialized)) (\<lambda>rd.
         bind (call (ReadAll K rd)) (\<lambda>wrapped.
         bind (call_unit (StoreCreate K (inner store) wrapped)) (\<lambda>_.
         ret (None, None)))))))) (create_sound K input)"
    if src: "plSource input = Some source" "pass = smap_get (params source) ''passphrase''" for source pass store
  proof (rule gives_bind [OF gives_ok_or_fail], rule gives_bind [OF gives_create_encryption], assumption,
      rule gives_cases(5), rule gives_bind [OF gives_ok_or_fail], rule gives_call_then, rule gives_call_then,
      rule gives_call_unit_then, rule gives_leaf, goal_cases)
    case (1 cmp r conf h bytes rd w w' wrapped v v' u u')
    then show ?case using sound [OF src] by auto
  qed
  show ?thesis
    unfolding create_def
    by (rule gives_returns, rule gives_cases(2), rule gives_leaf, rule gives_bind [OF gives_mkstorage],
        rule gives_cases(5), rule gives_cases(5), rule gives_deferring, rule body)
      (auto simp: create_sound_def)
qed



definition demo_conf :: StoreConfig where
  "demo_conf = \<lparr>cfgCompression = Some 1, cfgEncryption = None, cfgRest = 0\<rparr>"


end
