(* ===== verification/Restore_Op.thy ===== *)
theory Restore_Op
  imports Snapshot_Api
begin

text \<open>
  The restore operation, \<open>restore.go\<close>: one snapshot of a store is exported to a destination. The
  snapshot is the one the task configuration names, or else the latest one its filters match.
\<close>

definition restore_locate :: "LocateOptions \<Rightarrow> LocateOptions" where
  "restore_locate lo =
     (if length (lfIDs (loFilters lo)) \<noteq> 1 then lo\<lparr>loFilters := (loFilters lo)\<lparr>lfLatest := True\<rparr>\<rparr>
      else lo)"

text \<open>The prefix \<open>ExportOptions.Strip\<close>; empty when the path names the snapshot's root.\<close>

definition export_strip :: "string \<Rightarrow> string \<Rightarrow> string" where
  "export_strip pathname relative =
     (if relative \<noteq> '''' then
        (if \<not> has_suffix ''/'' relative then path_dir pathname else pathname)
      else '''')"

definition restore_report :: "Header \<Rightarrow> StoreIO \<Rightarrow> RestoreReport" where
  "restore_report hdr io =
     \<lparr>rrSnapshotID = hdIdentifier hdr, rrTook = hdDuration hdr,
      rrLogicalSize = logical_size (hdSource hdr), rrContent = content_of (hdSource hdr),
      rrErrors = 0, rrStore = io\<rparr>"

definition restore :: "('w, 'z) ops_api_scheme \<Rightarrow> ExecPayload \<Rightarrow> ('w, Report option \<times> gerror option) prog" where
  "restore K input =
     returns (case (plSource input, plTarget input) of
       (Some source, Some target) \<Rightarrow>
         bind (mkexporter K target) (\<lambda>exp.
         deferring (ensureClose K KExporter exp) (
         bind (mkstorage K source) (\<lambda>(store, passphrase, _).
         deferring (ensureClose K KStore store) (
         bind (openrepo K store passphrase) (\<lambda>repo.
         bind (vcall (Now K)) (\<lambda>now.
         let lo = restore_locate (locateOptions (DefaultLocateOptions K) now (plTaskConfig input)) in
         bind (tcall (LocateSnapshotIDs K repo lo)) (\<lambda>r.
         case r of
           Inl e \<Rightarrow> fail (Wrap ''could not fetch snapshots list: '' e)
         | Inr [] \<Rightarrow> fail (Errorf ''no snapshots found'')
         | Inr (_ # _ # _) \<Rightarrow> fail (Errorf ''multiple snapshots found, please specify one'')
         | Inr [sid] \<Rightarrow>
             bind (acquire_snapshot (OpenSnapshotByPathRelative K repo (hex_encode sid @ '':'')))
               (\<lambda>(snap, pathname, relative).
             deferring (close_snapshot K snap) (
             bind (call_unit (SnapExport K snap exp pathname (export_strip pathname relative))) (\<lambda>_.
             bind (look (HeaderOf K snap)) (\<lambda>hdr.
             bind (look (store_io K repo)) (\<lambda>io.
             ret (Some ((Report_of (plOp input))\<lparr>rpRestore := Some (restore_report hdr io)\<rparr>), None)))))))))))))
     | _ \<Rightarrow> fail (Errorf ''source and target must be set for restore''))"

lemma neutral_restore [keeps_intros]: "neutral (restore K input)"
  unfolding restore_def Let_def
  by (rule takes_intros keeps_intros neutral_bind)+

subsection \<open>What a restore exports\<close>

text \<open>One export of the snapshot \<open>sid\<close>, opened by its identifier, that succeeded.\<close>

definition exported :: "('w, 'z) ops_api_scheme \<Rightarrow> nat \<Rightarrow> mac \<Rightarrow> connector \<Rightarrow> nat \<Rightarrow> bool" where
  "exported K repo sid exp snap \<longleftrightarrow>
     (\<exists>pathname relative w w' v v'.
        OpenSnapshotByPathRelative K repo (hex_encode sid @ '':'') w = (Inr (snap, pathname, relative), w')
        \<and> SnapExport K snap exp pathname (export_strip pathname relative) v = (None, v'))"

text \<open>The report of a restore: of the one snapshot that was selected and exported.\<close>

definition restore_sound :: "('w, 'z) ops_api_scheme \<Rightarrow> ExecPayload \<Rightarrow> Report option \<times> gerror option \<Rightarrow> bool" where
  "restore_sound K input r =
     (case r of
        (None, err) \<Rightarrow> err \<noteq> None
      | (Some rep, err) \<Rightarrow> err = None
          \<and> (\<exists>repo sid exp snap now w w' v v'.
               LocateSnapshotIDs K repo
                 (restore_locate (locateOptions (DefaultLocateOptions K) now (plTaskConfig input))) w = (Inr [sid], w')
               \<and> exported K repo sid exp snap
               \<and> rep = (Report_of (plOp input))\<lparr>rpRestore :=
                     Some (restore_report (HeaderOf K snap v) (store_io K repo v'))\<rparr>))"

lemma gives_restore: "gives (restore K input) (restore_sound K input)"
proof -
  have located: "gives (case fst (LocateSnapshotIDs K repo
        (restore_locate (locateOptions (DefaultLocateOptions K) now (plTaskConfig input))) w) of
         Inl e \<Rightarrow> fail (Wrap ''could not fetch snapshots list: '' e)
       | Inr [] \<Rightarrow> fail (Errorf ''no snapshots found'')
       | Inr (_ # _ # _) \<Rightarrow> fail (Errorf ''multiple snapshots found, please specify one'')
       | Inr [sid] \<Rightarrow> one sid) (restore_sound K input)"
    if "\<And>sid. fst (LocateSnapshotIDs K repo
        (restore_locate (locateOptions (DefaultLocateOptions K) now (plTaskConfig input))) w) = Inr [sid]
        \<Longrightarrow> gives (one sid) (restore_sound K input)"
    for repo now w and one :: "mac \<Rightarrow> ('a, Report option \<times> gerror option) prog"
    by (intro gives_cases gives_leaf) (use that in \<open>auto simp: restore_sound_def\<close>)
  have export: "gives (bind (acquire_snapshot (OpenSnapshotByPathRelative K repo (hex_encode sid @ '':'')))
               (\<lambda>(snap, pathname, relative).
             deferring (close_snapshot K snap) (
             bind (call_unit (SnapExport K snap exp pathname (export_strip pathname relative))) (\<lambda>_.
             bind (look (HeaderOf K snap)) (\<lambda>hdr.
             bind (look (store_io K repo)) (\<lambda>io.
             ret (Some ((Report_of (plOp input))\<lparr>rpRestore := Some (restore_report hdr io)\<rparr>), None))))))) (restore_sound K input)"
    if "fst (LocateSnapshotIDs K repo
        (restore_locate (locateOptions (DefaultLocateOptions K) now (plTaskConfig input))) w) = Inr [sid]"
    for repo now w sid exp
  proof -
    have sel: "LocateSnapshotIDs K repo (restore_locate (locateOptions (DefaultLocateOptions K) now (plTaskConfig input))) w
        = (Inr [sid], snd (LocateSnapshotIDs K repo (restore_locate (locateOptions (DefaultLocateOptions K) now (plTaskConfig input))) w))"
      using that by (simp add: prod_eq_iff)
    have Q: "restore_sound K input (Some ((Report_of (plOp input))\<lparr>rpRestore := Some (restore_report (HeaderOf K snap v) (store_io K repo v'))\<rparr>), None)"
      if "OpenSnapshotByPathRelative K repo (hex_encode sid @ '':'') w1 = (Inr (snap, pathname, relative), w2)"
        "SnapExport K snap exp pathname (export_strip pathname relative) v1 = (None, v2)"
      for snap pathname relative w1 w2 v1 v2 v v'
    proof -
      have "exported K repo sid exp snap" using that unfolding exported_def by blast
      with sel show ?thesis unfolding restore_sound_def by (simp only: prod.case option.case) blast
    qed
    show ?thesis
      by (rule gives_acquire_snapshot_then, rule gives_cases(5), rule gives_cases(5), rule gives_deferring,
          rule gives_call_unit_then, rule gives_total_then, rule gives_total_then, rule gives_leaf, rule Q)
        simp_all
  qed
  show ?thesis
    unfolding restore_def Let_def
    by (rule gives_returns, rule gives_cases(5), rule gives_cases(2), rule gives_leaf,
        rule gives_cases(2), rule gives_leaf,
        rule gives_bind_any, rule gives_deferring, rule gives_bind_any, rule gives_cases(5), rule gives_cases(5),
        rule gives_deferring, rule gives_bind_any, rule gives_total_then, rule gives_total_then,
        rule located, rule export, assumption) (simp add: restore_sound_def)
qed


text \<open>
  The options a restore selects with: those of the task configuration, but limited to the
  latest match unless exactly one identifier is named.
\<close>

lemma restore_locate_cases:
  "restore_locate lo = lo \<and> length (lfIDs (loFilters lo)) = 1
   \<or> lfLatest (loFilters (restore_locate lo)) \<and> length (lfIDs (loFilters lo)) \<noteq> 1"
  by (simp add: restore_locate_def)

end
