(* ===== verification/Schedules.thy ===== *)
theory Schedules
  imports Main
begin

text \<open>
  Goroutines that interleave. A group of goroutines is a state and the list of states one
  atomic step of one of them leads to; a schedule picks a step each time. \<open>sched_run\<close> follows a
  schedule for at most \<open>n\<close> steps. The locale states what a group needs for all its schedules to
  end well: a rank that every step lowers, an invariant, and that a state where nobody can move
  is a good one.
\<close>

primrec sched_run :: "('s \<Rightarrow> 's list) \<Rightarrow> nat \<Rightarrow> (nat \<Rightarrow> nat) \<Rightarrow> 's \<Rightarrow> 's" where
  "sched_run succs 0 ch s = s"
| "sched_run succs (Suc n) ch s =
     (case succs s of
        [] \<Rightarrow> s
      | ss \<Rightarrow> sched_run succs n (\<lambda>i. ch (Suc i)) (ss ! (ch 0 mod length ss)))"

text \<open>The states a group can reach by some interleaving.\<close>

inductive reaches :: "('s \<Rightarrow> 's list) \<Rightarrow> 's \<Rightarrow> 's \<Rightarrow> bool" for succs where
  here: "reaches succs s s"
| step: "reaches succs s s' \<Longrightarrow> s'' \<in> set (succs s') \<Longrightarrow> reaches succs s s''"

inductive_cases reachesE: "reaches succs s s'"

lemma reaches_trans: "reaches succs s' s'' \<Longrightarrow> reaches succs s s' \<Longrightarrow> reaches succs s s''"
  by (induction rule: reaches.induct) (auto intro: reaches.step)

lemma reaches_first: "s' \<in> set (succs s) \<Longrightarrow> reaches succs s' s'' \<Longrightarrow> reaches succs s s''"
  by (rule reaches_trans) (auto intro: reaches.intros)

lemma choice_in: "ss \<noteq> [] \<Longrightarrow> ss ! (c mod length ss) \<in> set ss"
  by simp

lemma sched_run_reaches: "reaches succs s (sched_run succs n ch s)"
proof (induction n arbitrary: ch s)
  case 0
  then show ?case by (simp add: reaches.here)
next
  case (Suc n)
  show ?case
  proof (cases "succs s")
    case Nil
    then show ?thesis by (simp add: reaches.here)
  next
    case (Cons x xs)
    then have "succs s ! (ch 0 mod length (succs s)) \<in> set (succs s)" by (intro choice_in) simp
    from reaches_first [OF this Suc.IH] show ?thesis by (simp add: Cons split: list.split)
  qed
qed

lemma sched_run_stuck: "succs s = [] \<Longrightarrow> sched_run succs n ch s = s"
  by (cases n) simp_all

locale scheduled =
  fixes succs :: "'s \<Rightarrow> 's list"
    and rank :: "'s \<Rightarrow> nat"
    and inv :: "'s \<Rightarrow> bool"
    and final :: "'s \<Rightarrow> bool"
  assumes lowers: "inv s \<Longrightarrow> s' \<in> set (succs s) \<Longrightarrow> rank s' < rank s"
    and keeps: "inv s \<Longrightarrow> s' \<in> set (succs s) \<Longrightarrow> inv s'"
    and stuck: "inv s \<Longrightarrow> succs s = [] \<Longrightarrow> final s"
begin

lemma inv_reaches: "reaches succs s s' \<Longrightarrow> inv s \<Longrightarrow> inv s'"
  by (induction rule: reaches.induct) (auto dest: keeps)

lemma run_ends:
  assumes "inv s" and "rank s \<le> n"
  shows "succs (sched_run succs n ch s) = []"
  using assms
proof (induction n arbitrary: ch s)
  case 0
  then show ?case using lowers [of s] by (cases "succs s") fastforce+
next
  case (Suc n)
  show ?case
  proof (cases "succs s = []")
    case False
    then have next_in: "succs s ! (ch 0 mod length (succs s)) \<in> set (succs s)" by (rule choice_in)
    have "rank (succs s ! (ch 0 mod length (succs s))) \<le> n"
      using lowers [OF Suc.prems(1) next_in] Suc.prems(2) by simp
    from Suc.IH [OF keeps [OF Suc.prems(1) next_in] this] False show ?thesis
      by (cases "succs s") simp_all
  qed simp
qed

lemma run_final:
  assumes "inv s" and "rank s \<le> n"
  shows "inv (sched_run succs n ch s) \<and> final (sched_run succs n ch s)"
  using inv_reaches [OF sched_run_reaches assms(1)] run_ends [OF assms] stuck by blast

text \<open>A state that is not final can always move.\<close>

lemma progress:
  assumes "reaches succs s s'" and "inv s" and "\<not> final s'"
  shows "\<exists>s''. s'' \<in> set (succs s')"
  using inv_reaches [OF assms(1,2)] stuck [of s'] assms(3)
  by (cases "succs s'") (auto intro: exI list.set_intros)

end

text \<open>Every interleaving is some schedule: nothing is lost by running schedules.\<close>

lemma reaches_schedule:
  assumes "reaches succs s s'"
  shows "\<exists>n ch. s' = sched_run succs n ch s"
proof -
  have ex: "\<exists>ch. sched_run succs (n + 1) ch s = s''"
    if "sched_run succs n ch s = s'" "s'' \<in> set (succs s')" for n ch s s' s''
    using that
  proof (induction n arbitrary: ch s)
    case 0
    then obtain i where "i < length (succs s')" "succs s' ! i = s''" by (auto simp: in_set_conv_nth)
    with 0 show ?case by (intro exI [of _ "\<lambda>_. i"]) (auto split: list.split)
  next
    case (Suc n)
    show ?case
    proof (cases "succs s = []")
      case True
      with Suc.prems show ?thesis by simp
    next
      case False
      then obtain ch' where "sched_run succs (n + 1) ch' (succs s ! (ch 0 mod length (succs s))) = s''"
        using Suc by (cases "succs s") auto
      with False show ?thesis
        by (intro exI [of _ "\<lambda>i. case i of 0 \<Rightarrow> ch 0 | Suc j \<Rightarrow> ch' j"]) (auto split: list.split)
    qed
  qed
  show ?thesis using assms
  proof (induction rule: reaches.induct)
    case (here s)
    then show ?case by (intro exI [of _ 0]) simp
  next
    case (step s s' s'')
    then show ?case using ex by blast
  qed
qed

end
