(* ===== verification/Rm_Op.thy ===== *)
theory Rm_Op
  imports Snapshot_Api Schedules
begin

text \<open>
  The rm operation, \<open>rm.go\<close>: snapshots are removed by a pool of workers fed from a buffered
  channel; a collector gathers the removed ones from an unbuffered channel. The pool is a state
  machine whose steps are the channel operations and the calls of \<open>DeleteSnapshot\<close>; \<open>rm\<close> runs it
  under a schedule.
\<close>

subsection \<open>Snapshot identifiers\<close>

text \<open>The text of the error of \<open>hex.DecodeString\<close>: the first byte that is not a digit, or an odd length.\<close>

definition rune_text :: "char \<Rightarrow> string" where
  "rune_text c =
     (let n = of_char c :: nat; code = ''U+00'' @ to_upper (hex_byte (word_of_nat n)) in
      if 32 \<le> n \<and> n < 127 then code @ '' '' @ [CHR 0x27, c, CHR 0x27]
      else if 160 < n \<and> n \<noteq> 173 then
        code @ '' '' @ [CHR 0x27, char_of (192 + n div 64), char_of (128 + n mod 64), CHR 0x27]
      else code)"

definition hex_error :: "string \<Rightarrow> string" where
  "hex_error s =
     (case find (\<lambda>c. hex_val c = None) s of
        Some c \<Rightarrow> ''encoding/hex: invalid byte: '' @ rune_text c
      | None \<Rightarrow> ''encoding/hex: odd length hex string'')"

fun parse_loop :: "nat \<Rightarrow> string list \<Rightarrow> mac list \<Rightarrow> gerror + mac list" where
  "parse_loop len [] macs = Inr macs"
| "parse_loop len (sid # ids) macs =
     (case hex_decode sid of
        None \<Rightarrow> Inl (Wrap (''invalid snapshot id '' @ quoted sid @ '': '') (External (hex_error sid)))
      | Some raw \<Rightarrow>
          if length raw \<noteq> len
          then Inl (Errorf (''invalid snapshot id '' @ quoted sid @ '': expected '' @ dec_nat len @ '' bytes''))
          else parse_loop len ids (macs @ [raw]))"

definition parseSnapshotIDs :: "nat \<Rightarrow> string list \<Rightarrow> gerror + mac list" where
  "parseSnapshotIDs len ids = parse_loop len ids []"

subsection \<open>The worker pool\<close>

text \<open>
  \<open>WGot\<close>: an identifier was received from \<open>rmq\<close>; \<open>WSend\<close>: it was removed and is being sent on
  \<open>removed\<close>; \<open>WDone\<close>: \<open>rmq\<close> was closed and drained. \<open>plLog\<close> is bookkeeping: the calls of
  \<open>DeleteSnapshot\<close> in their order, with their success.
\<close>

datatype worker = WIdle | WGot mac | WSend mac | WDone

record 'w pool =
  plWorld :: 'w
  plFeed :: "mac list"
  plClosed :: bool
  plQueue :: "mac list"
  plWorkers :: "worker list"
  plRemovedClosed :: bool
  plCollecting :: bool
  plSnapshotIDs :: "mac list"
  plErrors :: u64
  plLog :: "(mac \<times> bool) list"

definition pool_init :: "nat \<Rightarrow> mac list \<Rightarrow> 'w \<Rightarrow> 'w pool" where
  "pool_init n ids w =
     \<lparr>plWorld = w, plFeed = ids, plClosed = False, plQueue = [], plWorkers = replicate n WIdle,
      plRemovedClosed = False, plCollecting = True, plSnapshotIDs = [], plErrors = 0, plLog = []\<rparr>"

text \<open>
  The main goroutine: it sends on \<open>rmq\<close> while there is room, closes it, waits for the workers
  and closes \<open>removed\<close>.
\<close>

definition main_steps :: "nat \<Rightarrow> 'w pool \<Rightarrow> 'w pool list" where
  "main_steps cap p =
     (case plFeed p of
        sid # rest \<Rightarrow>
          if length (plQueue p) < cap then [p\<lparr>plFeed := rest, plQueue := plQueue p @ [sid]\<rparr>] else []
      | [] \<Rightarrow>
          if \<not> plClosed p then [p\<lparr>plClosed := True\<rparr>]
          else if (\<forall>x \<in> set (plWorkers p). x = WDone) \<and> \<not> plRemovedClosed p then [p\<lparr>plRemovedClosed := True\<rparr>]
          else [])"

definition set_worker :: "nat \<Rightarrow> worker \<Rightarrow> 'w pool \<Rightarrow> 'w pool" where
  "set_worker i x p = p\<lparr>plWorkers := (plWorkers p)[i := x]\<rparr>"

definition worker_steps :: "('w, 'z) ops_api_scheme \<Rightarrow> nat \<Rightarrow> nat \<Rightarrow> 'w pool \<Rightarrow> 'w pool list" where
  "worker_steps K repo i p =
     (case plWorkers p ! i of
        WIdle \<Rightarrow>
          (case plQueue p of
             sid # rest \<Rightarrow> [set_worker i (WGot sid) (p\<lparr>plQueue := rest\<rparr>)]
           | [] \<Rightarrow> if plClosed p then [set_worker i WDone p] else [])
      | WGot sid \<Rightarrow>
          (case DeleteSnapshot K repo sid (plWorld p) of
             (Some _, w) \<Rightarrow>
               [set_worker i WIdle (p\<lparr>plWorld := w, plErrors := plErrors p + 1, plLog := plLog p @ [(sid, False)]\<rparr>)]
           | (None, w) \<Rightarrow> [set_worker i (WSend sid) (p\<lparr>plWorld := w, plLog := plLog p @ [(sid, True)]\<rparr>)])
      | WSend sid \<Rightarrow>
          if plCollecting p then [set_worker i WIdle (p\<lparr>plSnapshotIDs := plSnapshotIDs p @ [sid]\<rparr>)] else []
      | WDone \<Rightarrow> [])"

definition collector_steps :: "'w pool \<Rightarrow> 'w pool list" where
  "collector_steps p =
     (if plCollecting p \<and> plRemovedClosed p then [p\<lparr>plCollecting := False\<rparr>] else [])"

definition pool_succs :: "('w, 'z) ops_api_scheme \<Rightarrow> nat \<Rightarrow> nat \<Rightarrow> 'w pool \<Rightarrow> 'w pool list" where
  "pool_succs K repo cap p =
     main_steps cap p
     @ concat (map (\<lambda>i. worker_steps K repo i p) [0..<length (plWorkers p)])
     @ collector_steps p"

definition pool_finished :: "'w pool \<Rightarrow> bool" where
  "pool_finished p \<longleftrightarrow> plRemovedClosed p \<and> \<not> plCollecting p"

subsection \<open>Every schedule of the pool ends\<close>

fun worker_rank :: "worker \<Rightarrow> nat" where
  "worker_rank WIdle = 1"
| "worker_rank (WGot _) = 3"
| "worker_rank (WSend _) = 2"
| "worker_rank WDone = 0"

definition pool_rank :: "'w pool \<Rightarrow> nat" where
  "pool_rank p =
     4 * length (plFeed p) + 3 * length (plQueue p) + sum_list (map worker_rank (plWorkers p))
     + (if plClosed p then 0 else 1) + (if plRemovedClosed p then 0 else 1)
     + (if plCollecting p then 1 else 0)"

subsection \<open>The operation\<close>

definition rm_pool :: "('w, 'z) ops_api_scheme \<Rightarrow> (nat \<Rightarrow> nat) \<Rightarrow> nat \<Rightarrow> nat \<Rightarrow> mac list \<Rightarrow> ('w, RmReport) prog" where
  "rm_pool K ch n repo snapshotIDs s =
     (let p0 = pool_init n snapshotIDs (world s);
          p = sched_run (pool_succs K repo n) (pool_rank p0) ch p0
      in if pool_finished p
         then (Ret \<lparr>rmErrors = plErrors p, rmSnapshotIDs = plSnapshotIDs p\<rparr>, s\<lparr>world := plWorld p\<rparr>)
         else (Hang, s\<lparr>world := plWorld p\<rparr>))"

definition rm :: "('w, 'z) ops_api_scheme \<Rightarrow> (nat \<Rightarrow> nat) \<Rightarrow> ExecPayload \<Rightarrow> ('w, Report option \<times> gerror option) prog" where
  "rm K ch input =
     returns (case plSource input of
       None \<Rightarrow> fail (Errorf ''source must be set for rm'')
     | Some source \<Rightarrow>
         bind (ok_or_fail (parseSnapshotIDs (MacLength K) (indexedList (plTaskConfig input) ''snapshot_ids'')))
           (\<lambda>snapshotIDs.
         if snapshotIDs = [] then
           ret (Some ((Report_of ''rm'')\<lparr>rpRm := Some \<lparr>rmErrors = 0, rmSnapshotIDs = []\<rparr>\<rparr>), None)
         else
         bind (mkstorage K source) (\<lambda>(store, passphrase, _).
         deferring (ensureClose K KStore store) (
         bind (openrepo K store passphrase) (\<lambda>repo.
         if sint (MaxConcurrency K) < 0 then panic ''makechan: size out of range''
         else
         bind (rm_pool K ch (unat (MaxConcurrency K)) repo snapshotIDs) (\<lambda>rp.
         ret (Some ((Report_of ''rm'')\<lparr>rpRm := Some rp\<rparr>), None)))))))"

lemma neutral_rm_pool [keeps_intros]: "neutral (rm_pool K ch n repo ids)"
  by (simp add: flow_def rm_pool_def Let_def)

lemma neutral_rm [keeps_intros]: "neutral (rm K ch input)"
  unfolding rm_def by (rule takes_intros keeps_intros neutral_bind)+

subsection \<open>The steps of the pool\<close>

lemma pool_step_cases [consumes 1,
    case_names Feed Close CloseRemoved Receive Leave Failed Removed Collect Stop]:
  assumes "p' \<in> set (pool_succs K repo cap p)"
  obtains
    (Feed) sid rest where "plFeed p = sid # rest" "length (plQueue p) < cap"
      "p' = p\<lparr>plFeed := rest, plQueue := plQueue p @ [sid]\<rparr>"
  | (Close) "plFeed p = []" "\<not> plClosed p" "p' = p\<lparr>plClosed := True\<rparr>"
  | (CloseRemoved) "plFeed p = []" "plClosed p" "\<forall>x \<in> set (plWorkers p). x = WDone" "\<not> plRemovedClosed p"
      "p' = p\<lparr>plRemovedClosed := True\<rparr>"
  | (Receive) i sid rest where "i < length (plWorkers p)" "plWorkers p ! i = WIdle" "plQueue p = sid # rest"
      "p' = set_worker i (WGot sid) (p\<lparr>plQueue := rest\<rparr>)"
  | (Leave) i where "i < length (plWorkers p)" "plWorkers p ! i = WIdle" "plQueue p = []" "plClosed p"
      "p' = set_worker i WDone p"
  | (Failed) i sid e w where "i < length (plWorkers p)" "plWorkers p ! i = WGot sid"
      "DeleteSnapshot K repo sid (plWorld p) = (Some e, w)"
      "p' = set_worker i WIdle (p\<lparr>plWorld := w, plErrors := plErrors p + 1, plLog := plLog p @ [(sid, False)]\<rparr>)"
  | (Removed) i sid w where "i < length (plWorkers p)" "plWorkers p ! i = WGot sid"
      "DeleteSnapshot K repo sid (plWorld p) = (None, w)"
      "p' = set_worker i (WSend sid) (p\<lparr>plWorld := w, plLog := plLog p @ [(sid, True)]\<rparr>)"
  | (Collect) i sid where "i < length (plWorkers p)" "plWorkers p ! i = WSend sid" "plCollecting p"
      "p' = set_worker i WIdle (p\<lparr>plSnapshotIDs := plSnapshotIDs p @ [sid]\<rparr>)"
  | (Stop) "plCollecting p" "plRemovedClosed p" "p' = p\<lparr>plCollecting := False\<rparr>"
proof -
  consider (main) "p' \<in> set (main_steps cap p)"
    | (worker) i where "i < length (plWorkers p)" "p' \<in> set (worker_steps K repo i p)"
    | (collector) "p' \<in> set (collector_steps p)"
    using assms by (auto simp: pool_succs_def)
  then show thesis
  proof cases
    case main
    then show thesis
      using Feed Close CloseRemoved by (auto simp: main_steps_def split: list.splits if_splits)
  next
    case worker
    then show thesis
    proof (cases "plWorkers p ! i")
      case WIdle
      with worker Receive [of i] Leave [of i] show thesis
        by (auto simp: worker_steps_def split: list.splits if_splits)
    next
      case (WGot sid)
      obtain r w where del: "DeleteSnapshot K repo sid (plWorld p) = (r, w)" by fastforce
      with WGot worker Failed [of i sid _ w] Removed [of i sid w] show thesis
        by (cases r) (simp_all add: worker_steps_def)
    next
      case (WSend sid)
      with worker Collect [of i sid] show thesis by (auto simp: worker_steps_def split: if_splits)
    next
      case WDone
      with worker show thesis by (simp add: worker_steps_def)
    qed
  next
    case collector
    then show thesis using Stop by (auto simp: collector_steps_def split: if_splits)
  qed
qed

subsection \<open>The pool's invariant\<close>

fun got :: "worker \<Rightarrow> mac multiset" where
  "got (WGot sid) = {#sid#}"
| "got _ = {#}"

fun sending :: "worker \<Rightarrow> mac multiset" where
  "sending (WSend sid) = {#sid#}"
| "sending _ = {#}"

text \<open>\<open>deletes\<close>: the calls of a log, made one after the other, had the outcomes it records.\<close>

fun deletes :: "('w, 'z) ops_api_scheme \<Rightarrow> nat \<Rightarrow> 'w \<Rightarrow> (mac \<times> bool) list \<Rightarrow> 'w \<Rightarrow> bool" where
  "deletes K repo w [] w' \<longleftrightarrow> w = w'"
| "deletes K repo w ((sid, ok) # log) w' \<longleftrightarrow>
     (ok \<longleftrightarrow> fst (DeleteSnapshot K repo sid w) = None)
     \<and> deletes K repo (snd (DeleteSnapshot K repo sid w)) log w'"

lemma deletes_append:
  "deletes K repo w (log @ [(sid, ok)]) w'
     \<longleftrightarrow> (\<exists>w1. deletes K repo w log w1 \<and> (ok \<longleftrightarrow> fst (DeleteSnapshot K repo sid w1) = None)
           \<and> snd (DeleteSnapshot K repo sid w1) = w')"
  by (induction K repo w log w' rule: deletes.induct) auto

definition succeeded :: "(mac \<times> bool) list \<Rightarrow> mac list" where
  "succeeded log = map fst (filter snd log)"

definition failures :: "(mac \<times> bool) list \<Rightarrow> nat" where
  "failures log = length (filter (\<lambda>(_, ok). \<not> ok) log)"

definition accounts :: "('w, 'z) ops_api_scheme \<Rightarrow> nat \<Rightarrow> mac list \<Rightarrow> 'w \<Rightarrow> 'w pool \<Rightarrow> bool" where
  "accounts K repo ids w0 p \<longleftrightarrow>
     mset ids = mset (plFeed p) + mset (plQueue p) + sum_list (map got (plWorkers p))
                + mset (map fst (plLog p))
     \<and> mset (succeeded (plLog p)) = mset (plSnapshotIDs p) + sum_list (map sending (plWorkers p))
     \<and> plErrors p = of_nat (failures (plLog p))
     \<and> deletes K repo w0 (plLog p) (plWorld p)"

definition pool_shape :: "nat \<Rightarrow> 'w pool \<Rightarrow> bool" where
  "pool_shape n p \<longleftrightarrow>
     length (plWorkers p) = n
     \<and> (plClosed p \<longrightarrow> plFeed p = [])
     \<and> (WDone \<in> set (plWorkers p) \<longrightarrow> plClosed p \<and> plQueue p = [])
     \<and> (plRemovedClosed p \<longrightarrow> plClosed p \<and> (\<forall>x \<in> set (plWorkers p). x = WDone))
     \<and> (\<not> plCollecting p \<longrightarrow> plRemovedClosed p)"

lemma sum_list_update_add:
  fixes f :: "'a \<Rightarrow> 'b::comm_monoid_add"
  shows "i < length xs \<Longrightarrow> sum_list (map f (xs[i := y])) + f (xs ! i) = sum_list (map f xs) + f y"
  by (induction xs arbitrary: i) (auto simp: add_ac nth_Cons split: nat.splits)

lemma set_worker_sums:
  assumes "i < length (plWorkers p)"
  shows "sum_list (map got (plWorkers (set_worker i x p))) + got (plWorkers p ! i)
           = sum_list (map got (plWorkers p)) + got x"
    and "sum_list (map sending (plWorkers (set_worker i x p))) + sending (plWorkers p ! i)
           = sum_list (map sending (plWorkers p)) + sending x"
    and "sum_list (map worker_rank (plWorkers (set_worker i x p))) + worker_rank (plWorkers p ! i)
           = sum_list (map worker_rank (plWorkers p)) + worker_rank x"
  using assms by (simp_all add: set_worker_def sum_list_update_add)

lemma set_worker_fields [simp]:
  "plWorld (set_worker i x p) = plWorld p" "plFeed (set_worker i x p) = plFeed p"
  "plClosed (set_worker i x p) = plClosed p" "plQueue (set_worker i x p) = plQueue p"
  "plRemovedClosed (set_worker i x p) = plRemovedClosed p" "plCollecting (set_worker i x p) = plCollecting p"
  "plSnapshotIDs (set_worker i x p) = plSnapshotIDs p" "plErrors (set_worker i x p) = plErrors p"
  "plLog (set_worker i x p) = plLog p" "length (plWorkers (set_worker i x p)) = length (plWorkers p)"
  by (simp_all add: set_worker_def)

lemma pool_lowers:
  assumes "p' \<in> set (pool_succs K repo cap p)"
  shows "pool_rank p' < pool_rank p"
  using assms
proof (cases rule: pool_step_cases)
  case (Receive i sid rest)
  then show ?thesis using set_worker_sums(3) [of i "p\<lparr>plQueue := rest\<rparr>" "WGot sid"] by (simp add: pool_rank_def)
next
  case (Leave i)
  then show ?thesis using set_worker_sums(3) [of i p WDone] by (simp add: pool_rank_def)
next
  case (Failed i sid e w)
  then show ?thesis using set_worker_sums(3) [of i
      "p\<lparr>plWorld := w, plErrors := plErrors p + 1, plLog := plLog p @ [(sid, False)]\<rparr>" WIdle]
    by (simp add: pool_rank_def)
next
  case (Removed i sid w)
  then show ?thesis using set_worker_sums(3) [of i
      "p\<lparr>plWorld := w, plLog := plLog p @ [(sid, True)]\<rparr>" "WSend sid"] by (simp add: pool_rank_def)
next
  case (Collect i sid)
  then show ?thesis using set_worker_sums(3) [of i
      "p\<lparr>plSnapshotIDs := plSnapshotIDs p @ [sid]\<rparr>" WIdle] by (simp add: pool_rank_def)
qed (simp_all add: pool_rank_def)

lemma log_sums [simp]:
  "succeeded (log @ [(sid, ok)]) = succeeded log @ (if ok then [sid] else [])"
  "failures (log @ [(sid, ok)]) = failures log + (if ok then 0 else 1)"
  "succeeded [] = []" "failures [] = 0"
  by (simp_all add: succeeded_def failures_def)

lemma accounts_step:
  assumes "p' \<in> set (pool_succs K repo cap p)" and "accounts K repo ids w0 p"
  shows "accounts K repo ids w0 p'"
  using assms(1)
proof (cases rule: pool_step_cases)
  case (Receive i sid rest)
  then show ?thesis using assms(2) set_worker_sums(1,2) [of i "p\<lparr>plQueue := rest\<rparr>" "WGot sid"]
    by (simp add: accounts_def)
next
  case (Leave i)
  then show ?thesis using assms(2) set_worker_sums(1,2) [of i p WDone] by (simp add: accounts_def)
next
  case (Failed i sid e w)
  then show ?thesis using assms(2) set_worker_sums(1,2) [of i
      "p\<lparr>plWorld := w, plErrors := plErrors p + 1, plLog := plLog p @ [(sid, False)]\<rparr>" WIdle]
    by (auto simp: accounts_def deletes_append)
next
  case (Removed i sid w)
  then show ?thesis using assms(2) set_worker_sums(1,2) [of i
      "p\<lparr>plWorld := w, plLog := plLog p @ [(sid, True)]\<rparr>" "WSend sid"]
    by (auto simp: accounts_def deletes_append)
next
  case (Collect i sid)
  then show ?thesis using assms(2) set_worker_sums(1,2) [of i
      "p\<lparr>plSnapshotIDs := plSnapshotIDs p @ [sid]\<rparr>" WIdle] by (simp add: accounts_def)
qed (use assms(2) in \<open>simp_all add: accounts_def\<close>)

lemma pool_shape_worker:
  assumes "pool_shape n p" and "i < length (plWorkers p)" and "plWorkers p ! i \<noteq> WDone"
    and "x \<noteq> WDone"
  shows "pool_shape n (p\<lparr>plWorkers := (plWorkers p)[i := x]\<rparr>)" and "\<not> plRemovedClosed p"
proof -
  show not_removed: "\<not> plRemovedClosed p"
    using assms nth_mem [OF assms(2)] by (auto simp: pool_shape_def)
  have "WDone \<in> set ((plWorkers p)[i := x]) \<Longrightarrow> WDone \<in> set (plWorkers p)"
    using set_update_subset_insert [of "plWorkers p" i x] assms(4) by auto
  with assms(1) not_removed show "pool_shape n (p\<lparr>plWorkers := (plWorkers p)[i := x]\<rparr>)"
    by (auto simp: pool_shape_def)
qed

lemma pool_shape_step:
  assumes "p' \<in> set (pool_succs K repo cap p)" and "pool_shape n p"
  shows "pool_shape n p'"
  using assms(1)
proof (cases rule: pool_step_cases)
  case (Receive i sid rest)
  from pool_shape_worker [OF assms(2) Receive(1), of "WGot sid"] Receive show ?thesis
    by (simp add: set_worker_def pool_shape_def)
next
  case (Leave i)
  then have "\<not> plRemovedClosed p"
    using pool_shape_worker(2) [OF assms(2) Leave(1), of WIdle] by simp
  with Leave assms(2) show ?thesis by (simp add: set_worker_def pool_shape_def)
next
  case (Failed i sid e w)
  from pool_shape_worker [OF assms(2) Failed(1), of WIdle] Failed show ?thesis
    by (simp add: set_worker_def pool_shape_def)
next
  case (Removed i sid w)
  from pool_shape_worker [OF assms(2) Removed(1), of "WSend sid"] Removed show ?thesis
    by (simp add: set_worker_def pool_shape_def)
next
  case (Collect i sid)
  from pool_shape_worker [OF assms(2) Collect(1), of WIdle] Collect show ?thesis
    by (simp add: set_worker_def pool_shape_def)
next
  case (Feed sid rest)
  with assms(2) have "\<not> plClosed p" by (auto simp: pool_shape_def)
  with Feed assms(2) show ?thesis by (auto simp: pool_shape_def)
next
  case Close
  with assms(2) show ?thesis by (auto simp: pool_shape_def)
next
  case CloseRemoved
  with assms(2) show ?thesis by (simp add: pool_shape_def)
next
  case Stop
  with assms(2) show ?thesis by (simp add: pool_shape_def)
qed

lemma pool_stuck:
  assumes "pool_shape n p" and "0 < n" and "pool_succs K repo n p = []"
  shows "pool_finished p"
proof (rule ccontr)
  assume unfinished: "\<not> pool_finished p"
  have main: "main_steps n p = []" and coll: "collector_steps p = []"
    and work: "i < length (plWorkers p) \<Longrightarrow> worker_steps K repo i p = []" for i
    using assms(3) by (auto simp: pool_succs_def)
  have len: "length (plWorkers p) = n" using assms(1) by (simp add: pool_shape_def)
  have on: "plCollecting p" "\<not> plRemovedClosed p"
    using unfinished coll assms(1) by (auto simp: collector_steps_def pool_finished_def pool_shape_def)
  have each: "x = WDone \<or> x = WIdle \<and> plQueue p = [] \<and> \<not> plClosed p" if member: "x \<in> set (plWorkers p)" for x
  proof -
    obtain i where i: "i < length (plWorkers p)" "plWorkers p ! i = x"
      using in_set_conv_nth [THEN iffD1, OF member] by auto
    have stuck_i: "worker_steps K repo i p = []" by (rule work [OF i(1)])
    show ?thesis
    proof (cases x)
      case WIdle
      with stuck_i i show ?thesis by (auto simp: worker_steps_def split: list.splits if_splits)
    next
      case (WGot sid)
      with stuck_i i show ?thesis
        by (cases "DeleteSnapshot K repo sid (plWorld p)"; cases "fst (DeleteSnapshot K repo sid (plWorld p))")
          (simp_all add: worker_steps_def)
    next
      case (WSend sid)
      with stuck_i i on show ?thesis by (simp add: worker_steps_def)
    qed simp
  qed
  obtain x where x: "x \<in> set (plWorkers p)" using len assms(2) by (cases "plWorkers p") auto
  have closed: "plClosed p"
  proof (rule ccontr)
    assume not_closed: "\<not> plClosed p"
    then have "x \<noteq> WDone" using x assms(1) by (auto simp: pool_shape_def)
    with each [OF x] have "plQueue p = []" by simp
    with main not_closed assms(2) show False by (cases "plFeed p") (simp_all add: main_steps_def)
  qed
  with each have "\<forall>x \<in> set (plWorkers p). x = WDone" by blast
  moreover have "plFeed p = []" using closed assms(1) by (simp add: pool_shape_def)
  ultimately show False using main closed on by (simp add: main_steps_def)
qed

subsection \<open>The pool under every schedule\<close>

definition pool_inv :: "('w, 'z) ops_api_scheme \<Rightarrow> nat \<Rightarrow> nat \<Rightarrow> mac list \<Rightarrow> 'w \<Rightarrow> 'w pool \<Rightarrow> bool" where
  "pool_inv K repo n ids w0 p \<longleftrightarrow> 0 < n \<and> pool_shape n p \<and> accounts K repo ids w0 p"

interpretation rm_workers: scheduled "pool_succs K repo n" pool_rank "pool_inv K repo n ids w0" pool_finished
  for K :: "('w, 'z) ops_api_scheme" and repo n ids w0
proof
  fix p p' :: "'w pool"
  assume inv: "pool_inv K repo n ids w0 p"
  {
    assume step: "p' \<in> set (pool_succs K repo n p)"
    then show "pool_rank p' < pool_rank p" by (rule pool_lowers)
    from step inv show "pool_inv K repo n ids w0 p'"
      by (auto simp: pool_inv_def intro: pool_shape_step accounts_step)
  }
  assume "pool_succs K repo n p = []"
  with inv show "pool_finished p" by (auto simp: pool_inv_def intro: pool_stuck)
qed

lemma no_work: "sum_list (replicate n {#}) = {#}"
  by (induction n) simp_all

lemma pool_inv_init: "0 < n \<Longrightarrow> pool_inv K repo n ids w (pool_init n ids w)"
  by (auto simp: pool_inv_def pool_shape_def accounts_def pool_init_def no_work)

lemma pool_idle_sums:
  assumes "\<forall>x \<in> set ws. x = WDone"
  shows "sum_list (map got ws) = {#}" and "sum_list (map sending ws) = {#}"
  using assms by (induction ws) auto

lemma rm_pool_outcome:
  assumes "0 < n"
  shows "\<exists>log w rp. rm_pool K ch n repo ids s = (Ret rp, s\<lparr>world := w\<rparr>)
     \<and> mset (map fst log) = mset ids \<and> deletes K repo (world s) log w
     \<and> mset (rmSnapshotIDs rp) = mset (succeeded log) \<and> rmErrors rp = of_nat (failures log)"
proof -
  let ?p0 = "pool_init n ids (world s)"
  define p where "p = sched_run (pool_succs K repo n) (pool_rank ?p0) ch ?p0"
  have run: "pool_inv K repo n ids (world s) p" "pool_finished p"
    using rm_workers.run_final [OF pool_inv_init [OF assms, where K = K and repo = repo] order_refl]
    by (simp_all add: p_def)
  then have shape: "pool_shape n p" and acc: "accounts K repo ids (world s) p"
    by (simp_all add: pool_inv_def)
  with run(2) have all_done: "\<forall>x \<in> set (plWorkers p). x = WDone" and "length (plWorkers p) = n"
    by (simp_all add: pool_shape_def pool_finished_def)
  then have "WDone \<in> set (plWorkers p)" using assms by (cases "plWorkers p") auto
  with shape have ended: "plFeed p = []" "plQueue p = []" by (auto simp: pool_shape_def)
  have "rm_pool K ch n repo ids s
      = (Ret \<lparr>rmErrors = plErrors p, rmSnapshotIDs = plSnapshotIDs p\<rparr>, s\<lparr>world := plWorld p\<rparr>)"
    using run(2) by (simp add: rm_pool_def Let_def p_def)
  with acc ended show ?thesis
    by (intro exI [of _ "plLog p"] exI [of _ "plWorld p"]
        exI [of _ "\<lparr>rmErrors = plErrors p, rmSnapshotIDs = plSnapshotIDs p\<rparr>"])
      (simp add: accounts_def pool_idle_sums [OF all_done])
qed

text \<open>
  Property C3 (rm_pool_correct). The worker pool of rm, whatever the interleaving of the main
  goroutine, the workers and the collector: it always ends when there is at least one worker;
  every snapshot named is deleted exactly once; the report lists exactly those whose deletion
  succeeded, in some order, and counts the others.
\<close>

theorem rm_pool_correct:
  assumes "0 < n"
  shows "\<exists>log w rp. rm_pool K ch n repo ids s = (Ret rp, s\<lparr>world := w\<rparr>)
     \<and> mset (map fst log) = mset ids \<and> deletes K repo (world s) log w
     \<and> mset (rmSnapshotIDs rp) = mset (succeeded log) \<and> rmErrors rp = of_nat (failures log)"
  by (rule rm_pool_outcome [OF assms])

theorem rm_pool_correct_witness:
  "\<forall>K repo s. \<exists>log w rp. rm_pool K (\<lambda>_. 0) 2 repo [[1], [2], [3]] s = (Ret rp, s\<lparr>world := w\<rparr>)
     \<and> mset (map fst log) = mset [[1], [2], [3]] \<and> deletes K repo (world s) log w
     \<and> mset (rmSnapshotIDs rp) = mset (succeeded log) \<and> rmErrors rp = of_nat (failures log)"
proof (intro allI)
  fix K :: "('w, 'z) ops_api_scheme" and repo s
  show "\<exists>log w rp. rm_pool K (\<lambda>_. 0) 2 repo [[1], [2], [3]] s = (Ret rp, s\<lparr>world := w\<rparr>)
     \<and> mset (map fst log) = mset [[1], [2], [3]] \<and> deletes K repo (world s) log w
     \<and> mset (rmSnapshotIDs rp) = mset (succeeded log) \<and> rmErrors rp = of_nat (failures log)"
    by (rule rm_pool_correct) simp
qed

text \<open>
  Property C10 (rm_pool_never_stuck). In any state the pool can reach that is not the end, some
  goroutine can move; each step brings the end nearer. So no interleaving deadlocks, and the
  buffer of \<open>rmq\<close> and the unbuffered \<open>removed\<close> never block each other.
\<close>

theorem rm_pool_never_stuck:
  assumes "0 < n" and "reaches (pool_succs K repo n) (pool_init n ids w) p" and "\<not> pool_finished p"
  shows "\<exists>p'. p' \<in> set (pool_succs K repo n p) \<and> pool_rank p' < pool_rank p"
  using rm_workers.progress [OF assms(2) pool_inv_init [OF assms(1)] assms(3)] pool_lowers by blast

theorem rm_pool_never_stuck_witness:
  "\<forall>K repo w. \<exists>p'. p' \<in> set (pool_succs K repo 1 (pool_init 1 [[1]] w))
     \<and> pool_rank p' < pool_rank (pool_init 1 [[1]] w)"
proof (intro allI)
  fix K :: "('w, 'z) ops_api_scheme" and repo and w :: 'w
  show "\<exists>p'. p' \<in> set (pool_succs K repo 1 (pool_init 1 [[1]] w))
     \<and> pool_rank p' < pool_rank (pool_init 1 [[1]] w)"
    by (rule rm_pool_never_stuck [OF _ reaches.here]) (simp_all add: pool_finished_def pool_init_def)
qed

text \<open>
  Lemma (rm_pool_needs_workers). With a concurrency of zero nothing is ever removed: the
  main goroutine blocks on its first send. \<open>Main\<close> never starts an operation with that setting.
\<close>

theorem rm_pool_needs_workers:
  assumes "ids \<noteq> []"
  shows "rm_pool K ch 0 repo ids s = (Hang, s)"
proof -
  have "pool_succs K repo 0 (pool_init 0 ids (world s)) = []"
    using assms by (cases ids) (simp_all add: pool_succs_def pool_init_def main_steps_def collector_steps_def)
  then show ?thesis
    by (simp add: rm_pool_def Let_def sched_run_stuck) (simp add: pool_finished_def pool_init_def)
qed

theorem rm_pool_needs_workers_witness:
  "\<forall>K ch repo s. rm_pool K ch 0 repo [[1]] s = (Hang, s)"
  by (intro allI rm_pool_needs_workers) simp

subsection \<open>Parsing\<close>

lemma parse_loop_ok:
  "parse_loop len ids acc = Inr macs \<longleftrightarrow>
     (\<exists>ms. macs = acc @ ms \<and> map hex_decode ids = map Some ms \<and> list_all (\<lambda>m. length m = len) ms)"
proof (induction ids arbitrary: acc)
  case (Cons sid ids)
  show ?case
  proof (cases "hex_decode sid")
    case None
    then have "map hex_decode (sid # ids) \<noteq> map Some ms" for ms by (cases ms) simp_all
    with None show ?thesis by simp
  next
    case (Some raw)
    have split: "map hex_decode (sid # ids) = map Some ms
        \<longleftrightarrow> (\<exists>ms'. ms = raw # ms' \<and> map hex_decode ids = map Some ms')" for ms
      using Some by (cases ms) auto
    show ?thesis
      unfolding split using Some Cons.IH [of "acc @ [raw]"] by auto
  qed
qed auto

text \<open>
  Property C34 (parse_snapshot_ids). Parsing the snapshot identifiers is all or nothing: it
  succeeds exactly when every identifier is the hexadecimal text of a full identifier, with
  the bytes it spells, in order; and the identifiers the control plane writes in hexadecimal
  are read back unchanged.
\<close>

theorem parse_snapshot_ids:
  "(parseSnapshotIDs len ids = Inr macs
      \<longleftrightarrow> map hex_decode ids = map Some macs \<and> list_all (\<lambda>m. length m = len) macs)
   \<and> (parseSnapshotIDs len (map hex_encode macs) = Inr macs \<longleftrightarrow> list_all (\<lambda>m. length m = len) macs)"
proof -
  have "parseSnapshotIDs len ids = Inr macs
      \<longleftrightarrow> map hex_decode ids = map Some macs \<and> list_all (\<lambda>m. length m = len) macs" for ids
    by (simp add: parseSnapshotIDs_def parse_loop_ok)
  then show ?thesis by (simp add: comp_def)
qed

text \<open>
  Lemma (rm_nothing_to_do). An rm that names no snapshot succeeds with an empty report
  before anything is opened: the process state does not change at all.
\<close>

theorem rm_nothing_to_do:
  assumes "plSource input = Some source" and "indexedList (plTaskConfig input) ''snapshot_ids'' = []"
  shows "rm K ch input s
     = (Ret (Some ((Report_of ''rm'')\<lparr>rpRm := Some \<lparr>rmErrors = 0, rmSnapshotIDs = []\<rparr>\<rparr>), None), s)"
  by (simp add: rm_def assms parseSnapshotIDs_def ok_or_fail_def returns_def ret_def)

theorem rm_nothing_to_do_witness:
  "\<forall>K ch s. rm K ch \<lparr>plOp = ''rm'', plTaskConfig = [], plSource = Some (example_store ''''), plTarget = None\<rparr> s
     = (Ret (Some ((Report_of ''rm'')\<lparr>rpRm := Some \<lparr>rmErrors = 0, rmSnapshotIDs = []\<rparr>\<rparr>), None), s)"
  by (intro allI rm_nothing_to_do) (simp_all add: indexedList_def indexed_from.simps)

end
