(* ===== verification/Sync_Op.thy ===== *)
theory Sync_Op
  imports Snapshot_Api
begin

text \<open>
  The sync operation, \<open>sync.go\<close>: the snapshots the task configuration selects in the source store
  are copied to the target store, but for those the target already has. A snapshot that fails
  is counted and the run goes on.
\<close>

definition sync_report :: "Header \<Rightarrow> i64 \<Rightarrow> StoreIO \<Rightarrow> StoreIO \<Rightarrow> SyncReport" where
  "sync_report hdr took origin target =
     (let src = hdSource hdr; logical = logical_size src
      in \<lparr>srSnapshotID = hdIdentifier hdr, srSnapshotCreationTime = hdTimestamp hdr, srTook = took,
          srName = siType src @ '' sync of '' @ siOrigin src, srSourceOrigin = siOrigin src,
          srRoot = siDirectory src, srSize = logical,
          srItems = sumFiles (siSummaryDirectory src) + sumFiles (siSummaryBelow src),
          srTags = hdTags hdr, srEnvironment = hdEnvironment hdr, srCategory = hdCategory hdr,
          srDataset = hdDataset hdr, srDataClasses = hdDataClasses hdr, srLogicalSize = logical,
          srContent = content_of src, srOriginIO = origin, srTargetIO = target\<rparr>)"

text \<open>From \<open>dstSnap.WithVFSCache\<close> to the end of \<open>syncSnap\<close>.\<close>

definition sync_run :: "('w, 'z) ops_api_scheme \<Rightarrow> nat \<Rightarrow> nat \<Rightarrow> nat \<Rightarrow> nat \<Rightarrow> nat option
    \<Rightarrow> ('w, SyncReport) prog" where
  "sync_run K srcRepo dstRepo srcSnap dstSnap parentVFS =
     bind (change (WithVFSCache K dstSnap parentVFS)) (\<lambda>_.
     bind (vcall (Now K)) (\<lambda>start.
     bind (call_unit (SnapSynchronize K srcSnap dstSnap)) (\<lambda>_.
     bind (look (HeaderOf K dstSnap)) (\<lambda>hdr.
     bind (vcall (Now K)) (\<lambda>now.
     bind (look (store_io K srcRepo)) (\<lambda>origin.
     bind (look (store_io K dstRepo)) (\<lambda>target.
     ret (sync_report hdr (time_Sub now start) origin target))))))))"

definition sync_builder_options :: "nat \<Rightarrow> BuilderOptions" where
  "sync_builder_options dstRepo =
     \<lparr>boName = '''', boTags = [], boEnvironment = '''', boDataset = '''', boDataClasses = [],
      boStateRefresher = dstRepo\<rparr>"

definition syncSnap :: "('w, 'z) ops_api_scheme \<Rightarrow> nat \<Rightarrow> nat \<Rightarrow> mac \<Rightarrow> ('w, SyncReport) prog" where
  "syncSnap K srcRepo dstRepo sid =
     bind (acquire RSnapshot (SnapshotLoad K srcRepo sid)) (\<lambda>srcSnap.
     deferring (close_snapshot K srcSnap) (
     bind (look (HeaderOf K srcSnap)) (\<lambda>hdr.
     bind (acquire RSnapshot
            (SnapshotCreate K dstRepo '''' (hdIdentifier hdr) (sync_builder_options dstRepo))) (\<lambda>dstSnap.
     deferring (close_snapshot K dstSnap) (
     bind (look (HeaderOf K srcSnap)) (\<lambda>hdr.
     bind (change (SetHeader K dstSnap hdr)) (\<lambda>_.
     bind (call (LocateMatch K dstRepo
            (latest_of (siDirectory (hdSource hdr)) (siType (hdSource hdr)) (siOrigin (hdSource hdr)))))
       (\<lambda>parentIDs.
     case parentIDs of
       [] \<Rightarrow> sync_run K srcRepo dstRepo srcSnap dstSnap None
     | pid # _ \<Rightarrow>
         bind (acquire RSnapshot (SnapshotLoad K dstRepo pid)) (\<lambda>parent.
         deferring (close_snapshot K parent) (
         bind (call (FilesystemWithCache K parent)) (\<lambda>parentVFS.
         sync_run K srcRepo dstRepo srcSnap dstSnap (Some parentVFS))))))))))))"

text \<open>The loop over the snapshots of the target; it stops at the first error.\<close>

fun present_of :: "(mac \<times> gerror option) list \<Rightarrow> mac list \<Rightarrow> gerror + mac list" where
  "present_of [] acc = Inr acc"
| "present_of ((sid, Some e) # rest) acc = Inl e"
| "present_of ((sid, None) # rest) acc = present_of rest (sid # acc)"

definition SyncsReport_zero :: SyncsReport where
  "SyncsReport_zero = \<lparr>ssTook = 0, ssLogicalSize = 0, ssErrors = 0, ssSyncs = []\<rparr>"

definition sync_step :: "('w, 'z) ops_api_scheme \<Rightarrow> nat \<Rightarrow> nat \<Rightarrow> mac list \<Rightarrow> mac \<Rightarrow> SyncsReport
    \<Rightarrow> ('w, SyncsReport) prog" where
  "sync_step K srcRepo dstRepo present sid ssr =
     (if sid \<in> set present then ret ssr
      else
        bind (attempt (syncSnap K srcRepo dstRepo sid)) (\<lambda>r.
        case r of
          Inl _ \<Rightarrow> ret (ssr\<lparr>ssErrors := ssErrors ssr + 1\<rparr>)
        | Inr sr \<Rightarrow> ret (ssr\<lparr>ssLogicalSize := ssLogicalSize ssr + srLogicalSize sr,
                          ssSyncs := ssSyncs ssr @ [sr]\<rparr>)))"

definition synchronize :: "('w, 'z) ops_api_scheme \<Rightarrow> ExecPayload \<Rightarrow> ('w, Report option \<times> gerror option) prog" where
  "synchronize K input =
     returns (case (plSource input, plTarget input) of
       (Some source, Some target) \<Rightarrow>
         bind (mkstorage K source) (\<lambda>(srcStore, srcPass, _).
         deferring (ensureClose K KStore srcStore) (
         bind (openrepo K srcStore srcPass) (\<lambda>srcRepo.
         bind (mkstorage K target) (\<lambda>(dstStore, dstPass, _).
         deferring (ensureClose K KStore dstStore) (
         bind (openrepo K dstStore dstPass) (\<lambda>dstRepo.
         bind (vcall (ListSnapshots K dstRepo)) (\<lambda>listed.
         case present_of listed [] of
           Inl e \<Rightarrow> fail (Wrap ''could not list peer snapshots: '' e)
         | Inr present \<Rightarrow>
         bind (vcall (Now K)) (\<lambda>now.
         bind (tcall (LocateSnapshotIDs K srcRepo
                (locateOptions (DefaultLocateOptions K) now (plTaskConfig input)))) (\<lambda>r.
         case r of
           Inl e \<Rightarrow> fail (Wrap ''could not locate source snapshots: '' e)
         | Inr srcIDs \<Rightarrow>
         bind (vcall (Now K)) (\<lambda>start.
         bind (for_each (sync_step K srcRepo dstRepo present) srcIDs SyncsReport_zero) (\<lambda>ssr.
         bind (vcall (Now K)) (\<lambda>now.
         ret (Some ((Report_of (plOp input))\<lparr>rpSync := Some (ssr\<lparr>ssTook := time_Sub now start\<rparr>)\<rparr>), None)))))))))))))
     | _ \<Rightarrow> fail (Errorf ''source and target must be set for sync''))"

lemma neutral_sync_run [keeps_intros]: "neutral (sync_run K srcRepo dstRepo srcSnap dstSnap p)"
  unfolding sync_run_def by (intro neutral_bind keeps_intros)

lemma neutral_syncSnap [keeps_intros]: "neutral (syncSnap K srcRepo dstRepo sid)"
  unfolding syncSnap_def by (rule takes_intros keeps_intros neutral_bind)+

lemma neutral_sync_step [keeps_intros]: "neutral (sync_step K srcRepo dstRepo present sid ssr)"
  unfolding sync_step_def by (rule takes_intros keeps_intros neutral_bind)+

lemma neutral_synchronize [keeps_intros]: "neutral (synchronize K input)"
  unfolding synchronize_def Let_def by (rule takes_intros keeps_intros neutral_bind)+

subsection \<open>What a sync copies\<close>

lemma present_of_ok:
  "present_of listed acc = Inr present \<Longrightarrow>
     set present = set acc \<union> fst ` set listed \<and> (\<forall>x \<in> set listed. snd x = None)"
  by (induction listed acc rule: present_of.induct) auto

text \<open>
  The report after the snapshots \<open>ids\<close>: those that are not present were tried, and each was
  either copied, with its report appended, or counted as failed.
\<close>

definition sync_counts :: "mac list \<Rightarrow> mac list \<Rightarrow> SyncsReport \<Rightarrow> SyncsReport \<Rightarrow> bool" where
  "sync_counts present ids ssr ssr' \<longleftrightarrow>
     (\<exists>failed copied. failed + length copied = length (filter (\<lambda>sid. sid \<notin> set present) ids)
        \<and> ssErrors ssr' = ssErrors ssr + of_nat failed
        \<and> ssSyncs ssr' = ssSyncs ssr @ copied
        \<and> ssLogicalSize ssr' = ssLogicalSize ssr + sum_list (map srLogicalSize copied))"

lemma gives_sync_loop:
  "gives (for_each (sync_step K srcRepo dstRepo present) ids ssr) (sync_counts present ids ssr)"
proof (induction ids arbitrary: ssr)
  case Nil
  show ?case by (auto intro!: gives_leaf exI [of _ 0] exI [of _ "[]"] simp: sync_counts_def)
next
  case (Cons sid ids)
  have one: "gives (sync_step K srcRepo dstRepo present sid ssr) (sync_counts present [sid] ssr)"
  proof -
    have "sync_counts present [sid] ssr (ssr\<lparr>ssErrors := ssErrors ssr + 1\<rparr>)" if "sid \<notin> set present"
      using that unfolding sync_counts_def by (intro exI [of _ 1] exI [of _ "[]"]) simp
    moreover have "sync_counts present [sid] ssr
        (ssr\<lparr>ssLogicalSize := ssLogicalSize ssr + srLogicalSize sr, ssSyncs := ssSyncs ssr @ [sr]\<rparr>)"
      if "sid \<notin> set present" for sr
      using that unfolding sync_counts_def by (intro exI [of _ 0] exI [of _ "[sr]"]) simp
    moreover have "sync_counts present [sid] ssr ssr" if "sid \<in> set present"
      using that unfolding sync_counts_def by (intro exI [of _ 0] exI [of _ "[]"]) simp
    ultimately show ?thesis
      unfolding sync_step_def by (intro gives_cases gives_leaf gives_bind_any) simp_all
  qed
  have "sync_counts present (sid # ids) ssr ssr''"
    if one1: "sync_counts present [sid] ssr ssr'" and rest: "sync_counts present ids ssr' ssr''" for ssr' ssr''
  proof -
    obtain f c where fc: "f + length c = length (filter (\<lambda>sid. sid \<notin> set present) [sid])"
        "ssErrors ssr' = ssErrors ssr + of_nat f" "ssSyncs ssr' = ssSyncs ssr @ c"
        "ssLogicalSize ssr' = ssLogicalSize ssr + sum_list (map srLogicalSize c)"
      using one1 unfolding sync_counts_def by blast
    obtain f' c' where fc': "f' + length c' = length (filter (\<lambda>sid. sid \<notin> set present) ids)"
        "ssErrors ssr'' = ssErrors ssr' + of_nat f'" "ssSyncs ssr'' = ssSyncs ssr' @ c'"
        "ssLogicalSize ssr'' = ssLogicalSize ssr' + sum_list (map srLogicalSize c')"
      using rest unfolding sync_counts_def by blast
    have "f + f' + length (c @ c') = length (filter (\<lambda>sid. sid \<notin> set present) (sid # ids))"
      using fc(1) fc'(1) by (simp split: if_splits)
    with fc fc' show ?thesis
      unfolding sync_counts_def by (intro exI [of _ "f + f'"] exI [of _ "c @ c'"]) simp
  qed
  then show ?case
    unfolding for_each.simps by (intro gives_bind [OF one] gives_mono [OF Cons.IH])
qed

text \<open>The report of a sync: of what was listed in the target and selected in the source.\<close>

definition sync_sound :: "('w, 'z) ops_api_scheme \<Rightarrow> ExecPayload \<Rightarrow> Report option \<times> gerror option \<Rightarrow> bool" where
  "sync_sound K input r =
     (case r of
        (None, err) \<Rightarrow> err \<noteq> None
      | (Some rep, err) \<Rightarrow> err = None
          \<and> (\<exists>srcRepo dstRepo listed v v' present ids ssr.
               ListSnapshots K dstRepo v = (listed, v') \<and> list_all (\<lambda>x. snd x = None) listed
               \<and> set present = fst ` set listed
               \<and> selected K input srcRepo ids
               \<and> sync_counts present ids SyncsReport_zero ssr
               \<and> rep = (Report_of (plOp input))\<lparr>rpSync := Some ssr\<rparr>))"

lemma sync_counts_took: "sync_counts present ids ssr (ssr'\<lparr>ssTook := t\<rparr>) = sync_counts present ids ssr ssr'"
  by (simp add: sync_counts_def)

lemma gives_sync_copy:
  assumes listed: "present_of (fst (ListSnapshots K dstRepo v)) [] = Inr present"
    and sel: "selected K input srcRepo ids"
  shows "gives (bind (for_each (sync_step K srcRepo dstRepo present) ids SyncsReport_zero) (\<lambda>ssr.
         bind (vcall (Now K)) (\<lambda>now.
         ret (Some ((Report_of (plOp input))\<lparr>rpSync := Some (ssr\<lparr>ssTook := time_Sub now start\<rparr>)\<rparr>), None))))
     (sync_sound K input)"
proof -
  have target: "ListSnapshots K dstRepo v = (fst (ListSnapshots K dstRepo v), snd (ListSnapshots K dstRepo v))"
    "set present = fst ` set (fst (ListSnapshots K dstRepo v))"
    "list_all (\<lambda>x. snd x = None) (fst (ListSnapshots K dstRepo v))"
    using present_of_ok [OF listed] by (auto simp: list_all_iff)
  have "sync_sound K input (Some ((Report_of (plOp input))\<lparr>rpSync := Some (ssr\<lparr>ssTook := t\<rparr>)\<rparr>), None)"
    if "sync_counts present ids SyncsReport_zero ssr" for ssr t
  proof -
    have "sync_counts present ids SyncsReport_zero (ssr\<lparr>ssTook := t\<rparr>)" using that by (simp add: sync_counts_took)
    with target sel show ?thesis unfolding sync_sound_def by (simp only: prod.case option.case) blast
  qed
  then show ?thesis by (intro gives_bind [OF gives_sync_loop] gives_total_then gives_leaf)
qed

lemma selectedI:
  "fst (LocateSnapshotIDs K repo (locateOptions (DefaultLocateOptions K) now (plTaskConfig input)) w) = Inr ids
     \<Longrightarrow> selected K input repo ids"
  unfolding selected_def by (metis prod.collapse)

lemma gives_synchronize: "gives (synchronize K input) (sync_sound K input)"
  unfolding synchronize_def Let_def
  by (rule gives_returns, rule gives_cases(5), rule gives_cases(2), rule gives_leaf,
        rule gives_cases(2), rule gives_leaf,
        rule gives_bind_any, rule gives_cases(5), rule gives_cases(5), rule gives_deferring,
        rule gives_bind_any, rule gives_bind_any, rule gives_cases(5), rule gives_cases(5), rule gives_deferring,
        rule gives_bind_any, rule gives_total_then, rule gives_cases(3), rule gives_leaf,
        rule gives_total_then, rule gives_total_then, rule gives_cases(3), rule gives_leaf,
        rule gives_total_then, rule gives_sync_copy, assumption, rule selectedI, assumption)
      (simp add: sync_sound_def)


end
