(* ===== verification/Test_Op.thy ===== *)
theory Test_Op
  imports Snapshot_Api
begin

text \<open>
  The connectivity test, \<open>test.go\<close>, and the two operations that are refused, \<open>prune.go\<close> and
  \<open>maintenance.go\<close>.
\<close>

definition testStore :: "('w, 'z) ops_api_scheme \<Rightarrow> Configuration \<Rightarrow> ('w, unit) prog" where
  "testStore K target =
     bind (mkstorage K target) (\<lambda>(store, passphrase, _).
     deferring (ensureClose K KStore store) (
     bind (openrepo K store passphrase) (\<lambda>repo.
     bind (ecall (RepoClose K repo)) (\<lambda>_.
     closed (RRepository, repo)))))"

definition testSource :: "('w, 'z) ops_api_scheme \<Rightarrow> Configuration \<Rightarrow> ('w, unit) prog" where
  "testSource K target =
     bind (mkimporter K target []) (\<lambda>importer.
     deferring (ensureClose K KImporter importer) (
     call_unit (ImporterPing K (inner importer))))"

definition testDestination :: "('w, 'z) ops_api_scheme \<Rightarrow> Configuration \<Rightarrow> ('w, unit) prog" where
  "testDestination K target =
     bind (mkexporter K target) (\<lambda>exporter.
     deferring (ensureClose K KExporter exporter) (
     call_unit (ExporterPing K (inner exporter))))"

text \<open>\<open>return nil, f(...)\<close>: the error of \<open>f\<close> and no report.\<close>

definition no_report :: "('w, unit) prog \<Rightarrow> ('w, Report option \<times> gerror option) prog" where
  "no_report m = returns (bind m (\<lambda>_. ret (None, None)))"

definition test :: "('w, 'z) ops_api_scheme \<Rightarrow> ExecPayload \<Rightarrow> ('w, Report option \<times> gerror option) prog" where
  "test K input =
     (case plSource input of
        None \<Rightarrow> returns (fail (Errorf ''source must be set for test''))
      | Some source \<Rightarrow>
          if cfType source = ''store'' then no_report (testStore K source)
          else if cfType source = ''source'' then no_report (testSource K source)
          else if cfType source = ''destination'' then no_report (testDestination K source)
          else returns (fail (Errorf (''test: '' @ cfType source @ '': invalid source type''))))"

definition prune :: "ExecPayload \<Rightarrow> ('w, Report option \<times> gerror option) prog" where
  "prune input =
     returns (if plSource input = None then fail (Errorf ''target need to be set for prune'')
              else fail ErrUnsupported)"

definition maintenance :: "ExecPayload \<Rightarrow> ('w, Report option \<times> gerror option) prog" where
  "maintenance input =
     returns (if plSource input = None then fail (Errorf ''target need to be set for maintenance'')
              else fail ErrUnsupported)"

lemma neutral_testStore [keeps_intros]: "neutral (testStore K target)"
  unfolding testStore_def by (rule flow_closed_repo takes_intros keeps_intros neutral_bind)+

lemma neutral_testSource [keeps_intros]: "neutral (testSource K target)"
  unfolding testSource_def by (rule takes_intros keeps_intros neutral_bind)+

lemma neutral_testDestination [keeps_intros]: "neutral (testDestination K target)"
  unfolding testDestination_def by (rule takes_intros keeps_intros neutral_bind)+

lemma neutral_test [keeps_intros]: "neutral (test K input)"
  unfolding test_def no_report_def by (rule takes_intros keeps_intros neutral_bind)+

lemma neutral_prune_maintenance [keeps_intros]: "neutral (prune input)" "neutral (maintenance input)"
  unfolding prune_def maintenance_def by (rule takes_intros keeps_intros neutral_bind)+

end
