(* ===== verification/Inventory_Op.thy ===== *)
theory Inventory_Op
  imports Snapshot_Api Schedules
begin

text \<open>
  The inventory operation, \<open>inventory.go\<close>: an inventory plugin sends its entries on a channel, and
  a goroutine turns each into a reply. The provider, the goroutine and the caller are the three
  parties of a state machine.

  Of the provider the code relies on this: \<open>List\<close> sends its entries one after the other, closes
  the channel and returns; a provider whose context is cancelled may stop before its last entry.
\<close>

subsection \<open>Entries\<close>

record SdkEndpoint =
  xeType :: string
  xeEndpoint :: string
  xeAttributes :: smap

record SdkEntry =
  xvClass :: string
  xvSubClass :: string
  xvTags :: "string list"
  xvURN :: string
  xvName :: string
  xvRegion :: string
  xvService :: string
  xvResource :: string
  xvDetails :: "byte list"
  xvEndpoints :: "SdkEndpoint list"
  xvCountry :: string

text \<open>
  \<open>ListEntries\<close>: the entries a listing sends when nobody cancels it, and what it returns;
  \<open>ListCancelled\<close>: what it returns when it stops early; \<open>MarshalEntry\<close>: the error of
  \<open>json.Marshal\<close>, if any.
\<close>

record 'w inventory_api = "'w ops_api" +
  ListEntries :: "nat \<Rightarrow> 'w \<Rightarrow> (SdkEntry list \<times> gerror option) \<times> 'w"
  ListCancelled :: "nat \<Rightarrow> 'w \<Rightarrow> gerror option"
  MarshalEntry :: "InventoryEntry \<Rightarrow> gerror option"

definition wireEntry :: "SdkEntry \<Rightarrow> InventoryEntry" where
  "wireEntry e =
     (let entry =
        \<lparr>ivClass = xvClass e, ivSubClass = xvSubClass e, ivTags = xvTags e, ivURN = xvURN e,
         ivName = xvName e, ivRegion = xvRegion e, ivService = xvService e,
         ivResource = xvResource e, ivDetails = xvDetails e, ivEndpoints = [],
         ivCountry = xvCountry e\<rparr>
      in foldl (\<lambda>entry ep. entry\<lparr>ivEndpoints := ivEndpoints entry @
             [\<lparr>ieType = xeType ep, ieEndpoint = xeEndpoint ep, ieAttributes = xeAttributes ep\<rparr>]\<rparr>)
           entry (xvEndpoints e))"

definition entry_reply :: "SdkEntry \<Rightarrow> ExecReply" where
  "entry_reply e =
     \<lparr>erType = ReplyInventory, erMessage = '''', erReport = Some (RawEntry (wireEntry e)), erState = None\<rparr>"

subsection \<open>The stream\<close>

text \<open>
  \<open>CFailed\<close>: an entry could not be encoded, its error is in \<open>done\<close>, the cancellation is next;
  \<open>CDraining\<close>: entries are received and dropped; \<open>CDone\<close>: the goroutine has ended and \<open>done\<close> is
  closed. \<open>iqTaken\<close>, the entries received so far, is bookkeeping.
\<close>

datatype consumer = CReceiving | CFailed | CDraining | CDone

record stream =
  iqToSend :: "SdkEntry list"
  iqResult :: "gerror option"
  iqReturned :: bool
  iqConsumer :: consumer
  iqDone :: "gerror option"
  iqCancelled :: bool
  iqOut :: "ExecReply list"
  iqMain :: "gerror option option"
  iqTaken :: "SdkEntry list"

definition stream_init :: "SdkEntry list \<Rightarrow> gerror option \<Rightarrow> stream" where
  "stream_init entries res =
     \<lparr>iqToSend = entries, iqResult = res, iqReturned = False, iqConsumer = CReceiving, iqDone = None,
      iqCancelled = False, iqOut = [], iqMain = None, iqTaken = []\<rparr>"

text \<open>An unbuffered send: the provider hands the next entry to the goroutine.\<close>

definition receive :: "('w, 'z) inventory_api_scheme \<Rightarrow> SdkEntry \<Rightarrow> stream \<Rightarrow> stream list" where
  "receive K e q =
     (case iqConsumer q of
        CReceiving \<Rightarrow>
          (case MarshalEntry K (wireEntry e) of
             None \<Rightarrow> [q\<lparr>iqOut := iqOut q @ [entry_reply e], iqTaken := iqTaken q @ [e]\<rparr>]
           | Some err \<Rightarrow>
               [q\<lparr>iqDone := Some (Wrap (''encode inventory entry '' @ xvURN e @ '': '') err),
                  iqConsumer := CFailed, iqTaken := iqTaken q @ [e]\<rparr>])
      | CDraining \<Rightarrow> [q\<lparr>iqTaken := iqTaken q @ [e]\<rparr>]
      | _ \<Rightarrow> [])"

definition provider_steps :: "('w, 'z) inventory_api_scheme \<Rightarrow> gerror option \<Rightarrow> stream \<Rightarrow> stream list" where
  "provider_steps K cres q =
     (case iqToSend q of
        e # es \<Rightarrow>
          receive K e (q\<lparr>iqToSend := es\<rparr>)
          @ (if iqCancelled q then [q\<lparr>iqToSend := [], iqResult := cres\<rparr>] else [])
      | [] \<Rightarrow> if \<not> iqReturned q then [q\<lparr>iqReturned := True\<rparr>] else [])"

definition consumer_steps :: "stream \<Rightarrow> stream list" where
  "consumer_steps q =
     (case iqConsumer q of
        CFailed \<Rightarrow> [q\<lparr>iqCancelled := True, iqConsumer := CDraining\<rparr>]
      | CDone \<Rightarrow> []
      | _ \<Rightarrow> if iqReturned q then [q\<lparr>iqConsumer := CDone\<rparr>] else [])"

text \<open>The caller: \<open>List\<close> has returned, and \<open><-done\<close> gives the buffered error or the closed channel's nil.\<close>

definition caller_steps :: "stream \<Rightarrow> stream list" where
  "caller_steps q =
     (if iqReturned q \<and> iqMain q = None \<and> (iqDone q \<noteq> None \<or> iqConsumer q = CDone)
      then [q\<lparr>iqMain := Some (case iqDone q of Some e \<Rightarrow> Some e | None \<Rightarrow> iqResult q)\<rparr>]
      else [])"

definition stream_succs :: "('w, 'z) inventory_api_scheme \<Rightarrow> gerror option \<Rightarrow> stream \<Rightarrow> stream list" where
  "stream_succs K cres q = provider_steps K cres q @ consumer_steps q @ caller_steps q"

fun consumer_rank :: "consumer \<Rightarrow> nat" where
  "consumer_rank CReceiving = 3"
| "consumer_rank CFailed = 2"
| "consumer_rank CDraining = 1"
| "consumer_rank CDone = 0"

definition stream_rank :: "stream \<Rightarrow> nat" where
  "stream_rank q =
     length (iqToSend q) + (if iqReturned q then 0 else 1) + consumer_rank (iqConsumer q)
     + (if iqMain q = None then 1 else 0)"

definition stream_final :: "stream \<Rightarrow> bool" where
  "stream_final q \<longleftrightarrow> iqMain q \<noteq> None \<and> iqConsumer q = CDone"

subsection \<open>The operation\<close>

definition streamEntries :: "('w, 'z) inventory_api_scheme \<Rightarrow> (nat \<Rightarrow> nat) \<Rightarrow> connector \<Rightarrow> ('w, unit) prog" where
  "streamEntries K ch ivy s =
     (let ((entries, res), w) = ListEntries K (inner ivy) (world s);
          q0 = stream_init entries res;
          q = sched_run (stream_succs K (ListCancelled K (inner ivy) w)) (stream_rank q0) ch q0;
          s = s\<lparr>world := w, sent := sent s @ iqOut q\<rparr>
      in case iqMain q of
           None \<Rightarrow> (Hang, s)
         | Some None \<Rightarrow> (Ret (), s)
         | Some (Some e) \<Rightarrow> (Err e, s))"

definition listInventory :: "('w, 'z) inventory_api_scheme \<Rightarrow> (nat \<Rightarrow> nat) \<Rightarrow> ExecPayload \<Rightarrow> ('w, unit) prog" where
  "listInventory K ch input =
     (case plSource input of
        None \<Rightarrow> fail (Errorf ''source must be set for inventory'')
      | Some source \<Rightarrow>
          if cfType source \<noteq> ''inventory'' then
            fail (Errorf (''inventory: '' @ cfType source @ '': invalid source type''))
          else
            bind (attempt (mkinventory K source)) (\<lambda>r.
            case r of
              Inl e \<Rightarrow> fail (Wrap (''start inventory plugin '' @ igName (cfIntegration source) @ '': '') e)
            | Inr ivy \<Rightarrow>
                deferring (ensureClose K KInventory ivy) (
                streamEntries K ch ivy)))"

lemma neutral_streamEntries [keeps_intros]: "neutral (streamEntries K ch ivy)"
  by (auto simp: flow_def streamEntries_def Let_def split: prod.splits option.splits)

lemma attempt_mkinventory_then [takes_intros]:
  assumes "\<And>e. neutral (f (Inl e))" and "\<And>c. flow (owned KInventory c) (f (Inr c)) (\<lambda>_. {#})"
  shows "neutral (bind (attempt (mkinventory K conf)) f)"
  by (rule flow_bind [OF flow_attempt [OF flow_mkinventory]]) (use assms in \<open>auto split: sum.split\<close>)

lemma neutral_listInventory [keeps_intros]: "neutral (listInventory K ch input)"
  unfolding listInventory_def by (rule takes_intros keeps_intros neutral_bind)+

subsection \<open>The invariant of the stream\<close>

definition encodes :: "('w, 'z) inventory_api_scheme \<Rightarrow> SdkEntry \<Rightarrow> bool" where
  "encodes K e \<longleftrightarrow> MarshalEntry K (wireEntry e) = None"

text \<open>Everything received was encoded and sent on.\<close>

definition all_sent :: "('w, 'z) inventory_api_scheme \<Rightarrow> stream \<Rightarrow> bool" where
  "all_sent K q \<longleftrightarrow> list_all (encodes K) (iqTaken q) \<and> iqOut q = map entry_reply (iqTaken q)"

text \<open>Entry \<open>x\<close> failed with \<open>err\<close>, and exactly those before it were sent on.\<close>

definition broke_at :: "('w, 'z) inventory_api_scheme \<Rightarrow> stream \<Rightarrow> gerror \<Rightarrow> bool" where
  "broke_at K q e \<longleftrightarrow>
     (\<exists>pre x post err. iqTaken q = pre @ x # post \<and> list_all (encodes K) pre
        \<and> MarshalEntry K (wireEntry x) = Some err
        \<and> e = Wrap (''encode inventory entry '' @ xvURN x @ '': '') err \<and> iqOut q = map entry_reply pre)"

definition stream_inv :: "('w, 'z) inventory_api_scheme \<Rightarrow> SdkEntry list \<Rightarrow> gerror option \<Rightarrow> stream \<Rightarrow> bool" where
  "stream_inv K entries res q \<longleftrightarrow>
     (\<exists>rest. entries = iqTaken q @ rest)
     \<and> (iqDone q = None \<longrightarrow> iqTaken q @ iqToSend q = entries \<and> iqResult q = res \<and> all_sent K q
          \<and> (iqConsumer q = CReceiving \<or> iqConsumer q = CDone) \<and> \<not> iqCancelled q)
     \<and> (\<forall>e. iqDone q = Some e \<longrightarrow> broke_at K q e \<and> iqConsumer q \<noteq> CReceiving)
     \<and> (iqReturned q \<longrightarrow> iqToSend q = [])
     \<and> (\<exists>rest. entries = iqTaken q @ iqToSend q @ rest)
     \<and> (iqConsumer q = CDone \<longrightarrow> iqReturned q)
     \<and> (\<forall>r. iqMain q = Some r \<longrightarrow>
          r = (case iqDone q of Some e \<Rightarrow> Some e | None \<Rightarrow> iqResult q)
          \<and> iqReturned q \<and> (iqDone q = None \<longrightarrow> iqConsumer q = CDone))"

lemma stream_inv_init: "stream_inv K entries res (stream_init entries res)"
  by (simp add: stream_inv_def stream_init_def all_sent_def)

lemma stream_step_cases [consumes 1, case_names Sent Broke Dropped Stopped Returned Cancel Ended Caller]:
  assumes "q' \<in> set (stream_succs K cres q)"
  obtains
    (Sent) e es where "iqToSend q = e # es" "iqConsumer q = CReceiving" "encodes K e"
      "q' = q\<lparr>iqToSend := es, iqOut := iqOut q @ [entry_reply e], iqTaken := iqTaken q @ [e]\<rparr>"
  | (Broke) e es err where "iqToSend q = e # es" "iqConsumer q = CReceiving"
      "MarshalEntry K (wireEntry e) = Some err"
      "q' = q\<lparr>iqToSend := es, iqDone := Some (Wrap (''encode inventory entry '' @ xvURN e @ '': '') err),
             iqConsumer := CFailed, iqTaken := iqTaken q @ [e]\<rparr>"
  | (Dropped) e es where "iqToSend q = e # es" "iqConsumer q = CDraining"
      "q' = q\<lparr>iqToSend := es, iqTaken := iqTaken q @ [e]\<rparr>"
  | (Stopped) e es where "iqToSend q = e # es" "iqCancelled q" "q' = q\<lparr>iqToSend := [], iqResult := cres\<rparr>"
  | (Returned) "iqToSend q = []" "\<not> iqReturned q" "q' = q\<lparr>iqReturned := True\<rparr>"
  | (Cancel) "iqConsumer q = CFailed" "q' = q\<lparr>iqCancelled := True, iqConsumer := CDraining\<rparr>"
  | (Ended) "iqConsumer q = CReceiving \<or> iqConsumer q = CDraining" "iqReturned q" "q' = q\<lparr>iqConsumer := CDone\<rparr>"
  | (Caller) "iqReturned q" "iqMain q = None" "iqDone q \<noteq> None \<or> iqConsumer q = CDone"
      "q' = q\<lparr>iqMain := Some (case iqDone q of Some e \<Rightarrow> Some e | None \<Rightarrow> iqResult q)\<rparr>"
proof -
  consider (provider) "q' \<in> set (provider_steps K cres q)" | (consumer) "q' \<in> set (consumer_steps q)"
    | (caller) "q' \<in> set (caller_steps q)"
    using assms by (auto simp: stream_succs_def)
  then show thesis
  proof cases
    case provider
    then show thesis
      using Sent Broke Dropped Stopped Returned
      by (auto simp: provider_steps_def receive_def encodes_def
          split: list.splits if_splits consumer.splits option.splits)
  next
    case consumer
    then show thesis
      using Cancel Ended by (auto simp: consumer_steps_def split: consumer.splits if_splits)
  next
    case caller
    then show thesis using Caller by (auto simp: caller_steps_def split: if_splits)
  qed
qed

lemma stream_lowers: "q' \<in> set (stream_succs K cres q) \<Longrightarrow> stream_rank q' < stream_rank q"
  by (cases rule: stream_step_cases, assumption) (auto simp: stream_rank_def)

lemma broke_at_more:
  assumes "broke_at K q e"
  shows "broke_at K (q\<lparr>iqToSend := es, iqTaken := iqTaken q @ [x]\<rparr>) e"
proof -
  obtain pre y post err where q: "iqTaken q = pre @ y # post" "list_all (encodes K) pre"
    "MarshalEntry K (wireEntry y) = Some err"
    "e = Wrap (''encode inventory entry '' @ xvURN y @ '': '') err" "iqOut q = map entry_reply pre"
    using assms unfolding broke_at_def by blast
  then show ?thesis unfolding broke_at_def
    by (intro exI [of _ pre] exI [of _ y] exI [of _ "post @ [x]"] exI [of _ err]) simp
qed

lemma broke_at_here:
  assumes "all_sent K q" and "MarshalEntry K (wireEntry e) = Some err"
  shows "broke_at K (q\<lparr>iqToSend := es, iqDone := d, iqConsumer := c, iqTaken := iqTaken q @ [e]\<rparr>)
     (Wrap (''encode inventory entry '' @ xvURN e @ '': '') err)"
  using assms unfolding broke_at_def all_sent_def
  by (intro exI [of _ "iqTaken q"] exI [of _ e] exI [of _ "[]"] exI [of _ err]) simp

lemma broke_at_other:
  "broke_at K (q\<lparr>iqToSend := es, iqResult := r\<rparr>) = broke_at K q"
  "broke_at K (q\<lparr>iqReturned := b\<rparr>) = broke_at K q"
  "broke_at K (q\<lparr>iqCancelled := b\<rparr>) = broke_at K q"
  "broke_at K (q\<lparr>iqConsumer := c\<rparr>) = broke_at K q"
  "broke_at K (q\<lparr>iqMain := m\<rparr>) = broke_at K q"
  by (simp_all add: broke_at_def fun_eq_iff)

lemma stream_keeps:
  assumes "q' \<in> set (stream_succs K cres q)" and "stream_inv K entries res q"
  shows "stream_inv K entries res q'"
  using assms(1)
proof (cases rule: stream_step_cases)
  case (Sent e es)
  with assms(2) have "iqDone q = None" "\<not> iqReturned q" by (auto simp: stream_inv_def)
  with Sent assms(2) show ?thesis by (auto simp: stream_inv_def all_sent_def)
next
  case (Broke e es err)
  with assms(2) have "iqDone q = None" "\<not> iqReturned q" by (auto simp: stream_inv_def)
  with Broke assms(2) show ?thesis
    using broke_at_here [of K q e err] by (auto simp: stream_inv_def)
next
  case (Dropped e es)
  then obtain d where "iqDone q = Some d" "broke_at K q d" "\<not> iqReturned q"
    using assms(2) by (cases "iqDone q") (auto simp: stream_inv_def)
  with Dropped assms(2) show ?thesis
    using broke_at_more [of K q d] by (auto simp: stream_inv_def)
next
  case (Stopped e es)
  then obtain d where "iqDone q = Some d" "\<not> iqReturned q"
    using assms(2) by (cases "iqDone q") (auto simp: stream_inv_def)
  with Stopped assms(2) show ?thesis by (auto simp: stream_inv_def broke_at_other)
next
  case Returned
  with assms(2) show ?thesis by (auto simp: stream_inv_def broke_at_other all_sent_def)
next
  case Cancel
  then obtain d where "iqDone q = Some d" using assms(2) by (cases "iqDone q") (auto simp: stream_inv_def)
  with Cancel assms(2) show ?thesis by (auto simp: stream_inv_def broke_at_other)
next
  case Ended
  with assms(2) show ?thesis by (auto simp: stream_inv_def broke_at_other all_sent_def)
next
  case Caller
  with assms(2) show ?thesis
    by (cases "iqDone q") (auto simp: stream_inv_def broke_at_other all_sent_def)
qed

lemma stream_stuck:
  assumes "stream_inv K entries res q" and "stream_succs K cres q = []"
  shows "stream_final q"
proof -
  have prov: "provider_steps K cres q = []" and cons: "consumer_steps q = []" and call: "caller_steps q = []"
    using assms(2) by (simp_all add: stream_succs_def)
  have cons_cases: "iqConsumer q = CDone \<or> iqConsumer q \<noteq> CFailed \<and> \<not> iqReturned q"
    using cons by (cases "iqConsumer q") (auto simp: consumer_steps_def split: if_splits)
  have "iqReturned q"
  proof (cases "iqToSend q")
    case Nil
    with prov show ?thesis by (auto simp: provider_steps_def split: if_splits)
  next
    case (Cons e es)
    with assms(1) have "\<not> iqReturned q" "iqConsumer q \<noteq> CDone" by (auto simp: stream_inv_def)
    with cons_cases have "iqConsumer q = CReceiving \<or> iqConsumer q = CDraining"
      by (cases "iqConsumer q") auto
    with prov Cons show ?thesis
      by (auto simp: provider_steps_def receive_def split: option.splits)
  qed
  with cons_cases call show ?thesis by (auto simp: stream_final_def caller_steps_def split: if_splits)
qed

interpretation entry_stream: scheduled "stream_succs K cres" stream_rank "stream_inv K entries res" stream_final
  for K :: "('w, 'z) inventory_api_scheme" and cres entries res
  by unfold_locales (auto dest: stream_lowers stream_keeps stream_stuck)

subsection \<open>Properties\<close>

lemma stream_outcome:
  assumes "stream_inv K entries res q" and "stream_final q"
  shows "(iqMain q = Some res \<and> iqOut q = map entry_reply entries \<and> list_all (encodes K) entries)
     \<or> (\<exists>pre x post err. entries = pre @ x # post \<and> list_all (encodes K) pre
          \<and> MarshalEntry K (wireEntry x) = Some err
          \<and> iqMain q = Some (Some (Wrap (''encode inventory entry '' @ xvURN x @ '': '') err))
          \<and> iqOut q = map entry_reply pre)"
proof (cases "iqDone q")
  case None
  with assms show ?thesis by (auto simp: stream_inv_def stream_final_def all_sent_def)
next
  case (Some e)
  with assms(1) have "broke_at K q e" by (simp add: stream_inv_def)
  then obtain pre x post err where b: "iqTaken q = pre @ x # post" "list_all (encodes K) pre"
    "MarshalEntry K (wireEntry x) = Some err"
    "e = Wrap (''encode inventory entry '' @ xvURN x @ '': '') err" "iqOut q = map entry_reply pre"
    unfolding broke_at_def by blast
  obtain rest where "entries = iqTaken q @ rest" using assms(1) by (auto simp: stream_inv_def)
  with b have "entries = pre @ x # (post @ rest)" by simp
  moreover have "iqMain q = Some (Some e)"
    using assms Some by (auto simp: stream_inv_def stream_final_def)
  ultimately show ?thesis using b by blast
qed

lemma stream_run:
  "let ((entries, res), w) = ListEntries K (inner ivy) (world s)
   in (streamEntries K ch ivy s
         = ((case res of None \<Rightarrow> Ret () | Some e \<Rightarrow> Err e),
            s\<lparr>world := w, sent := sent s @ map entry_reply entries\<rparr>)
       \<and> list_all (encodes K) entries)
      \<or> (\<exists>pre x post err. entries = pre @ x # post \<and> list_all (encodes K) pre
           \<and> MarshalEntry K (wireEntry x) = Some err
           \<and> streamEntries K ch ivy s
               = (Err (Wrap (''encode inventory entry '' @ xvURN x @ '': '') err),
                  s\<lparr>world := w, sent := sent s @ map entry_reply pre\<rparr>))"
proof -
  obtain entries res w where list: "ListEntries K (inner ivy) (world s) = ((entries, res), w)"
    by (metis prod.collapse)
  define q where "q = sched_run (stream_succs K (ListCancelled K (inner ivy) w))
    (stream_rank (stream_init entries res)) ch (stream_init entries res)"
  have run: "streamEntries K ch ivy s =
      (case iqMain q of None \<Rightarrow> (Hang, s\<lparr>world := w, sent := sent s @ iqOut q\<rparr>)
       | Some None \<Rightarrow> (Ret (), s\<lparr>world := w, sent := sent s @ iqOut q\<rparr>)
       | Some (Some e) \<Rightarrow> (Err e, s\<lparr>world := w, sent := sent s @ iqOut q\<rparr>))"
    by (simp add: streamEntries_def list q_def [symmetric] Let_def split: option.split)
  have "stream_inv K entries res q \<and> stream_final q"
    unfolding q_def by (rule entry_stream.run_final [OF stream_inv_init order_refl])
  then consider
      "iqMain q = Some res" "iqOut q = map entry_reply entries" "list_all (encodes K) entries"
    | pre x post err where "entries = pre @ x # post" "list_all (encodes K) pre"
      "MarshalEntry K (wireEntry x) = Some err"
      "iqMain q = Some (Some (Wrap (''encode inventory entry '' @ xvURN x @ '': '') err))"
      "iqOut q = map entry_reply pre"
    using stream_outcome [of K entries res q] by blast
  then show ?thesis
  proof cases
    case 1
    then show ?thesis by (simp add: list run split: option.split)
  next
    case (2 pre x post err)
    have "streamEntries K ch ivy s
        = (Err (Wrap (''encode inventory entry '' @ xvURN x @ '': '') err),
           s\<lparr>world := w, sent := sent s @ map entry_reply pre\<rparr>)"
      by (simp only: run 2(4,5)) simp
    with 2(1,2,3) show ?thesis by (simp only: list Let_def prod.case) blast
  qed
qed

text \<open>
  Property C4 (inventory_stream). Streaming an inventory, under every interleaving of the
  provider, the encoding goroutine and the caller: it always ends. Either every entry was
  encoded and one reply per entry was sent, in the provider's order, and the result is the
  provider's; or some entry could not be encoded, exactly the entries before it were sent, and
  the listing fails with that entry's error. In particular a success means a complete listing.
\<close>

theorem inventory_stream:
  "let ((entries, res), w) = ListEntries K (inner ivy) (world s)
   in (streamEntries K ch ivy s
         = ((case res of None \<Rightarrow> Ret () | Some e \<Rightarrow> Err e),
            s\<lparr>world := w, sent := sent s @ map entry_reply entries\<rparr>)
       \<and> list_all (encodes K) entries)
      \<or> (\<exists>pre x post err. entries = pre @ x # post \<and> list_all (encodes K) pre
           \<and> MarshalEntry K (wireEntry x) = Some err
           \<and> streamEntries K ch ivy s
               = (Err (Wrap (''encode inventory entry '' @ xvURN x @ '': '') err),
                  s\<lparr>world := w, sent := sent s @ map entry_reply pre\<rparr>))"
  by (rule stream_run)

text \<open>
  Lemma (wire_entry). The wire form of an entry keeps every field, and its endpoints in
  their order.
\<close>

theorem wire_entry:
  "wireEntry e =
     \<lparr>ivClass = xvClass e, ivSubClass = xvSubClass e, ivTags = xvTags e, ivURN = xvURN e,
      ivName = xvName e, ivRegion = xvRegion e, ivService = xvService e, ivResource = xvResource e,
      ivDetails = xvDetails e,
      ivEndpoints = map (\<lambda>ep. \<lparr>ieType = xeType ep, ieEndpoint = xeEndpoint ep,
                               ieAttributes = xeAttributes ep\<rparr>) (xvEndpoints e),
      ivCountry = xvCountry e\<rparr>"
proof -
  have "foldl (\<lambda>entry ep. entry\<lparr>ivEndpoints := ivEndpoints entry @ [f ep]\<rparr>) entry eps
      = entry\<lparr>ivEndpoints := ivEndpoints entry @ map f eps\<rparr>"
    for entry :: InventoryEntry and eps and f :: "SdkEndpoint \<Rightarrow> InventoryEndpoint"
    by (induction eps arbitrary: entry) simp_all
  then show ?thesis by (simp add: wireEntry_def Let_def)
qed

end
