(* ===== verification/Recent_Paths.thy ===== *)
theory Recent_Paths
  imports Run_State
begin

text \<open>
  The window of recently processed paths of \<open>listener.go\<close>: \<open>startRecentPath\<close>,
  \<open>settleRecentPath\<close> and \<open>capRecentPaths\<close>. The loops that split \<open>RecentPaths\<close> into its
  in-progress and its settled entries keep the Go shape: one pass that appends to two
  accumulators.
\<close>

definition in_progress :: string where "in_progress = ''in-progress''"

definition capRecentPaths :: "RecentPath list \<Rightarrow> RecentPath list" where
  "capRecentPaths paths = (if length paths > maxRecentPaths then take maxRecentPaths paths else paths)"

fun split_loop :: "RecentPath list \<Rightarrow> RecentPath list \<Rightarrow> RecentPath list
    \<Rightarrow> RecentPath list \<times> RecentPath list" where
  "split_loop [] inProgress settled = (inProgress, settled)"
| "split_loop (rp # rps) inProgress settled =
     (if rpStatus rp = in_progress then split_loop rps (inProgress @ [rp]) settled
      else split_loop rps inProgress (settled @ [rp]))"

definition startRecentPath :: "State \<Rightarrow> string \<Rightarrow> State" where
  "startRecentPath s path =
     (let (inProgress, settled) =
        split_loop (stRecentPaths s) [\<lparr>rpPath = path, rpStatus = in_progress\<rparr>] []
      in s\<lparr>stRecentPaths := capRecentPaths (inProgress @ settled)\<rparr>)"

fun settle_loop :: "string \<Rightarrow> RecentPath list \<Rightarrow> RecentPath list \<Rightarrow> RecentPath list
    \<Rightarrow> RecentPath list \<times> RecentPath list" where
  "settle_loop path [] inProgress settled = (inProgress, settled)"
| "settle_loop path (rp # rps) inProgress settled =
     (if rpPath rp = path then settle_loop path rps inProgress settled
      else if rpStatus rp = in_progress then settle_loop path rps (inProgress @ [rp]) settled
      else settle_loop path rps inProgress (settled @ [rp]))"

definition settleRecentPath :: "State \<Rightarrow> string \<Rightarrow> string \<Rightarrow> State" where
  "settleRecentPath s path status =
     (let (inProgress, settled) =
        settle_loop path (stRecentPaths s) [] [\<lparr>rpPath = path, rpStatus = status\<rparr>]
      in s\<lparr>stRecentPaths := capRecentPaths (inProgress @ settled)\<rparr>)"

subsection \<open>The loops in closed form\<close>

abbreviation running :: "RecentPath list \<Rightarrow> RecentPath list" where
  "running \<equiv> filter (\<lambda>rp. rpStatus rp = in_progress)"

abbreviation done_ones :: "RecentPath list \<Rightarrow> RecentPath list" where
  "done_ones \<equiv> filter (\<lambda>rp. rpStatus rp \<noteq> in_progress)"

abbreviation other_than :: "string \<Rightarrow> RecentPath list \<Rightarrow> RecentPath list" where
  "other_than path \<equiv> filter (\<lambda>rp. rpPath rp \<noteq> path)"

lemma split_loop_eq: "split_loop rps a b = (a @ running rps, b @ done_ones rps)"
  by (induction rps arbitrary: a b) auto

lemma settle_loop_eq:
  "settle_loop path rps a b = (a @ running (other_than path rps), b @ done_ones (other_than path rps))"
  by (induction rps arbitrary: a b) auto

lemma capRecentPaths_eq: "capRecentPaths ps = take maxRecentPaths ps"
  by (simp add: capRecentPaths_def)

lemma start_paths:
  "stRecentPaths (startRecentPath s path)
     = take maxRecentPaths (\<lparr>rpPath = path, rpStatus = in_progress\<rparr> # running (stRecentPaths s)
                             @ done_ones (stRecentPaths s))"
  by (simp add: startRecentPath_def split_loop_eq capRecentPaths_eq del: take_append)

lemma settle_paths:
  "stRecentPaths (settleRecentPath s path status)
     = take maxRecentPaths (running (other_than path (stRecentPaths s))
         @ \<lparr>rpPath = path, rpStatus = status\<rparr> # done_ones (other_than path (stRecentPaths s)))"
  by (simp add: settleRecentPath_def settle_loop_eq capRecentPaths_eq del: take_append)

subsection \<open>The invariant: bounded, and in-progress before settled\<close>

definition progress_first :: "RecentPath list \<Rightarrow> bool" where
  "progress_first rps \<longleftrightarrow> rps = running rps @ done_ones rps"

definition recent_wf :: "State \<Rightarrow> bool" where
  "recent_wf s \<longleftrightarrow> length (stRecentPaths s) \<le> maxRecentPaths \<and> progress_first (stRecentPaths s)"

lemma progress_first_append:
  assumes "\<forall>rp \<in> set a. rpStatus rp = in_progress" and "\<forall>rp \<in> set b. rpStatus rp \<noteq> in_progress"
  shows "progress_first (a @ b)"
proof -
  have "running a = a" "done_ones b = b" "done_ones a = []" "running b = []"
    using assms by (auto simp: filter_id_conv filter_empty_conv)
  then show ?thesis by (simp add: progress_first_def)
qed

lemma progress_first_take:
  assumes "\<forall>rp \<in> set a. rpStatus rp = in_progress" and "\<forall>rp \<in> set b. rpStatus rp \<noteq> in_progress"
  shows "progress_first (take n (a @ b))"
  unfolding take_append using assms
  by (intro progress_first_append) (auto dest: in_set_takeD)

lemma recent_wf_zero: "recent_wf State_zero"
  by (simp add: recent_wf_def State_zero_def progress_first_def)

lemma recent_wf_start: "recent_wf (startRecentPath s path)"
proof -
  have "progress_first (take maxRecentPaths
      ((\<lparr>rpPath = path, rpStatus = in_progress\<rparr> # running (stRecentPaths s)) @ done_ones (stRecentPaths s)))"
    by (rule progress_first_take) auto
  then show ?thesis by (simp add: recent_wf_def start_paths del: take_append)
qed

lemma recent_wf_settle:
  assumes "status \<noteq> in_progress"
  shows "recent_wf (settleRecentPath s path status)"
proof -
  have "progress_first (take maxRecentPaths (running (other_than path (stRecentPaths s))
      @ (\<lparr>rpPath = path, rpStatus = status\<rparr> # done_ones (other_than path (stRecentPaths s)))))"
    by (rule progress_first_take) (use assms in auto)
  then show ?thesis by (simp add: recent_wf_def settle_paths del: take_append)
qed

text \<open>A settled path leaves the in-progress section, wherever and however often it was there.\<close>

lemma settled_not_running:
  assumes "status \<noteq> in_progress" and "rp \<in> set (stRecentPaths (settleRecentPath s path status))"
    and "rpPath rp = path"
  shows "rp = \<lparr>rpPath = path, rpStatus = status\<rparr>"
  using assms by (auto simp: settle_paths dest!: in_set_takeD)

end
