(* ===== verification/Listener.thy ===== *)
theory Listener
  imports Events Recent_Paths
begin

text \<open>
  The event listener, \<open>listener.go\<close>: \<open>updateState\<close> folds one event into the state with the
  branches of the Go \<open>switch\<close> in their order, \<open>handleEvent\<close> adds the lines it logs, \<open>State\<close> is
  the copy it hands out. The mutex makes every call of \<open>handleEvent\<close> and \<open>State\<close> atomic, so the
  state a reader gets is the fold of a prefix of the event sequence.
\<close>

definition inc_Total :: "StateCounter \<Rightarrow> StateCounter" where
  "inc_Total c = c\<lparr>scTotal := scTotal c + 1\<rparr>"

definition inc_Ok :: "StateCounter \<Rightarrow> StateCounter" where
  "inc_Ok c = c\<lparr>scOk := scOk c + 1\<rparr>"

definition inc_Error :: "StateCounter \<Rightarrow> StateCounter" where
  "inc_Error c = c\<lparr>scError := scError c + 1\<rparr>"

definition inc_Cached :: "StateCounter \<Rightarrow> StateCounter" where
  "inc_Cached c = c\<lparr>scCached := scCached c + 1\<rparr>"

definition add_Size :: "u64 \<Rightarrow> StateCounter \<Rightarrow> StateCounter" where
  "add_Size n c = c\<lparr>scSize := scSize c + n\<rparr>"

definition add_CachedSize :: "u64 \<Rightarrow> StateCounter \<Rightarrow> StateCounter" where
  "add_CachedSize n c = c\<lparr>scCachedSize := scCachedSize c + n\<rparr>"

abbreviation path_field :: "event \<Rightarrow> string" where
  "path_field e \<equiv> fst (eventField [] as_string e ''path'')"

text \<open>The case \<open>"fs.summary"\<close>.\<close>

definition summary_of :: "event \<Rightarrow> Summary" where
  "summary_of e =
     (let files = fst (eventField 0 as_uint64 e ''files'');
          directories = fst (eventField 0 as_uint64 e ''directories'');
          symlinks = fst (eventField 0 as_uint64 e ''symlinks'');
          xattrs = fst (eventField 0 as_uint64 e ''xattrs'')
      in \<lparr>smExists = True, smPaths = files + directories + symlinks + xattrs, smFiles = files,
          smDirectories = directories, smSymlinks = symlinks, smXattrs = xattrs,
          smSize = fst (eventField 0 as_uint64 e ''size'')\<rparr>)"

text \<open>The case \<open>"iostats"\<close>: the latest sample of a scope replaces the one before.\<close>

definition update_io :: "State \<Rightarrow> event \<Rightarrow> State" where
  "update_io s e =
     (let (scope, ok) = eventField [] as_string e ''scope''
      in if \<not> ok \<or> scope = [] then s
         else s\<lparr>stIO := AList.update scope
                  \<lparr>ioRead = ioDirFromEvent e ''r'', ioWrite = ioDirFromEvent e ''w''\<rparr> (stIO s)\<rparr>)"

text \<open>The case \<open>"result"\<close>.\<close>

definition update_result :: "State \<Rightarrow> event \<Rightarrow> State" where
  "update_result s e =
     (let s = s\<lparr>stPhase := ''completed''\<rparr>;
          s = s\<lparr>stResult := (stResult s)\<lparr>riSize := fst (eventField 0 as_uint64 e ''size'')\<rparr>\<rparr>;
          s = s\<lparr>stResult := (stResult s)\<lparr>riErrors := fst (eventField 0 as_uint64 e ''errors'')\<rparr>\<rparr>
      in case eventField 0 as_duration e ''duration'' of
           (d, True) \<Rightarrow> s\<lparr>stResult := (stResult s)\<lparr>riDuration := duration_seconds d\<rparr>\<rparr>
         | (_, False) \<Rightarrow> s)"

definition updateState :: "mac_api \<Rightarrow> State \<Rightarrow> event \<Rightarrow> State" where
  "updateState m s e =
    (let T = evType e in
     if T = ''workflow.start'' then
       (if evSnapshot e \<noteq> NilMac m then s\<lparr>stSnapshotID := FormatHex m (evSnapshot e)\<rparr> else s)
     else if T = ''workflow.end'' then s
     else if T = ''path'' then
       startRecentPath (s\<lparr>stPaths := inc_Total (stPaths s)\<rparr>) (path_field e)
     else if T = ''path.ok'' then
       settleRecentPath (s\<lparr>stPaths := inc_Ok (stPaths s)\<rparr>) (path_field e) ''ok''
     else if T = ''path.error'' then
       settleRecentPath (s\<lparr>stPaths := inc_Error (stPaths s)\<rparr>) (path_field e) ''error''
     else if T = ''path.cached'' then
       settleRecentPath (s\<lparr>stPaths := inc_Cached (stPaths s)\<rparr>) (path_field e) ''ok''
     else if T = ''directory'' then s\<lparr>stDirs := inc_Total (stDirs s)\<rparr>
     else if T = ''directory.ok'' then s\<lparr>stDirs := inc_Ok (stDirs s)\<rparr>
     else if T = ''directory.error'' then s\<lparr>stDirs := inc_Error (stDirs s)\<rparr>
     else if T = ''directory.cached'' then s\<lparr>stDirs := inc_Cached (stDirs s)\<rparr>
     else if T = ''file'' then s\<lparr>stFiles := inc_Total (stFiles s)\<rparr>
     else if T = ''file.ok'' then
       s\<lparr>stFiles := add_Size (fst (eventField 0 as_fileinfo e ''fileinfo'')) (inc_Ok (stFiles s))\<rparr>
     else if T = ''file.error'' then s\<lparr>stFiles := inc_Error (stFiles s)\<rparr>
     else if T = ''file.cached'' then
       s\<lparr>stFiles := add_CachedSize (fst (eventField 0 as_fileinfo e ''fileinfo'')) (inc_Cached (stFiles s))\<rparr>
     else if T = ''xattr'' then s\<lparr>stXattrs := inc_Total (stXattrs s)\<rparr>
     else if T = ''xattr.ok'' then
       s\<lparr>stXattrs := add_Size (fst (eventField 0 as_int64 e ''size'')) (inc_Ok (stXattrs s))\<rparr>
     else if T = ''xattr.error'' then s\<lparr>stXattrs := inc_Error (stXattrs s)\<rparr>
     else if T = ''xattr.cached'' then
       s\<lparr>stXattrs := add_CachedSize (fst (eventField 0 as_int64 e ''size'')) (inc_Cached (stXattrs s))\<rparr>
     else if T = ''symlink'' then s\<lparr>stSymlinks := inc_Total (stSymlinks s)\<rparr>
     else if T = ''symlink.ok'' then s\<lparr>stSymlinks := inc_Ok (stSymlinks s)\<rparr>
     else if T = ''symlink.error'' then s\<lparr>stSymlinks := inc_Error (stSymlinks s)\<rparr>
     else if T = ''symlink.cached'' then s\<lparr>stSymlinks := inc_Cached (stSymlinks s)\<rparr>
     else if T = ''object'' then s\<lparr>stObjects := inc_Total (stObjects s)\<rparr>
     else if T = ''object.ok'' then s\<lparr>stObjects := inc_Ok (stObjects s)\<rparr>
     else if T = ''object.error'' then s\<lparr>stObjects := inc_Error (stObjects s)\<rparr>
     else if T = ''object.cached'' then s\<lparr>stObjects := inc_Cached (stObjects s)\<rparr>
     else if T = ''chunk'' then s\<lparr>stChunks := inc_Total (stChunks s)\<rparr>
     else if T = ''chunk.ok'' then s\<lparr>stChunks := inc_Ok (stChunks s)\<rparr>
     else if T = ''chunk.error'' then s\<lparr>stChunks := inc_Error (stChunks s)\<rparr>
     else if T = ''chunk.cached'' then s\<lparr>stChunks := inc_Cached (stChunks s)\<rparr>
     else if T = ''fs.summary'' then s\<lparr>stSummary := summary_of e\<rparr>
     else if T = ''snapshot.import.start'' then s\<lparr>stPhase := ''processing''\<rparr>
     else if T = ''snapshot.import.done'' then s
     else if T = ''snapshot.vfs.start'' then s\<lparr>stPhase := ''building VFS''\<rparr>
     else if T = ''snapshot.vfs.end'' then s\<lparr>stPhase := ''''\<rparr>
     else if T = ''snapshot.index.start'' then s\<lparr>stPhase := ''indexing''\<rparr>
     else if T = ''snapshot.index.end'' then s\<lparr>stPhase := ''''\<rparr>
     else if T = ''snapshot.commit.start'' then s\<lparr>stPhase := ''committing''\<rparr>
     else if T = ''iostats'' then update_io s e
     else if T = ''result'' then update_result s e
     else s)"

subsection \<open>The listener and the lines it logs\<close>

text \<open>
  A log line is its format and arguments; \<open>IBytes\<close> is go-humanize's byte formatter. The first
  component is \<open>snapshotID[:4]\<close>.
\<close>

datatype log_line =
    PathKO mac string "string option"
  | PathOK mac string
  | ObjectKO mac mac "string option"
  | Completed mac string string "gval option" string string

record listener =
  lnQuiet :: bool
  lnState :: State

definition NewEventListener :: "bool \<Rightarrow> listener" where
  "NewEventListener quiet = \<lparr>lnQuiet = quiet, lnState = State_zero\<rparr>"

definition listener_State :: "listener \<Rightarrow> State" where
  "listener_State l =
     (let s = lnState l; (items, bytes) = processed s
      in s\<lparr>stProcessed := \<lparr>prItems = items, prBytes = bytes\<rparr>\<rparr>)"

definition error_str :: "u64 \<Rightarrow> string" where
  "error_str errors =
     (if 0 < errors
      then ''with '' @ dec_nat (unat errors) @ '' '' @ (if errors = 1 then ''error'' else ''errors'')
      else ''without errors'')"

definition event_log :: "mac_api \<Rightarrow> (u64 \<Rightarrow> string) \<Rightarrow> event \<Rightarrow> log_line list" where
  "event_log m IBytes e =
    (let T = evType e; sid = take 4 (evSnapshot e) in
     if T = ''path'' \<or> T = ''directory'' \<or> T = ''file'' \<or> T = ''symlink'' then []
     else if T = ''path.error'' then
       [PathKO sid (path_field e) (fst (eventField None as_error e ''error''))]
     else if T = ''path.ok'' then [PathOK sid (path_field e)]
     else if T = ''object'' \<or> T = ''chunk'' then []
     else if T = ''object.ok'' \<or> T = ''chunk.ok'' then []
     else if T = ''object.error'' \<or> T = ''chunk.error'' then
       [ObjectKO sid (fst (eventField (NilMac m) as_mac e ''mac''))
          (fst (eventField None as_error e ''error''))]
     else if T = ''result'' then
       [Completed sid (evWorkflow e) (error_str (fst (eventField 0 as_uint64 e ''errors'')))
          (map_of (evData e) ''duration'')
          (IBytes (fst (eventField 0 as_int64 e ''rbytes'')))
          (IBytes (fst (eventField 0 as_int64 e ''wbytes'')))]
     else [])"

definition handleEvent :: "mac_api \<Rightarrow> (u64 \<Rightarrow> string) \<Rightarrow> listener \<Rightarrow> event \<Rightarrow> listener \<times> log_line list" where
  "handleEvent m IBytes l e =
     (let l' = l\<lparr>lnState := updateState m (lnState l) e\<rparr>
      in if lnQuiet l \<and> evLevel e = ''info'' then (l', [])
         else (l', event_log m IBytes e))"

text \<open>\<open>Run\<close>: the goroutine that drains the bus handles the events in the order they were sent.\<close>

definition drain :: "mac_api \<Rightarrow> (u64 \<Rightarrow> string) \<Rightarrow> event list \<Rightarrow> listener \<Rightarrow> listener" where
  "drain m IBytes es l = fold (\<lambda>e l. fst (handleEvent m IBytes l e)) es l"

subsection \<open>What each field becomes under one event\<close>

lemma start_frame [listener_simps]:
  "stSummary (startRecentPath s p) = stSummary s" "stPaths (startRecentPath s p) = stPaths s"
  "stDirs (startRecentPath s p) = stDirs s" "stFiles (startRecentPath s p) = stFiles s"
  "stXattrs (startRecentPath s p) = stXattrs s" "stSymlinks (startRecentPath s p) = stSymlinks s"
  "stChunks (startRecentPath s p) = stChunks s" "stObjects (startRecentPath s p) = stObjects s"
  "stIO (startRecentPath s p) = stIO s" "stPhase (startRecentPath s p) = stPhase s"
  "stResult (startRecentPath s p) = stResult s" "stSnapshotID (startRecentPath s p) = stSnapshotID s"
  by (simp_all add: startRecentPath_def split_loop_eq)

lemma settle_frame [listener_simps]:
  "stSummary (settleRecentPath s p x) = stSummary s" "stPaths (settleRecentPath s p x) = stPaths s"
  "stDirs (settleRecentPath s p x) = stDirs s" "stFiles (settleRecentPath s p x) = stFiles s"
  "stXattrs (settleRecentPath s p x) = stXattrs s" "stSymlinks (settleRecentPath s p x) = stSymlinks s"
  "stChunks (settleRecentPath s p x) = stChunks s" "stObjects (settleRecentPath s p x) = stObjects s"
  "stIO (settleRecentPath s p x) = stIO s" "stPhase (settleRecentPath s p x) = stPhase s"
  "stResult (settleRecentPath s p x) = stResult s" "stSnapshotID (settleRecentPath s p x) = stSnapshotID s"
  by (simp_all add: settleRecentPath_def settle_loop_eq)

lemma update_io_frame [listener_simps]:
  "stSummary (update_io s e) = stSummary s" "stPaths (update_io s e) = stPaths s"
  "stDirs (update_io s e) = stDirs s" "stFiles (update_io s e) = stFiles s"
  "stXattrs (update_io s e) = stXattrs s" "stSymlinks (update_io s e) = stSymlinks s"
  "stChunks (update_io s e) = stChunks s" "stObjects (update_io s e) = stObjects s"
  "stRecentPaths (update_io s e) = stRecentPaths s" "stPhase (update_io s e) = stPhase s"
  "stResult (update_io s e) = stResult s" "stSnapshotID (update_io s e) = stSnapshotID s"
  by (simp_all add: update_io_def case_prod_beta Let_def)

lemma update_result_frame [listener_simps]:
  "stSummary (update_result s e) = stSummary s" "stPaths (update_result s e) = stPaths s"
  "stDirs (update_result s e) = stDirs s" "stFiles (update_result s e) = stFiles s"
  "stXattrs (update_result s e) = stXattrs s" "stSymlinks (update_result s e) = stSymlinks s"
  "stChunks (update_result s e) = stChunks s" "stObjects (update_result s e) = stObjects s"
  "stRecentPaths (update_result s e) = stRecentPaths s" "stPhase (update_result s e) = ''completed''"
  "stIO (update_result s e) = stIO s" "stSnapshotID (update_result s e) = stSnapshotID s"
  by (simp_all add: update_result_def Let_def split: prod.splits bool.splits)

lemma updateState_Paths [listener_simps]:
  "stPaths (updateState m s e) =
     (if evType e = ''path'' then inc_Total (stPaths s)
      else if evType e = ''path.ok'' then inc_Ok (stPaths s)
      else if evType e = ''path.error'' then inc_Error (stPaths s)
      else if evType e = ''path.cached'' then inc_Cached (stPaths s)
      else stPaths s)"
  by (simp add: updateState_def Let_def if_distrib [of stPaths] listener_simps cong: if_cong)

lemma updateState_Dirs [listener_simps]:
  "stDirs (updateState m s e) =
     (if evType e = ''directory'' then inc_Total (stDirs s)
      else if evType e = ''directory.ok'' then inc_Ok (stDirs s)
      else if evType e = ''directory.error'' then inc_Error (stDirs s)
      else if evType e = ''directory.cached'' then inc_Cached (stDirs s)
      else stDirs s)"
  by (simp add: updateState_def Let_def if_distrib [of stDirs] listener_simps cong: if_cong)

lemma updateState_Files [listener_simps]:
  "stFiles (updateState m s e) =
     (if evType e = ''file'' then inc_Total (stFiles s)
      else if evType e = ''file.ok'' then add_Size (fst (eventField 0 as_fileinfo e ''fileinfo'')) (inc_Ok (stFiles s))
      else if evType e = ''file.error'' then inc_Error (stFiles s)
      else if evType e = ''file.cached'' then add_CachedSize (fst (eventField 0 as_fileinfo e ''fileinfo'')) (inc_Cached (stFiles s))
      else stFiles s)"
  by (simp add: updateState_def Let_def if_distrib [of stFiles] listener_simps cong: if_cong)

lemma updateState_Xattrs [listener_simps]:
  "stXattrs (updateState m s e) =
     (if evType e = ''xattr'' then inc_Total (stXattrs s)
      else if evType e = ''xattr.ok'' then add_Size (fst (eventField 0 as_int64 e ''size'')) (inc_Ok (stXattrs s))
      else if evType e = ''xattr.error'' then inc_Error (stXattrs s)
      else if evType e = ''xattr.cached'' then add_CachedSize (fst (eventField 0 as_int64 e ''size'')) (inc_Cached (stXattrs s))
      else stXattrs s)"
  by (simp add: updateState_def Let_def if_distrib [of stXattrs] listener_simps cong: if_cong)

lemma updateState_Symlinks [listener_simps]:
  "stSymlinks (updateState m s e) =
     (if evType e = ''symlink'' then inc_Total (stSymlinks s)
      else if evType e = ''symlink.ok'' then inc_Ok (stSymlinks s)
      else if evType e = ''symlink.error'' then inc_Error (stSymlinks s)
      else if evType e = ''symlink.cached'' then inc_Cached (stSymlinks s)
      else stSymlinks s)"
  by (simp add: updateState_def Let_def if_distrib [of stSymlinks] listener_simps cong: if_cong)

lemma updateState_Objects [listener_simps]:
  "stObjects (updateState m s e) =
     (if evType e = ''object'' then inc_Total (stObjects s)
      else if evType e = ''object.ok'' then inc_Ok (stObjects s)
      else if evType e = ''object.error'' then inc_Error (stObjects s)
      else if evType e = ''object.cached'' then inc_Cached (stObjects s)
      else stObjects s)"
  by (simp add: updateState_def Let_def if_distrib [of stObjects] listener_simps cong: if_cong)

lemma updateState_Chunks [listener_simps]:
  "stChunks (updateState m s e) =
     (if evType e = ''chunk'' then inc_Total (stChunks s)
      else if evType e = ''chunk.ok'' then inc_Ok (stChunks s)
      else if evType e = ''chunk.error'' then inc_Error (stChunks s)
      else if evType e = ''chunk.cached'' then inc_Cached (stChunks s)
      else stChunks s)"
  by (simp add: updateState_def Let_def if_distrib [of stChunks] listener_simps cong: if_cong)


lemma updateState_RecentPaths [listener_simps]:
  "stRecentPaths (updateState m s e) =
     (if evType e = ''path'' then stRecentPaths (startRecentPath s (path_field e))
      else if evType e = ''path.ok'' then stRecentPaths (settleRecentPath s (path_field e) ''ok'')
      else if evType e = ''path.error'' then stRecentPaths (settleRecentPath s (path_field e) ''error'')
      else if evType e = ''path.cached'' then stRecentPaths (settleRecentPath s (path_field e) ''ok'')
      else stRecentPaths s)"
  by (simp add: updateState_def Let_def if_distrib [of stRecentPaths] listener_simps
      start_paths settle_paths cong: if_cong del: take_append)

lemma updateState_IO [listener_simps]:
  "stIO (updateState m s e) = (if evType e = ''iostats'' then stIO (update_io s e) else stIO s)"
  by (simp add: updateState_def Let_def if_distrib [of stIO] listener_simps cong: if_cong)

lemma updateState_Summary [listener_simps]:
  "stSummary (updateState m s e) = (if evType e = ''fs.summary'' then summary_of e else stSummary s)"
  by (simp add: updateState_def Let_def if_distrib [of stSummary] listener_simps cong: if_cong)

lemma updateState_SnapshotID [listener_simps]:
  "stSnapshotID (updateState m s e) =
     (if evType e = ''workflow.start'' \<and> evSnapshot e \<noteq> NilMac m then FormatHex m (evSnapshot e)
      else stSnapshotID s)"
  by (simp add: updateState_def Let_def if_distrib [of stSnapshotID] listener_simps cong: if_cong)

text \<open>The phase an event announces.\<close>

definition phase_write :: "event \<Rightarrow> string option" where
  "phase_write e = map_of
     [(''snapshot.import.start'', ''processing''), (''snapshot.vfs.start'', ''building VFS''),
      (''snapshot.vfs.end'', ''''), (''snapshot.index.start'', ''indexing''),
      (''snapshot.index.end'', ''''), (''snapshot.commit.start'', ''committing''),
      (''result'', ''completed'')] (evType e)"

lemma updateState_Phase [listener_simps]:
  "stPhase (updateState m s e) = (case phase_write e of None \<Rightarrow> stPhase s | Some p \<Rightarrow> p)"
  by (simp add: updateState_def phase_write_def Let_def if_distrib [of stPhase] listener_simps
      cong: if_cong)

lemma processed_frame [listener_simps]:
  "stProcessed (startRecentPath s p) = stProcessed s"
  "stProcessed (settleRecentPath s p x) = stProcessed s"
  "stProcessed (update_io s e) = stProcessed s"
  "stProcessed (update_result s e) = stProcessed s"
  by (simp_all add: startRecentPath_def split_loop_eq settleRecentPath_def settle_loop_eq
      update_io_def update_result_def Let_def split: prod.splits bool.splits)

lemma updateState_Processed [listener_simps]:
  "stProcessed (updateState m s e) = stProcessed s"
  by (simp add: updateState_def Let_def if_distrib [of stProcessed] listener_simps cong: if_cong)

subsection \<open>Properties of a whole run\<close>

text \<open>The seven kinds of items the listener counts, and the event that announces each.\<close>

datatype ctr = CPaths | CDirs | CFiles | CXattrs | CSymlinks | CObjects | CChunks

fun ctr_event :: "ctr \<Rightarrow> string" where
  "ctr_event CPaths = ''path''"
| "ctr_event CDirs = ''directory''"
| "ctr_event CFiles = ''file''"
| "ctr_event CXattrs = ''xattr''"
| "ctr_event CSymlinks = ''symlink''"
| "ctr_event CObjects = ''object''"
| "ctr_event CChunks = ''chunk''"

fun ctr_get :: "ctr \<Rightarrow> State \<Rightarrow> StateCounter" where
  "ctr_get CPaths s = stPaths s"
| "ctr_get CDirs s = stDirs s"
| "ctr_get CFiles s = stFiles s"
| "ctr_get CXattrs s = stXattrs s"
| "ctr_get CSymlinks s = stSymlinks s"
| "ctr_get CObjects s = stObjects s"
| "ctr_get CChunks s = stChunks s"

lemmas counter_defs = inc_Total_def inc_Ok_def inc_Error_def inc_Cached_def add_Size_def
  add_CachedSize_def

lemma ctr_step:
  "scTotal (ctr_get k (updateState m s e))
     = scTotal (ctr_get k s) + (if evType e = ctr_event k then 1 else 0)"
  "scOk (ctr_get k (updateState m s e))
     = scOk (ctr_get k s) + (if evType e = ctr_event k @ ''.ok'' then 1 else 0)"
  "scError (ctr_get k (updateState m s e))
     = scError (ctr_get k s) + (if evType e = ctr_event k @ ''.error'' then 1 else 0)"
  "scCached (ctr_get k (updateState m s e))
     = scCached (ctr_get k s) + (if evType e = ctr_event k @ ''.cached'' then 1 else 0)"
  by (cases k; simp add: listener_simps counter_defs)+

text \<open>The number of events of a type.\<close>

definition occurrences :: "string \<Rightarrow> event list \<Rightarrow> nat" where
  "occurrences ty es = length (filter (\<lambda>e. evType e = ty) es)"

lemma handleEvent_state [simp]:
  "lnState (fst (handleEvent m IBytes l e)) = updateState m (lnState l) e"
  "lnQuiet (fst (handleEvent m IBytes l e)) = lnQuiet l"
  by (simp_all add: handleEvent_def Let_def)

lemma drain_state: "lnState (drain m IBytes es l) = fold (\<lambda>e s. updateState m s e) es (lnState l)"
  unfolding drain_def by (induction es arbitrary: l) simp_all

text \<open>
  Property C18 (counters_count_events). After any sequence of events, each of the 28 counters
  (total, ok, error and cached of paths, directories, files, xattrs, symlinks, objects and
  chunks) is the number of events of its type, modulo \<open>2^64\<close>. No event is missed and none
  counts twice or under another kind.
\<close>

theorem counters_count_events:
  "let c = ctr_get k (lnState (drain m IBytes es (NewEventListener quiet)))
   in scTotal c = of_nat (occurrences (ctr_event k) es)
      \<and> scOk c = of_nat (occurrences (ctr_event k @ ''.ok'') es)
      \<and> scError c = of_nat (occurrences (ctr_event k @ ''.error'') es)
      \<and> scCached c = of_nat (occurrences (ctr_event k @ ''.cached'') es)"
proof -
  have zero: "ctr_get k State_zero = StateCounter_zero"
    by (cases k) (simp_all add: State_zero_def)
  note count = fold_count [where step = "\<lambda>e s. updateState m s e"]
  show ?thesis
    unfolding Let_def drain_state occurrences_def
    using count [where f = "\<lambda>s. scTotal (ctr_get k s)", OF ctr_step(1)]
      count [where f = "\<lambda>s. scOk (ctr_get k s)", OF ctr_step(2)]
      count [where f = "\<lambda>s. scError (ctr_get k s)", OF ctr_step(3)]
      count [where f = "\<lambda>s. scCached (ctr_get k s)", OF ctr_step(4)]
    by (simp add: NewEventListener_def zero StateCounter_zero_def)
qed

text \<open>The size a \<open>file.ok\<close> or \<open>file.cached\<close> event carries.\<close>

definition file_size :: "string \<Rightarrow> event \<Rightarrow> u64" where
  "file_size ty e = (if evType e = ty then fst (eventField 0 as_fileinfo e ''fileinfo'') else 0)"

lemma file_size_step:
  "scSize (stFiles (updateState m s e)) = scSize (stFiles s) + file_size ''file.ok'' e"
  "scCachedSize (stFiles (updateState m s e)) = scCachedSize (stFiles s) + file_size ''file.cached'' e"
  by (simp_all add: listener_simps counter_defs file_size_def)

definition summary_write :: "event \<Rightarrow> Summary option" where
  "summary_write e = (if evType e = ''fs.summary'' then Some (summary_of e) else None)"

lemma summary_latest:
  "stSummary (fold (\<lambda>e s. updateState m s e) es s) = latest summary_write es (stSummary s)"
  by (rule fold_latest) (simp add: listener_simps summary_write_def)

text \<open>
  Lemma (processed_readout). The running readout counts the files processed, from the
  source or from the cache, and adds up their sizes; each of the two figures falls back to the
  last scan summary when it is zero.
\<close>

theorem processed_readout:
  "let p = stProcessed (listener_State (drain m IBytes es (NewEventListener quiet)));
       items = of_nat (occurrences ''file.ok'' es) + of_nat (occurrences ''file.cached'' es);
       bytes = sum_list (map (file_size ''file.ok'') es) + sum_list (map (file_size ''file.cached'') es);
       sm = latest summary_write es Summary_zero
   in prItems p = (if items = 0 then smFiles sm else items)
      \<and> prBytes p = (if bytes = 0 then smSize sm else bytes)"
proof -
  let ?s = "fold (\<lambda>e s. updateState m s e) es State_zero"
  have cnt: "scOk (stFiles ?s) = of_nat (occurrences ''file.ok'' es)"
    "scCached (stFiles ?s) = of_nat (occurrences ''file.cached'' es)"
    using fold_count [where step = "\<lambda>e s. updateState m s e" and f = "\<lambda>s. scOk (ctr_get CFiles s)",
        OF ctr_step(2)]
      fold_count [where step = "\<lambda>e s. updateState m s e" and f = "\<lambda>s. scCached (ctr_get CFiles s)",
        OF ctr_step(4)]
    by (simp_all add: occurrences_def State_zero_def StateCounter_zero_def)
  have sizes: "scSize (stFiles ?s) = sum_list (map (file_size ''file.ok'') es)"
    "scCachedSize (stFiles ?s) = sum_list (map (file_size ''file.cached'') es)"
    using fold_sum [where step = "\<lambda>e s. updateState m s e" and f = "\<lambda>s. scSize (stFiles s)",
        OF file_size_step(1)]
      fold_sum [where step = "\<lambda>e s. updateState m s e" and f = "\<lambda>s. scCachedSize (stFiles s)",
        OF file_size_step(2)]
    by (simp_all add: State_zero_def StateCounter_zero_def)
  have "stSummary ?s = latest summary_write es Summary_zero"
    by (simp add: summary_latest) (simp add: State_zero_def)
  with cnt sizes show ?thesis
    by (simp add: listener_State_def drain_state NewEventListener_def processed_def Let_def)
qed

text \<open>What an event writes to the sample of an iostat scope.\<close>

definition io_write :: "string \<Rightarrow> event \<Rightarrow> IOScope option option" where
  "io_write scope e =
     (if evType e = ''iostats'' \<and> scope \<noteq> [] \<and> eventField [] as_string e ''scope'' = (scope, True)
      then Some (Some \<lparr>ioRead = ioDirFromEvent e ''r'', ioWrite = ioDirFromEvent e ''w''\<rparr>) else None)"

lemma update_io_lookup:
  "map_of (stIO (update_io s e)) scope =
     (if scope \<noteq> [] \<and> eventField [] as_string e ''scope'' = (scope, True)
      then Some \<lparr>ioRead = ioDirFromEvent e ''r'', ioWrite = ioDirFromEvent e ''w''\<rparr>
      else map_of (stIO s) scope)"
  by (cases "eventField [] as_string e ''scope''") (auto simp: update_io_def update_conv')

text \<open>
  Property C40 (latest_values). Phase, scan summary and the I/O sample of every scope are those
  of the last event that wrote them: a malformed or foreign event never overwrites them.
\<close>

theorem latest_values:
  "let s = lnState (drain m IBytes es (NewEventListener quiet))
   in stPhase s = latest phase_write es ''''
      \<and> stSummary s = latest summary_write es Summary_zero
      \<and> map_of (stIO s) scope = latest (io_write scope) es None"
proof -
  have "stPhase (fold (\<lambda>e s. updateState m s e) es State_zero) = latest phase_write es (stPhase State_zero)"
    by (rule fold_latest) (simp add: listener_simps)
  moreover have "map_of (stIO (fold (\<lambda>e s. updateState m s e) es State_zero)) scope
      = latest (io_write scope) es (map_of (stIO State_zero) scope)"
    by (rule fold_latest [where f = "\<lambda>s. map_of (stIO s) scope"])
      (auto simp: listener_simps io_write_def update_io_lookup)
  ultimately show ?thesis
    by (simp add: drain_state NewEventListener_def summary_latest) (simp add: State_zero_def)
qed

text \<open>
  Property C19 (recent_paths_invariant). At every moment of a run the window of recent paths
  holds at most five entries, the in-progress ones before the settled ones.
\<close>

theorem recent_paths_invariant:
  "recent_wf (lnState (drain m IBytes es (NewEventListener quiet)))"
proof -
  have "recent_wf (updateState m s e)" if "recent_wf s" for s e
    using that recent_wf_start [of s] recent_wf_settle [of _ s]
    by (simp add: recent_wf_def listener_simps in_progress_def)
  then have "recent_wf (fold (\<lambda>e s. updateState m s e) es State_zero)"
    by (intro fold_invariant_step [where I = recent_wf] recent_wf_zero)
  then show ?thesis by (simp add: drain_state NewEventListener_def)
qed

text \<open>
  Property C20 (settled_path_shown). A path event that ends a path (ok, error or cached) removes
  every other entry of that path from the window and puts it in front of the settled ones,
  with the status that ended it, unless five other paths are in progress.
\<close>

theorem settled_path_shown:
  assumes "evType e = ''path.ok'' \<or> evType e = ''path.error'' \<or> evType e = ''path.cached''"
    and "map_of (evData e) ''path'' = Some (GString p)"
  shows "let before = other_than p (stRecentPaths s);
             status = (if evType e = ''path.error'' then ''error'' else ''ok'')
         in stRecentPaths (updateState m s e)
              = take 5 (running before @ \<lparr>rpPath = p, rpStatus = status\<rparr> # done_ones before)"
  using assms
  by (auto simp: listener_simps settle_paths eventField_def maxRecentPaths_def simp del: take_append)

theorem settled_path_shown_witness:
  "stRecentPaths (updateState \<lparr>NilMac = [], FormatHex = (\<lambda>_. [])\<rparr>
     (State_zero\<lparr>stRecentPaths := [\<lparr>rpPath = ''/a'', rpStatus = ''in-progress''\<rparr>,
                                  \<lparr>rpPath = ''/b'', rpStatus = ''in-progress''\<rparr>]\<rparr>)
     \<lparr>evType = ''path.ok'', evLevel = ''info'', evSnapshot = [], evWorkflow = '''',
      evData = [(''path'', GString ''/a'')]\<rparr>)
   = [\<lparr>rpPath = ''/b'', rpStatus = ''in-progress''\<rparr>, \<lparr>rpPath = ''/a'', rpStatus = ''ok''\<rparr>]"
  by (subst settled_path_shown [where p = "''/a''", unfolded Let_def])
    (simp_all add: in_progress_def)

text \<open>
  Lemma (quiet_only_silences). The quiet flag never changes what the state becomes; it
  drops the log lines of the info-level events and no others.
\<close>

theorem quiet_only_silences:
  "lnState (drain m IBytes es (NewEventListener True)) = lnState (drain m IBytes es (NewEventListener False))
   \<and> snd (handleEvent m IBytes l e) = (if lnQuiet l \<and> evLevel e = ''info'' then [] else event_log m IBytes e)"
  by (simp add: drain_state NewEventListener_def handleEvent_def Let_def)

text \<open>The \<open>IO\<close> map keeps one binding per scope.\<close>

lemma io_keys_distinct: "distinct (map fst (stIO (lnState (drain m IBytes es (NewEventListener quiet)))))"
proof -
  have "distinct (map fst (stIO (updateState m s e)))" if "distinct (map fst (stIO s))" for s e
    using that by (simp add: listener_simps update_io_def case_prod_beta Let_def distinct_update)
  then have "distinct (map fst (stIO (fold (\<lambda>e s. updateState m s e) es State_zero)))"
    by (intro fold_invariant_step [where I = "\<lambda>s. distinct (map fst (stIO s))"])
      (simp_all add: State_zero_def)
  then show ?thesis by (simp add: drain_state NewEventListener_def)
qed

end
