(* ===== verification/Dispatch.thy ===== *)
theory Dispatch
  imports Backup_Op Check_Op Create_Op Restore_Op Rm_Op Sync_Op Test_Op Inventory_Op Listener
begin

text \<open>
  The routing of an operation to its handler and the verdict on its outcome, \<open>dispatch\<close> and
  \<open>terminalError\<close> of \<open>plaklet.go\<close>, with the properties that hold for every operation.
\<close>

definition dispatch :: "('w, 'z) inventory_api_scheme \<Rightarrow> (nat \<Rightarrow> nat) \<Rightarrow> ExecPayload
    \<Rightarrow> ('w, Report option \<times> gerror option) prog" where
  "dispatch K ch input =
     (if plOp input = ''backup'' then backup (K :: ('w, 'z) inventory_api_scheme) input
      else if plOp input = ''check'' then check K input
      else if plOp input = ''create'' then create K input
      else if plOp input = ''maintenance'' then maintenance input
      else if plOp input = ''prune'' then prune input
      else if plOp input = ''restore'' then restore K input
      else if plOp input = ''rm'' then rm K ch input
      else if plOp input = ''sync'' then synchronize K input
      else if plOp input = ''test'' then test K input
      else if plOp input = ''inventory'' then no_report (listInventory K ch input)
      else returns (fail (Errorf (''unsupported operation '' @ quoted (plOp input)))))"

text \<open>
  \<open>terminalError\<close> also writes into the report of a restore, so it returns the report as well.
\<close>

definition terminalError :: "string \<Rightarrow> Report option \<Rightarrow> State \<Rightarrow> gerror option outcome \<times> Report option" where
  "terminalError op report state =
     (case report of
        None \<Rightarrow> (Ret None, None)
      | Some r \<Rightarrow>
          if op = ''backup'' then
            (case rpBackup r of
               Some b \<Rightarrow>
                 if 0 < sint (brErrors b)
                 then (Ret (Some (Errorf (dec_int (sint (brErrors b)) @ '' file(s) could not be read''))), Some r)
                 else (Ret None, Some r)
             | None \<Rightarrow> (Ret None, Some r))
          else if op = ''restore'' then
            (let entryErrors = scError (stPaths state) + scError (stFiles state) + scError (stDirs state)
                               + scError (stSymlinks state) + scError (stXattrs state)
             in if entryErrors \<noteq> 0 then
                  (case rpRestore r of
                     None \<Rightarrow> (Panic nil_dereference, Some r)
                   | Some rr \<Rightarrow>
                       (Ret (Some (Errorf (dec_nat (unat entryErrors) @ '' entries could not be restored''))),
                        Some (r\<lparr>rpRestore := Some (rr\<lparr>rrErrors := entryErrors\<rparr>)\<rparr>)))
                else (Ret None, Some r))
          else if op = ''sync'' then
            (case rpSync r of
               Some ssr \<Rightarrow>
                 if 0 < ssErrors ssr
                 then (Ret (Some (Errorf (dec_nat (unat (ssErrors ssr)) @ '' snapshot(s) could not be synchronized''))), Some r)
                 else (Ret None, Some r)
             | None \<Rightarrow> (Ret None, Some r))
          else (Ret None, Some r))"

subsection \<open>Resources\<close>

lemma neutral_dispatch: "neutral (dispatch K ch input)"
  unfolding dispatch_def no_report_def by (rule takes_intros keeps_intros neutral_bind)+

text \<open>
  Property C2 (dispatch_gives_back). Whatever the operation and however it ends, with a result, an
  error or a crash, every importer, exporter, store, inventory, plugin connection, snapshot
  and cache it opened has been closed exactly once.
\<close>

theorem dispatch_gives_back:
  "case dispatch K ch input s of (Hang, _) \<Rightarrow> True | (_, s') \<Rightarrow> left_open s s' {#} {#}"
  using neutral_dispatch [of K ch input] by (force simp: flow_def split: prod.splits outcome.splits)

subsection \<open>Reports\<close>

text \<open>The sections of a report that are set, by the operation they belong to.\<close>

definition sections :: "Report \<Rightarrow> string list" where
  "sections r =
     (if rpBackup r \<noteq> None then [''backup''] else []) @ (if rpCheck r \<noteq> None then [''check''] else [])
     @ (if rpRestore r \<noteq> None then [''restore''] else []) @ (if rpSync r \<noteq> None then [''sync''] else [])
     @ (if rpRm r \<noteq> None then [''rm''] else []) @ (if rpPrune r \<noteq> None then [''prune''] else [])"

definition report_of_op :: "string \<Rightarrow> Report option \<times> gerror option \<Rightarrow> bool" where
  "report_of_op op r =
     (case fst r of None \<Rightarrow> True | Some rep \<Rightarrow> rpType rep = op \<and> sections rep = [op])"

lemma gives_no_report: "gives (no_report m) (\<lambda>r. fst r = None)"
  unfolding no_report_def by (rule gives_returns, rule gives_bind_any, rule gives_leaf) simp_all

lemma gives_refused: "gives (prune input) (\<lambda>r. fst r = None)" "gives (maintenance input) (\<lambda>r. fst r = None)"
  "gives (returns (fail e)) (\<lambda>r. fst r = None)"
  by (simp_all add: prune_def maintenance_def gives_def returns_def prog_simps)

lemma gives_test: "gives (test K input) (\<lambda>r. fst r = None)"
  unfolding test_def by (intro gives_cases gives_no_report gives_refused)

lemma gives_rm: "gives (rm K ch input) (report_of_op ''rm'')"
  unfolding rm_def
  by (intro gives_returns gives_cases gives_leaf gives_bind_any gives_deferring)
    (simp_all add: report_of_op_def sections_def Report_of_def)

lemma report_of_op_None: "fst r = None \<Longrightarrow> report_of_op op r"
  by (simp add: report_of_op_def)

lemma single_section:
  "report_of_op op (Some ((Report_of op)\<lparr>rpBackup := Some b\<rparr>), e) \<longleftrightarrow> op = ''backup''"
  "report_of_op op (Some ((Report_of op)\<lparr>rpCheck := Some c\<rparr>), e) \<longleftrightarrow> op = ''check''"
  "report_of_op op (Some ((Report_of op)\<lparr>rpRestore := Some r\<rparr>), e) \<longleftrightarrow> op = ''restore''"
  "report_of_op op (Some ((Report_of op)\<lparr>rpSync := Some y\<rparr>), e) \<longleftrightarrow> op = ''sync''"
  by (auto simp: report_of_op_def sections_def Report_of_def)

lemma gives_dispatch: "gives (dispatch K ch input) (report_of_op (plOp input))"
proof -
  have "report_of_op (plOp input) r" if "backup_sound K input r" "plOp input = ''backup''" for r
    using that single_section(1) [of "plOp input"]
    by (cases r; cases "fst r") (auto simp: backup_sound_def report_of_op_None)
  moreover have "report_of_op (plOp input) r" if "check_verdict_of K input r" "plOp input = ''check''" for r
    using that single_section(2) [of "plOp input"]
    by (cases r; cases "fst r")
      (auto simp: check_verdict_of_def check_sound_def check_report_def report_of_op_None)
  moreover have "report_of_op (plOp input) r" if "restore_sound K input r" "plOp input = ''restore''" for r
    using that single_section(3) [of "plOp input"]
    by (cases r; cases "fst r") (auto simp: restore_sound_def report_of_op_None)
  moreover have "report_of_op (plOp input) r" if "sync_sound K input r" "plOp input = ''sync''" for r
    using that single_section(4) [of "plOp input"]
    by (cases r; cases "fst r") (auto simp: sync_sound_def report_of_op_None)
  ultimately show ?thesis
    unfolding dispatch_def
    by (intro gives_cases(1) gives_mono [OF gives_backup] gives_mono [OF gives_check]
        gives_mono [OF gives_create] gives_mono [OF gives_refused(1)] gives_mono [OF gives_refused(2)]
        gives_mono [OF gives_restore] gives_rm [THEN gives_mono] gives_mono [OF gives_synchronize]
        gives_mono [OF gives_test] gives_mono [OF gives_no_report] gives_mono [OF gives_refused(3)])
      (auto simp: report_of_op_None create_sound_def)
qed

text \<open>
  Property C29 (report_matches_type). The report an operation returns is of that operation: its type
  is the operation's name and exactly one section is set, the one of that name.
\<close>

theorem report_matches_type:
  "case dispatch K ch input s of (Ret r, _) \<Rightarrow> report_of_op (plOp input) r | _ \<Rightarrow> True"
  using gives_dispatch [of K ch input] by (simp add: gives_def)

subsection \<open>The verdict\<close>

text \<open>The number of failures a report and the final state show for an operation.\<close>

definition failures_shown :: "string \<Rightarrow> Report \<Rightarrow> State \<Rightarrow> int" where
  "failures_shown op r state =
     (if op = ''backup'' then (case rpBackup r of Some b \<Rightarrow> max 0 (sint (brErrors b)) | None \<Rightarrow> 0)
      else if op = ''restore'' then
        uint (scError (stPaths state) + scError (stFiles state) + scError (stDirs state)
              + scError (stSymlinks state) + scError (stXattrs state))
      else if op = ''sync'' then (case rpSync r of Some y \<Rightarrow> uint (ssErrors y) | None \<Rightarrow> 0)
      else 0)"

text \<open>
  Property C5 (terminal_error_verdict). An operation that returned without an error fails after
  the fact exactly when its report or the final state shows failures: files a backup could not
  read, entries a restore could not write, snapshots a sync could not copy. On a report of the
  operation the function never crashes, although it dereferences a section of it.
\<close>

theorem terminal_error_verdict:
  assumes "report_of_op op (Some r, e)"
  shows "\<exists>err. fst (terminalError op (Some r) state) = Ret err
     \<and> (err = None \<longleftrightarrow> failures_shown op r state = 0)"
proof -
  have "rpRestore r \<noteq> None" if "op = ''restore''"
    using assms that by (auto simp: report_of_op_def sections_def split: if_splits)
  then show ?thesis
    by (auto simp: terminalError_def failures_shown_def Let_def word_gt_0 uint_0_iff split: option.split)
qed

theorem terminal_error_verdict_witness:
  "\<exists>err. fst (terminalError ''sync'' (Some ((Report_of ''sync'')\<lparr>rpSync :=
       Some \<lparr>ssTook = 0, ssLogicalSize = 0, ssErrors = 2, ssSyncs = []\<rparr>\<rparr>)) State_zero) = Ret err
     \<and> (err = None \<longleftrightarrow> failures_shown ''sync'' ((Report_of ''sync'')\<lparr>rpSync :=
       Some \<lparr>ssTook = 0, ssLogicalSize = 0, ssErrors = 2, ssSyncs = []\<rparr>\<rparr>) State_zero = 0)"
  by (rule terminal_error_verdict [where e = None]) (simp add: report_of_op_def sections_def Report_of_def)

end
