(* ===== verification/Liveness.thy ===== *)
theory Liveness
  imports Dispatch
begin

text \<open>
  Every operation comes to an end, and of replies it sends only warnings and inventory entries:
  the reports and the terminal reply are left to \<open>Main\<close>.
\<close>

definition side_reply :: "ExecReply \<Rightarrow> bool" where
  "side_reply r \<longleftrightarrow> erType r = ReplyWarning \<or> erType r = ReplyInventory"

definition tame :: "('w, 'a) prog \<Rightarrow> bool" where
  "tame m \<longleftrightarrow>
     (\<forall>s. fst (m s) \<noteq> Hang \<and> (\<exists>new. sent (snd (m s)) = sent s @ new \<and> list_all side_reply new))"

named_theorems tame_intros
  \<open>rules that show that a program fragment ends and sends no terminal reply\<close>

lemma tameD:
  assumes "tame m" and "m s = (r, s')"
  obtains new where "r \<noteq> Hang" "sent s' = sent s @ new" "list_all side_reply new"
  using assms unfolding tame_def by (metis fst_conv snd_conv)

lemma tame_leaf [tame_intros]:
  "tame (ret x)" "tame (fail e)" "tame (panic msg)" "tame (tcall f1)" "tame (ecall f2)" "tame (vcall f3)"
  "tame (look f4)" "tame (change f5)" "tame (opened r)" "tame (closed r)" "tame (with_registry q)"
  "tame (LogWarn msg)"
  by (simp_all add: tame_def prog_simps LogWarn_def message_reply_def side_reply_def)

lemma tame_bind [tame_intros]:
  assumes "tame m" and "\<And>a. tame (f a)"
  shows "tame (bind m f)"
  unfolding tame_def
proof (intro allI)
  fix s
  obtain r s' where m: "m s = (r, s')" by fastforce
  obtain new where new: "r \<noteq> Hang" "sent s' = sent s @ new" "list_all side_reply new"
    using tameD [OF assms(1) m] by blast
  show "fst (bind m f s) \<noteq> Hang
      \<and> (\<exists>new. sent (snd (bind m f s)) = sent s @ new \<and> list_all side_reply new)"
  proof (cases r)
    case (Ret a)
    obtain r' s'' where f: "f a s' = (r', s'')" by fastforce
    obtain new' where "r' \<noteq> Hang" "sent s'' = sent s' @ new'" "list_all side_reply new'"
      using tameD [OF assms(2) f] by blast
    with m new f Ret show ?thesis by (simp add: bind_def)
  qed (use m new in \<open>auto simp: bind_def\<close>)
qed

lemma tame_deferring [tame_intros]:
  assumes "tame cleanup" and "tame body"
  shows "tame (deferring cleanup body)"
  unfolding tame_def
proof (intro allI)
  fix s
  obtain r s' where b: "body s = (r, s')" by fastforce
  obtain r' s'' where c: "cleanup s' = (r', s'')" by fastforce
  obtain new where "r \<noteq> Hang" "sent s' = sent s @ new" "list_all side_reply new"
    using tameD [OF assms(2) b] by blast
  moreover obtain new' where "r' \<noteq> Hang" "sent s'' = sent s' @ new'" "list_all side_reply new'"
    using tameD [OF assms(1) c] by blast
  ultimately show "fst (deferring cleanup body s) \<noteq> Hang
      \<and> (\<exists>new. sent (snd (deferring cleanup body s)) = sent s @ new \<and> list_all side_reply new)"
    using b c by (cases r; cases r') (simp_all add: deferring_def)
qed

lemma tame_returns [tame_intros]: "tame m \<Longrightarrow> tame (returns m)"
  by (auto simp: tame_def returns_def split: prod.splits outcome.splits) (metis fst_conv snd_conv)+

lemma tame_attempt [tame_intros]: "tame m \<Longrightarrow> tame (attempt m)"
  by (auto simp: tame_def attempt_def split: prod.splits outcome.splits) (metis fst_conv snd_conv)+

lemma tame_cases [tame_intros]:
  "(b \<Longrightarrow> tame m) \<Longrightarrow> (\<not> b \<Longrightarrow> tame m') \<Longrightarrow> tame (if b then m else m')"
  "(x = None \<Longrightarrow> tame m) \<Longrightarrow> (\<And>a. x = Some a \<Longrightarrow> tame (f1 a)) \<Longrightarrow> tame (case x of None \<Rightarrow> m | Some a \<Rightarrow> f1 a)"
  "(\<And>a. y = Inl a \<Longrightarrow> tame (f2 a)) \<Longrightarrow> (\<And>a. y = Inr a \<Longrightarrow> tame (g2 a))
     \<Longrightarrow> tame (case y of Inl a \<Rightarrow> f2 a | Inr a \<Rightarrow> g2 a)"
  "(z = [] \<Longrightarrow> tame m) \<Longrightarrow> (\<And>a as. z = a # as \<Longrightarrow> tame (f3 a as))
     \<Longrightarrow> tame (case z of [] \<Rightarrow> m | a # as \<Rightarrow> f3 a as)"
  "(\<And>a b. p = (a, b) \<Longrightarrow> tame (f4 a b)) \<Longrightarrow> tame (case p of (a, b) \<Rightarrow> f4 a b)"
  by (auto split: option.split sum.split list.split prod.split)

lemma tame_ok [tame_intros]: "tame (ok_or_fail r)" "tame (check_err e)" "tame (call f)" "tame (call_unit g)"
  "tame (acquire k f')" "tame (acquire_snapshot h)"
  unfolding ok_or_fail_def check_err_def call_def call_unit_def acquire_def acquire_snapshot_def
  by (intro tame_intros)+

lemma tame_for_each [tame_intros]:
  "(\<And>x acc. tame (body x acc)) \<Longrightarrow> tame (for_each body xs acc)"
  by (induction xs arbitrary: acc) (auto intro: tame_intros)

lemma tame_connectors [tame_intros]:
  "tame (mkimporter K conf ignores)" "tame (mkexporter K conf)" "tame (mkstorage K conf)" "tame (mkinventory K conf)"
  "tame (openrepo K store pass)"
  unfolding mkimporter_def mkexporter_def mkstorage_def make_store_def mkinventory_def openrepo_def direct_def
    NewImporter_def NewExporter_def NewStorage_def NewInventory_def plugin_new_def Connect_def Let_def
  by (intro tame_intros)+

lemma tame_ensureClose [tame_intros]: "tame (ensureClose K kind c)"
proof -
  have close: "tame (connector_close K kind c)"
  proof (cases c)
    case (PluginConn h conn)
    then show ?thesis
      using wrapper_close_named [of K kind h conn] by (auto simp: closePluginConn_def intro!: tame_intros)
  qed (auto intro!: tame_intros)
  show ?thesis unfolding ensureClose_def by (intro tame_intros close)
qed

lemma tame_snapshots [tame_intros]: "tame (close_snapshot K snap)" "tame (close_cache K cache)"
  "(\<And>p. tame (finish p)) \<Longrightarrow> tame (with_parent K repo imp src finish)"
  unfolding close_snapshot_def close_cache_def with_parent_def by (intro tame_intros | assumption)+

lemma tame_check_loop [tame_intros]: "tame (check_loop K repo cache ids ccr)"
  by (induction ids arbitrary: ccr) (auto intro!: tame_intros split: prod.split)

lemma tame_rm_pool [tame_intros]:
  assumes "0 < n"
  shows "tame (rm_pool K ch n repo ids)"
  unfolding tame_def
proof (intro allI)
  fix s
  obtain w rp where "rm_pool K ch n repo ids s = (Ret rp, s\<lparr>world := w\<rparr>)"
    using rm_pool_outcome [OF assms, of K ch repo ids s] by auto
  then show "fst (rm_pool K ch n repo ids s) \<noteq> Hang
      \<and> (\<exists>new. sent (snd (rm_pool K ch n repo ids s)) = sent s @ new \<and> list_all side_reply new)" by simp
qed

lemma tame_streamEntries [tame_intros]:
  fixes K :: "('w, 'z) inventory_api_scheme"
  shows "tame (streamEntries K ch ivy)"
  unfolding tame_def
proof (intro allI)
  fix s :: "'w rt"
  have side: "list_all side_reply (map entry_reply es)" for es
    by (simp add: list_all_iff side_reply_def entry_reply_def)
  obtain entries res w where list: "ListEntries K (inner ivy) (world s) = ((entries, res), w)"
    by (metis prod.collapse)
  consider "streamEntries K ch ivy s = ((case res of None \<Rightarrow> Ret () | Some e \<Rightarrow> Err e),
            s\<lparr>world := w, sent := sent s @ map entry_reply entries\<rparr>)"
    | e pre where "streamEntries K ch ivy s = (Err e, s\<lparr>world := w, sent := sent s @ map entry_reply pre\<rparr>)"
    using stream_run [of K ivy s ch] unfolding list Let_def prod.case by blast
  then show "fst (streamEntries K ch ivy s) \<noteq> Hang
      \<and> (\<exists>new. sent (snd (streamEntries K ch ivy s)) = sent s @ new \<and> list_all side_reply new)"
    by cases (simp_all add: side split: option.split)
qed

lemma tame_operations:
  assumes "0 < sint (MaxConcurrency K)"
  shows "tame (dispatch K ch input)"
proof -
  have workers: "0 < unat (MaxConcurrency K)" using assms by (cases "MaxConcurrency K = 0") (auto simp: unat_gt_0)
  have "tame (backup K input)" unfolding backup_def backup_run_def Let_def
    by (intro tame_intros)
  moreover have "tame (check K input)" unfolding check_def check_finish_def Let_def by (intro tame_intros)
  moreover have "tame (create K input)" unfolding create_def create_encryption_def by (intro tame_intros)
  moreover have "tame (restore K input)" unfolding restore_def Let_def by (intro tame_intros)
  moreover have "tame (synchronize K input)"
    unfolding synchronize_def sync_step_def syncSnap_def sync_run_def Let_def by (intro tame_intros)
  moreover have "tame (rm K ch input)" unfolding rm_def by (intro tame_intros workers)
  moreover have "tame (test K input)"
    unfolding test_def no_report_def testStore_def testSource_def testDestination_def by (intro tame_intros)
  moreover have "tame (no_report (listInventory K ch input))"
    unfolding no_report_def listInventory_def by (intro tame_intros)
  ultimately show ?thesis
    unfolding dispatch_def prune_def maintenance_def
    by (intro tame_cases(1) tame_returns tame_leaf) assumption+
qed

text \<open>
  Property C9 (dispatch_ends). With the concurrency \<open>Main\<close> always sets, every operation comes to an
  end under every interleaving of its goroutines, and the replies it sends itself are warnings
  and inventory entries only: neither a report nor a terminal reply comes from an operation.
\<close>

theorem dispatch_ends:
  assumes "0 < sint (MaxConcurrency K)"
  shows "\<exists>r s' new. dispatch K ch input s = (r, s') \<and> r \<noteq> Hang
     \<and> sent s' = sent s @ new \<and> list_all side_reply new"
proof -
  obtain r s' where run: "dispatch K ch input s = (r, s')" by fastforce
  obtain new where "r \<noteq> Hang" "sent s' = sent s @ new" "list_all side_reply new"
    using tameD [OF tame_operations [OF assms] run] by blast
  with run show ?thesis by blast
qed

text \<open>The demonstration instance with a listing of two entries that can be encoded.\<close>

definition demo_entry :: "string \<Rightarrow> SdkEntry" where
  "demo_entry name =
     \<lparr>xvClass = ''vm'', xvSubClass = '''', xvTags = [], xvURN = ''urn:'' @ name, xvName = name, xvRegion = '''',
      xvService = '''', xvResource = '''', xvDetails = [], xvEndpoints = [], xvCountry = ''''\<rparr>"

definition demo_inventory :: "nat inventory_api" where
  "demo_inventory =
     ops_api.extend (demo \<lparr>cfgCompression = None, cfgEncryption = None, cfgRest = 0\<rparr>)
       (inventory_api.fields
          (\<lambda>_ w. (([demo_entry ''a'', demo_entry ''b''], None), w)) (\<lambda>_ _. None) (\<lambda>_. None))"

lemma demo_inventory_concurrency [simp]: "MaxConcurrency demo_inventory = 2"
  by (simp add: demo_inventory_def ops_api.defs inventory_api.defs demo_def)

theorem dispatch_ends_witness:
  "\<exists>r s' new. dispatch demo_inventory (\<lambda>_. 0)
       \<lparr>plOp = ''rm'', plTaskConfig = [], plSource = None, plTarget = None\<rparr> demo_state = (r, s')
     \<and> r \<noteq> Hang \<and> sent s' = sent demo_state @ new \<and> list_all side_reply new"
  by (rule dispatch_ends) simp

end
