(* ===== verification/Series.thy ===== *)
theory Series
  imports Prelude
begin

text \<open>
  What the self-decimating buffers of \<open>resources.go\<close>, \<open>network.go\<close> and \<open>latency.go\<close> share. The
  loop that keeps every other sample is \<open>keep_even\<close>. The interface \<open>decimator\<close> states how one
  offered reading changes a buffer of capacity \<open>2 * half\<close>; inside it, the contents of the
  buffer after any number of readings is computed once for the three samplers. The
  specification is \<open>thin (needed_stride half n)\<close>: of \<open>n\<close> readings, those at the multiples of
  the least power of two that makes them fit.
\<close>

subsection \<open>Keeping every other sample\<close>

text \<open>
  \<open>for i := 0; i < len(samples); i += 2 { kept = append(kept, samples[i]) }\<close>
\<close>

function keep_even :: "nat \<Rightarrow> 'a list \<Rightarrow> 'a list \<Rightarrow> 'a list" where
  "keep_even i samples kept =
     (if i < length samples then keep_even (i + 2) samples (kept @ [samples ! i]) else kept)"
  by pat_completeness auto
termination
  by (relation "measure (\<lambda>(i, samples, kept). length samples - i)") auto

declare keep_even.simps [simp del]

lemma keep_even_run:
  "keep_even (2 * j) xs kept = kept @ map (\<lambda>k. xs ! (2 * k)) [j..<(length xs + 1) div 2]"
proof (induction "length xs - j" arbitrary: j kept rule: less_induct)
  case less
  show ?case
  proof (cases "2 * j < length xs")
    case True
    then have "j < (length xs + 1) div 2" by simp
    then have split: "[j..<(length xs + 1) div 2] = j # [Suc j..<(length xs + 1) div 2]"
      by (rule upt_conv_Cons)
    have "keep_even (2 * j) xs kept = keep_even (2 * Suc j) xs (kept @ [xs ! (2 * j)])"
      using True by (subst keep_even.simps) simp
    also have "\<dots> = (kept @ [xs ! (2 * j)]) @ map (\<lambda>k. xs ! (2 * k)) [Suc j..<(length xs + 1) div 2]"
      by (rule less) (use True in simp)
    finally show ?thesis unfolding split by simp
  next
    case False
    then have "\<not> j < (length xs + 1) div 2" by simp
    then show ?thesis using False by (subst keep_even.simps) simp
  qed
qed

lemma keep_even_eq:
  "keep_even 0 xs [] = map (\<lambda>k. xs ! (2 * k)) [0..<(length xs + 1) div 2]"
  using keep_even_run [of 0 xs "[]"] by simp

subsection \<open>The specification\<close>

definition thin :: "nat \<Rightarrow> 'a list \<Rightarrow> 'a list" where
  "thin p xs = map (\<lambda>k. xs ! (k * p)) [0..<(length xs + p - 1) div p]"

function stride_from :: "nat \<Rightarrow> nat \<Rightarrow> nat \<Rightarrow> nat" where
  "stride_from p half n = (if p = 0 \<or> half = 0 \<or> n \<le> 2 * half * p then p else stride_from (2 * p) half n)"
  by pat_completeness auto
termination
proof (relation "measure (\<lambda>(p, half, n). n - p)")
  fix p half n :: nat
  assume "\<not> (p = 0 \<or> half = 0 \<or> n \<le> 2 * half * p)"
  then have p: "0 < p" and h: "1 \<le> half" and n: "2 * half * p < n" by auto
  have "1 * p \<le> 2 * half * p" by (rule mult_le_mono1) (use h in simp)
  then have "p < n" using n by linarith
  with p show "((2 * p, half, n), p, half, n) \<in> measure (\<lambda>(p, half, n). n - p)" by simp
qed simp

declare stride_from.simps [simp del]

definition needed_stride :: "nat \<Rightarrow> nat \<Rightarrow> nat" where
  "needed_stride half n = stride_from 1 half n"

text \<open>A power of two that fits, and whose half does not fit, is the needed stride.\<close>

lemma stride_from_power:
  assumes "0 < half" and "n \<le> 2 * half * (p * 2 ^ j)" and "0 < p"
    and "0 < j \<Longrightarrow> 2 * half * (p * 2 ^ (j - 1)) < n"
  shows "stride_from p half n = p * 2 ^ j"
  using assms
proof (induction j arbitrary: p)
  case 0
  then show ?case by (subst stride_from.simps) simp
next
  case (Suc j)
  have "p \<le> p * 2 ^ j" by simp
  then have "2 * half * p \<le> 2 * half * (p * 2 ^ j)" by (rule mult_le_mono2)
  moreover from Suc.prems(4) have "2 * half * (p * 2 ^ j) < n" by simp
  ultimately have "2 * half * p < n" by (rule le_less_trans)
  then have "stride_from p half n = stride_from (2 * p) half n"
    using Suc.prems by (subst stride_from.simps) simp
  also have "\<dots> = 2 * p * 2 ^ j"
  proof (rule Suc.IH)
    assume "0 < j"
    then have eq: "2 * p * 2 ^ (j - 1) = p * 2 ^ j" by (cases j) auto
    show "2 * half * (2 * p * 2 ^ (j - 1)) < n"
      unfolding eq using Suc.prems(4) by simp
  qed (use Suc.prems in \<open>auto simp: mult_ac\<close>)
  finally show ?case by (simp add: mult_ac)
qed

subsection \<open>The interface of a self-decimating buffer\<close>

text \<open>
  \<open>covers xs s\<close>: the buffer \<open>s\<close> holds the readings at the multiples of its stride of the
  readings \<open>xs\<close> offered so far, and \<open>tick\<close> counts those since the last one kept.
\<close>

definition covers :: "nat \<Rightarrow> 'a list \<Rightarrow> 'a list \<Rightarrow> nat \<Rightarrow> nat \<Rightarrow> bool" where
  "covers half xs smp str tck \<longleftrightarrow>
     smp = map (\<lambda>k. xs ! (k * str)) [0..<length smp] \<and>
     (if xs = [] then smp = [] \<and> str = 1 \<and> tck = 0
      else smp \<noteq> [] \<and> length xs = (length smp - 1) * str + 1 + tck \<and> tck < str) \<and>
     length smp \<le> 2 * half \<and>
     (\<exists>j. str = 2 ^ j \<and> (0 < j \<longrightarrow> half * str < length xs))"

locale decimator =
  fixes offer :: "'a \<Rightarrow> 's \<Rightarrow> 's"
    and samples :: "'s \<Rightarrow> 'a list"
    and stride :: "'s \<Rightarrow> nat"
    and tick :: "'s \<Rightarrow> nat"
    and half :: nat
  assumes half_pos: "0 < half"
    and offer_skip: "tick s + 1 < stride s \<Longrightarrow>
      samples (offer x s) = samples s \<and> stride (offer x s) = stride s \<and> tick (offer x s) = tick s + 1"
    and offer_keep: "stride s \<le> tick s + 1 \<Longrightarrow> length (samples s) < 2 * half \<Longrightarrow>
      samples (offer x s) = samples s @ [x] \<and> stride (offer x s) = stride s \<and> tick (offer x s) = 0"
    and offer_full: "stride s \<le> tick s + 1 \<Longrightarrow> 2 * half \<le> length (samples s) \<Longrightarrow>
      samples (offer x s) = keep_even 0 (samples s @ [x]) [] \<and> stride (offer x s) = 2 * stride s
        \<and> tick (offer x s) = 0"
begin

lemma covers_skip:
  assumes cov: "covers half xs (samples s) (stride s) (tick s)" and skip: "tick s + 1 < stride s"
  shows "covers half (xs @ [x]) (samples (offer x s)) (stride (offer x s)) (tick (offer x s))"
proof -
  from cov skip have ne: "xs \<noteq> []" and len: "length xs = (length (samples s) - 1) * stride s + 1 + tick s"
    by (auto simp: covers_def split: if_splits)
  from cov ne have smp: "samples s = map (\<lambda>k. xs ! (k * stride s)) [0..<length (samples s)]"
    and sne: "samples s \<noteq> []" by (auto simp: covers_def)
  have "(xs @ [x]) ! (k * stride s) = xs ! (k * stride s)" if "k < length (samples s)" for k
  proof -
    have "k * stride s \<le> (length (samples s) - 1) * stride s"
      using that by (intro mult_le_mono1) simp
    with len have "k * stride s < length xs" by linarith
    then show ?thesis by (simp add: nth_append)
  qed
  then have "samples s = map (\<lambda>k. (xs @ [x]) ! (k * stride s)) [0..<length (samples s)]"
    using smp by (metis (no_types, lifting) atLeastLessThan_iff map_cong set_upt)
  moreover obtain j where "stride s = 2 ^ j" "0 < j \<longrightarrow> half * stride s < length (xs @ [x])"
    using cov by (auto simp: covers_def intro: less_SucI)
  ultimately show ?thesis
    using cov ne len sne skip offer_skip [OF skip, of x]
    unfolding covers_def by (auto simp del: map_eq_conv)
qed

lemma kept_all:
  assumes cov: "covers half xs (samples s) (stride s) (tick s)" and keep: "stride s \<le> tick s + 1"
  shows "samples s @ [x] = map (\<lambda>k. (xs @ [x]) ! (k * stride s)) [0..<length (samples s) + 1]"
    and "length xs = length (samples s) * stride s"
proof -
  show len: "length xs = length (samples s) * stride s"
  proof (cases "xs = []")
    case False
    with cov keep have "length xs = (length (samples s) - 1) * stride s + stride s" "samples s \<noteq> []"
      by (auto simp: covers_def)
    then show ?thesis by (cases "samples s") auto
  qed (use cov in \<open>simp add: covers_def\<close>)
  have pos: "0 < stride s" using cov by (auto simp: covers_def)
  have "(xs @ [x]) ! (k * stride s) = xs ! (k * stride s)" if "k < length (samples s)" for k
    using that len pos by (simp add: nth_append)
  then have "map (\<lambda>k. (xs @ [x]) ! (k * stride s)) [0..<length (samples s)] = samples s"
    using cov unfolding covers_def by (metis (no_types, lifting) atLeastLessThan_iff map_cong set_upt)
  then show "samples s @ [x] = map (\<lambda>k. (xs @ [x]) ! (k * stride s)) [0..<length (samples s) + 1]"
    using len by (simp add: nth_append)
qed

lemma covers_keep:
  assumes cov: "covers half xs (samples s) (stride s) (tick s)" and keep: "stride s \<le> tick s + 1"
    and room: "length (samples s) < 2 * half"
  shows "covers half (xs @ [x]) (samples (offer x s)) (stride (offer x s)) (tick (offer x s))"
proof -
  have pos: "0 < stride s" using cov by (auto simp: covers_def)
  obtain j where j: "stride s = 2 ^ j" "0 < j \<longrightarrow> half * stride s < length (xs @ [x])"
    using cov by (auto simp: covers_def intro: less_SucI)
  note step = offer_keep [OF keep room, of x]
  show ?thesis
    unfolding covers_def
    using step kept_all(1) [OF cov keep, of x] kept_all(2) [OF cov keep] pos j room by (auto simp del: map_eq_conv)
qed

lemma covers_full:
  assumes cov: "covers half xs (samples s) (stride s) (tick s)" and keep: "stride s \<le> tick s + 1"
    and full: "2 * half \<le> length (samples s)"
  shows "covers half (xs @ [x]) (samples (offer x s)) (stride (offer x s)) (tick (offer x s))"
proof -
  have len: "length (samples s) = 2 * half" using cov full by (auto simp: covers_def)
  have pos: "0 < stride s" using cov by (auto simp: covers_def)
  obtain j where j: "stride s = 2 ^ j" using cov by (auto simp: covers_def)
  note all = kept_all(1) [OF cov keep, of x] kept_all(2) [OF cov keep]
  let ?kept = "keep_even 0 (samples s @ [x]) []"
  have klen: "length ?kept = half + 1" by (simp add: keep_even_eq len)
  have "?kept = map (\<lambda>k. (xs @ [x]) ! (k * (2 * stride s))) [0..<half + 1]"
    unfolding keep_even_eq using len
    by (subst all(1)) (auto simp: mult_ac nth_append simp del: upt_Suc)
  moreover have "length (xs @ [x]) = half * (2 * stride s) + 1" using all(2) len by simp
  moreover have "\<exists>i. 2 * stride s = 2 ^ i \<and> (0 < i \<longrightarrow> half * (2 * stride s) < length (xs @ [x]))"
    using j calculation(2) by (intro exI [of _ "Suc j"]) simp
  ultimately show ?thesis
    using offer_full [OF keep full, of x] klen half_pos pos
    unfolding covers_def by (auto simp del: upt_Suc)
qed

lemma covers_offer:
  assumes "covers half xs (samples s) (stride s) (tick s)"
  shows "covers half (xs @ [x]) (samples (offer x s)) (stride (offer x s)) (tick (offer x s))"
  using assms covers_skip covers_keep covers_full by (meson not_less)

lemma covers_run:
  assumes "samples s = []" and "stride s = 1" and "tick s = 0"
  shows "covers half xs (samples (fold offer xs s)) (stride (fold offer xs s)) (tick (fold offer xs s))"
proof (induction xs rule: rev_induct)
  case Nil
  from assms show ?case by (auto simp: covers_def intro: exI [of _ 0])
next
  case (snoc x xs)
  then show ?case by (simp add: covers_offer)
qed

end

subsection \<open>From the invariant to the specification\<close>

lemma covers_length:
  assumes "covers half xs smp str tck" and "xs \<noteq> []"
  shows "length smp = (length xs + str - 1) div str"
proof -
  from assms have pos: "0 < str" and len: "length xs = (length smp - 1) * str + 1 + tck"
    and t: "tck < str" and ne: "smp \<noteq> []" by (auto simp: covers_def)
  have "length xs + str - 1 = length smp * str + tck"
    using len ne pos by (cases smp) (auto simp: algebra_simps)
  with t pos show ?thesis by simp
qed

lemma covers_stride:
  assumes cov: "covers half xs smp str tck" and "0 < half"
  shows "str = needed_stride half (length xs)"
proof -
  obtain j where j: "str = 2 ^ j" "0 < j \<longrightarrow> half * str < length xs" and l: "length smp \<le> 2 * half"
    using cov by (auto simp: covers_def)
  have "length xs \<le> length smp * str"
  proof (cases "xs = []")
    case False
    with cov have "length xs = (length smp - 1) * str + 1 + tck" "tck < str" "smp \<noteq> []"
      by (auto simp: covers_def)
    then show ?thesis by (cases smp) auto
  qed simp
  also have "\<dots> \<le> 2 * half * str" using l by (rule mult_le_mono1)
  finally have fits: "length xs \<le> 2 * half * (1 * 2 ^ j)" using j by simp
  have "2 * half * (1 * 2 ^ (j - 1)) < length xs" if "0 < j"
    using j that by (cases j) auto
  then have "stride_from 1 half (length xs) = 1 * 2 ^ j"
    using assms(2) fits by (intro stride_from_power) auto
  with j show ?thesis by (simp add: needed_stride_def)
qed

context decimator
begin

lemma run_spec:
  assumes "samples s = []" and "stride s = 1" and "tick s = 0"
  shows "samples (fold offer xs s) = thin (needed_stride half (length xs)) xs"
    and "stride (fold offer xs s) = needed_stride half (length xs)"
    and "length (samples (fold offer xs s)) \<le> 2 * half"
proof -
  let ?s = "fold offer xs s"
  note cov = covers_run [OF assms, of xs]
  show str: "stride ?s = needed_stride half (length xs)" by (rule covers_stride [OF cov half_pos])
  show "length (samples ?s) \<le> 2 * half" using cov by (simp add: covers_def)
  show "samples ?s = thin (needed_stride half (length xs)) xs"
  proof (cases "xs = []")
    case True
    have "(n - Suc 0) div n = (0::nat)" for n by (cases n) auto
    with True assms show ?thesis by (simp add: thin_def)
  next
    case False
    have "samples ?s = map (\<lambda>k. xs ! (k * stride ?s)) [0..<length (samples ?s)]"
      using cov unfolding covers_def by blast
    also have "\<dots> = thin (stride ?s) xs"
      unfolding thin_def covers_length [OF cov False] ..
    finally show ?thesis by (simp add: str)
  qed
qed

lemma run_bounds:
  assumes "samples s = []" and "stride s = 1" and "tick s = 0"
  shows "stride (fold offer xs s) = 1 \<or> half * stride (fold offer xs s) < length xs"
    and "tick (fold offer xs s) < stride (fold offer xs s)"
proof -
  note cov = covers_run [OF assms, of xs]
  then obtain j where "stride (fold offer xs s) = 2 ^ j"
    "0 < j \<longrightarrow> half * stride (fold offer xs s) < length xs" by (auto simp: covers_def)
  then show "stride (fold offer xs s) = 1 \<or> half * stride (fold offer xs s) < length xs"
    by (cases j) auto
  show "tick (fold offer xs s) < stride (fold offer xs s)"
    using cov by (auto simp: covers_def split: if_splits)
qed

end

end
