(* ===== verification/Samplers.thy ===== *)
theory Samplers
  imports Run_State Series
begin

text \<open>
  The three samplers of a run, \<open>resources.go\<close>, \<open>network.go\<close> and \<open>latency.go\<close>. What they read
  from the outside (the process statistics of gopsutil, the clock) is an argument of
  \<open>sample\<close>. \<open>stride\<close> and \<open>tick\<close> are Go \<open>int\<close>s that start at 1 and 0; they are naturals here, and
  the bound on them below shows that they never come near the end of the 64-bit range.
\<close>

subsection \<open>Process resources\<close>

record resourceSampler =
  rProc :: bool \<comment> \<open>the process handle is not nil\<close>
  rSamples :: "ResourceSample list"
  rStride :: nat
  rTick :: nat

text \<open>\<open>process.NewProcess\<close> is gopsutil's; \<open>found\<close> says whether it returned a handle.\<close>

definition newResourceSampler :: "bool \<Rightarrow> resourceSampler" where
  "newResourceSampler found = \<lparr>rProc = found, rSamples = [], rStride = 1, rTick = 0\<rparr>"

definition resource_decimate :: "resourceSampler \<Rightarrow> resourceSampler" where
  "resource_decimate r = r\<lparr>rSamples := keep_even 0 (rSamples r) [], rStride := rStride r * 2\<rparr>"

definition resource_record :: "ResourceSample \<Rightarrow> resourceSampler \<Rightarrow> resourceSampler" where
  "resource_record x r =
     (let r = r\<lparr>rTick := rTick r + 1\<rparr>
      in if rTick r < rStride r then r
         else let r = r\<lparr>rTick := 0\<rparr>; r = r\<lparr>rSamples := rSamples r @ [x]\<rparr>
              in if length (rSamples r) > MaxResourceSamples then resource_decimate r else r)"

text \<open>
  One reading of the process: the CPU percentage (\<open>None\<close> when \<open>Percent\<close> fails), the resident
  set size (\<open>None\<close> when \<open>MemoryInfo\<close> fails or is nil) and the clock.
\<close>

record proc_reading =
  pdCPU :: "f64 option"
  pdRSS :: "u64 option"
  pdNow :: i64

definition resource_sample :: "proc_reading \<Rightarrow> resourceSampler \<Rightarrow> resourceSampler" where
  "resource_sample p r =
     (if \<not> rProc r then r
      else case pdCPU p of
          None \<Rightarrow> r
        | Some cpu \<Rightarrow>
            let rss = (case pdRSS p of None \<Rightarrow> 0 | Some m \<Rightarrow> m)
            in resource_record \<lparr>rsAt = pdNow p, rsCPUPercent = cpu, rsMemoryBytes = rss\<rparr> r)"

text \<open>\<open>snapshot\<close> copies the buffer; an empty one gives nil, the same list here.\<close>

definition resource_snapshot :: "resourceSampler \<Rightarrow> ResourceSample list" where
  "resource_snapshot r = rSamples r"

subsection \<open>Network throughput\<close>

record networkSampler =
  nReadScope :: string
  nWriteScope :: string
  nSamples :: "NetworkSample list"
  nStride :: nat
  nTick :: nat

definition newNetworkSampler :: "string \<Rightarrow> networkSampler" where
  "newNetworkSampler op =
     (let (read, write) =
        (if op = ''backup'' then (''source'', ''storage'')
         else if op = ''restore'' then (''storage'', ''destination'')
         else if op = ''check'' then (''storage'', '''')
         else if op = ''sync'' then (''source-storage'', ''storage'')
         else ('''', ''''))
      in \<lparr>nReadScope = read, nWriteScope = write, nSamples = [], nStride = 1, nTick = 0\<rparr>)"

definition network_record :: "NetworkSample \<Rightarrow> networkSampler \<Rightarrow> networkSampler" where
  "network_record x n =
     (let n = n\<lparr>nSamples := nSamples n @ [x]\<rparr>
      in if length (nSamples n) > MaxNetworkSamples
         then n\<lparr>nSamples := keep_even 0 (nSamples n) [], nStride := nStride n * 2\<rparr>
         else n)"

text \<open>The part of \<open>sample\<close> that counts the tick and records every \<open>stride\<close>-th reading.\<close>

definition network_offer :: "NetworkSample \<Rightarrow> networkSampler \<Rightarrow> networkSampler" where
  "network_offer x n =
     (let n = n\<lparr>nTick := nTick n + 1\<rparr>
      in if nTick n < nStride n then n else network_record x (n\<lparr>nTick := 0\<rparr>))"

text \<open>\<open>io[scope]\<close>: the zero scope when the map has no such key.\<close>

definition io_scope :: "(string \<times> IOScope) list \<Rightarrow> string \<Rightarrow> IOScope" where
  "io_scope io scope = (case map_of io scope of None \<Rightarrow> IOScope_zero | Some sc \<Rightarrow> sc)"

definition network_sample :: "(string \<times> IOScope) list \<Rightarrow> i64 \<Rightarrow> networkSampler \<Rightarrow> networkSampler" where
  "network_sample io now n =
     (if nReadScope n = [] \<and> nWriteScope n = [] then n
      else
        let readBps = (if nReadScope n \<noteq> [] then dirOverallWall (ioRead (io_scope io (nReadScope n)))
                       else f64_zero);
            writeBps = (if nWriteScope n \<noteq> [] then dirOverall (ioWrite (io_scope io (nWriteScope n)))
                        else f64_zero)
        in network_offer
             \<lparr>nsAt = now, nsReadBytesPerSec = readBps, nsWriteBytesPerSec = writeBps\<rparr> n)"

definition network_snapshot :: "networkSampler \<Rightarrow> NetworkSample list" where
  "network_snapshot n = nSamples n"

subsection \<open>Write latency\<close>

record latencySampler =
  lScope :: string
  lSamples :: "LatencySample list"
  lStride :: nat
  lTick :: nat

definition newLatencySampler :: "string \<Rightarrow> latencySampler" where
  "newLatencySampler op =
     (let scope = (if op = ''backup'' \<or> op = ''sync'' then ''storage'' else '''')
      in \<lparr>lScope = scope, lSamples = [], lStride = 1, lTick = 0\<rparr>)"

definition latency_record :: "LatencySample \<Rightarrow> latencySampler \<Rightarrow> latencySampler" where
  "latency_record x l =
     (let l = l\<lparr>lSamples := lSamples l @ [x]\<rparr>
      in if length (lSamples l) > MaxLatencySamples
         then l\<lparr>lSamples := keep_even 0 (lSamples l) [], lStride := lStride l * 2\<rparr>
         else l)"

definition latency_offer :: "LatencySample \<Rightarrow> latencySampler \<Rightarrow> latencySampler" where
  "latency_offer x l =
     (let l = l\<lparr>lTick := lTick l + 1\<rparr>
      in if lTick l < lStride l then l else latency_record x (l\<lparr>lTick := 0\<rparr>))"

definition latency_sample :: "(string \<times> IOScope) list \<Rightarrow> i64 \<Rightarrow> latencySampler \<Rightarrow> latencySampler" where
  "latency_sample io now l =
     (if lScope l = [] then l
      else
        let lat = dirLatency (ioWrite (io_scope io (lScope l)))
        in if ltCount lat = 0 then l
           else latency_offer
                  \<lparr>lsAt = now, lsCount = ltCount lat, lsAvg = ltAvg lat, lsP50 = ltP50 lat,
                   lsP95 = ltP95 lat, lsMax = ltMax lat\<rparr> l)"

definition latency_snapshot :: "latencySampler \<Rightarrow> LatencySample list" where
  "latency_snapshot l = lSamples l"

subsection \<open>The samplers are self-decimating buffers\<close>

lemmas [series_simps] = Let_def MaxResourceSamples_def MaxNetworkSamples_def MaxLatencySamples_def
  resource_record_def resource_decimate_def network_offer_def network_record_def
  latency_offer_def latency_record_def

interpretation rs: decimator resource_record rSamples rStride rTick 60
  by unfold_locales (auto simp: series_simps)

interpretation ns: decimator network_offer nSamples nStride nTick 60
  by unfold_locales (auto simp: series_simps)

interpretation ls: decimator latency_offer lSamples lStride lTick 60
  by unfold_locales (auto simp: series_simps)

subsection \<open>The readings a run offers to its samplers\<close>

definition resource_reading :: "proc_reading \<Rightarrow> ResourceSample option" where
  "resource_reading p =
     map_option (\<lambda>cpu. \<lparr>rsAt = pdNow p, rsCPUPercent = cpu,
                       rsMemoryBytes = (case pdRSS p of None \<Rightarrow> 0 | Some m \<Rightarrow> m)\<rparr>) (pdCPU p)"

definition network_reading ::
  "string \<Rightarrow> string \<Rightarrow> (string \<times> IOScope) list \<times> i64 \<Rightarrow> NetworkSample" where
  "network_reading read write = (\<lambda>(io, now).
     \<lparr>nsAt = now,
      nsReadBytesPerSec =
        (if read = [] then f64_zero else dirOverallWall (ioRead (io_scope io read))),
      nsWriteBytesPerSec =
        (if write = [] then f64_zero else dirOverall (ioWrite (io_scope io write)))\<rparr>)"

definition latency_reading :: "string \<Rightarrow> (string \<times> IOScope) list \<times> i64 \<Rightarrow> LatencySample option" where
  "latency_reading scope = (\<lambda>(io, now).
     let lat = dirLatency (ioWrite (io_scope io scope))
     in if ltCount lat = 0 then None
        else Some \<lparr>lsAt = now, lsCount = ltCount lat, lsAvg = ltAvg lat, lsP50 = ltP50 lat,
                   lsP95 = ltP95 lat, lsMax = ltMax lat\<rparr>)"

lemma resource_record_proc [simp]: "rProc (resource_record x r) = rProc r"
  by (simp add: series_simps)

lemma network_offer_scopes [simp]:
  "nReadScope (network_offer x n) = nReadScope n" "nWriteScope (network_offer x n) = nWriteScope n"
  by (simp_all add: series_simps)

lemma latency_offer_scope [simp]: "lScope (latency_offer x l) = lScope l"
  by (simp add: series_simps)

lemma resource_sample_reading:
  "rProc r \<Longrightarrow> resource_sample p r =
     (case resource_reading p of None \<Rightarrow> r | Some x \<Rightarrow> resource_record x r)"
  by (simp add: resource_sample_def resource_reading_def split: option.splits)

lemma latency_sample_reading:
  "lScope l \<noteq> [] \<Longrightarrow> latency_sample io now l =
     (case latency_reading (lScope l) (io, now) of None \<Rightarrow> l | Some x \<Rightarrow> latency_offer x l)"
  by (simp add: latency_sample_def latency_reading_def Let_def)

lemma resource_fold:
  "rProc r \<Longrightarrow> fold resource_sample ps r = fold resource_record (List.map_filter resource_reading ps) r"
  by (induction ps arbitrary: r)
    (simp_all add: resource_sample_reading List.map_filter_simps split: option.splits)

lemma resource_fold_none: "\<not> rProc r \<Longrightarrow> fold resource_sample ps r = r"
  by (induction ps) (auto simp: resource_sample_def)

lemma network_fold:
  "nReadScope n \<noteq> [] \<or> nWriteScope n \<noteq> [] \<Longrightarrow>
   fold (\<lambda>(io, now). network_sample io now) ins n
     = fold network_offer (map (network_reading (nReadScope n) (nWriteScope n)) ins) n"
  by (induction ins arbitrary: n) (auto simp: network_sample_def network_reading_def Let_def)

lemma network_fold_none:
  "nReadScope n = [] \<Longrightarrow> nWriteScope n = [] \<Longrightarrow>
   fold (\<lambda>(io, now). network_sample io now) ins n = n"
  by (induction ins) (auto simp: network_sample_def)

lemma latency_fold:
  "lScope l \<noteq> [] \<Longrightarrow>
   fold (\<lambda>(io, now). latency_sample io now) ins l
     = fold latency_offer (List.map_filter (latency_reading (lScope l)) ins) l"
  by (induction ins arbitrary: l)
    (auto simp: latency_sample_reading List.map_filter_simps split: option.splits)

lemma latency_fold_none:
  "lScope l = [] \<Longrightarrow> fold (\<lambda>(io, now). latency_sample io now) ins l = l"
  by (induction ins) (auto simp: latency_sample_def)

subsection \<open>Properties\<close>

text \<open>
  Property C17 (resource_series). After any sequence of calls of \<open>sample\<close> the resource series is
  exactly the readings that succeeded, thinned to the multiples of the least power of two that
  leaves at most 120 of them: the series spans the whole run at an even spacing, starting with
  the first reading. Without a process handle it stays empty.
\<close>

theorem resource_series:
  "resource_snapshot (fold resource_sample ps (newResourceSampler found))
     = (let xs = List.map_filter resource_reading ps
        in if found then thin (needed_stride (MaxResourceSamples div 2) (length xs)) xs else [])"
  by (cases found) (simp_all add: resource_snapshot_def resource_fold resource_fold_none
      newResourceSampler_def rs.run_spec MaxResourceSamples_def Let_def)

text \<open>
  Property C36 (network_series). The throughput series of an operation is its readings, wall-clock
  throughput of its read scope and active-time throughput of its write scope, thinned the same
  way; the operations without scopes record nothing.
\<close>

theorem network_series:
  "network_snapshot (fold (\<lambda>(io, now). network_sample io now) ins (newNetworkSampler op))
     = (let (read, write) =
              (if op = ''backup'' then (''source'', ''storage'')
               else if op = ''restore'' then (''storage'', ''destination'')
               else if op = ''check'' then (''storage'', '''')
               else if op = ''sync'' then (''source-storage'', ''storage'')
               else ('''', ''''));
            xs = map (network_reading read write) ins
        in if read = '''' \<and> write = '''' then []
           else thin (needed_stride (MaxNetworkSamples div 2) (length xs)) xs)"
  by (simp add: network_snapshot_def network_fold network_fold_none newNetworkSampler_def
      ns.run_spec MaxNetworkSamples_def Let_def)

text \<open>
  Lemma (latency_series). Only \<open>backup\<close> and \<open>sync\<close> record write latency; their series
  leaves out the ticks before the first observation, thinned the same way.
\<close>

theorem latency_series:
  "latency_snapshot (fold (\<lambda>(io, now). latency_sample io now) ins (newLatencySampler op))
     = (let xs = List.map_filter (latency_reading ''storage'') ins
        in if op = ''backup'' \<or> op = ''sync''
           then thin (needed_stride (MaxLatencySamples div 2) (length xs)) xs else [])"
  by (simp add: latency_snapshot_def latency_fold latency_fold_none newLatencySampler_def
      ls.run_spec MaxLatencySamples_def Let_def)

text \<open>
  Property C37 (series_bounded). No series ever holds more than 120 samples, and the stride and
  the tick of each sampler stay below the number of calls (or at their start values), so the Go
  \<open>int\<close>s that hold them do not wrap in fewer than \<open>2^63\<close> seconds.
\<close>

theorem series_bounded:
  "let r = fold resource_record xs (newResourceSampler found);
       n = fold network_offer ys (newNetworkSampler op);
       l = fold latency_offer zs (newLatencySampler op)
   in length (rSamples r) \<le> MaxResourceSamples \<and> rTick r < rStride r
        \<and> 60 * rStride r \<le> 60 + length xs
      \<and> length (nSamples n) \<le> MaxNetworkSamples \<and> nTick n < nStride n
        \<and> 60 * nStride n \<le> 60 + length ys
      \<and> length (lSamples l) \<le> MaxLatencySamples \<and> lTick l < lStride l
        \<and> 60 * lStride l \<le> 60 + length zs"
proof -
  let ?r = "newResourceSampler found" and ?n = "newNetworkSampler op" and ?l = "newLatencySampler op"
  have "rSamples ?r = [] \<and> rStride ?r = 1 \<and> rTick ?r = 0" by (simp add: newResourceSampler_def)
  moreover have "nSamples ?n = [] \<and> nStride ?n = 1 \<and> nTick ?n = 0"
    by (simp add: newNetworkSampler_def Let_def)
  moreover have "lSamples ?l = [] \<and> lStride ?l = 1 \<and> lTick ?l = 0"
    by (simp add: newLatencySampler_def Let_def)
  ultimately show ?thesis
    using rs.run_spec(3) [of ?r xs] rs.run_bounds [of ?r xs]
      ns.run_spec(3) [of ?n ys] ns.run_bounds [of ?n ys]
      ls.run_spec(3) [of ?l zs] ls.run_bounds [of ?l zs]
    by (auto simp: Let_def MaxResourceSamples_def MaxNetworkSamples_def MaxLatencySamples_def)
qed

end
