(* ===== verification/Reply_Stream.thy ===== *)
theory Reply_Stream
  imports Dispatch Samplers
begin

text \<open>
  The second half of \<open>Main\<close> in \<open>plaklet.go\<close>: while the operation runs, the event listener folds
  the event bus into the state, \<open>StateSampler\<close> sends the state on every tick of a ticker,
  and \<open>CancelOnSignal\<close> waits for a signal. When the operation is over, the two are stopped and
  waited for, the bus is closed and drained, the verdict is taken and the terminal reply sent.
  Dispatcher, listener, sampler, signal handler and main goroutine are the parties of a state
  machine; \<open>send\<close> holds a mutex, so a reply is one step.
\<close>

subsection \<open>Replies\<close>

definition state_reply :: "State \<Rightarrow> ExecReply" where
  "state_reply st = \<lparr>erType = ReplyState, erMessage = '''', erReport = None, erState = Some st\<rparr>"

definition report_reply :: "Report \<Rightarrow> ExecReply" where
  "report_reply r = \<lparr>erType = ReplyReport, erMessage = '''', erReport = Some (RawReport r), erState = None\<rparr>"

definition success_reply :: ExecReply where
  "success_reply = message_reply ReplySuccess ''''"

definition failure_reply :: "string \<Rightarrow> gerror \<Rightarrow> ExecReply" where
  "failure_reply op e = message_reply ReplyFailure (op @ '' failed: '' @ error_text e)"

definition signal_reply :: "string \<Rightarrow> ExecReply" where
  "signal_reply sig = message_reply ReplyInfo (''plaklet: got signal '' @ quoted sig @ '', shutting down...'')"

text \<open>
  What \<open>Main\<close> sends after the verdict; \<open>None\<close> when \<open>terminalError\<close> crashes. \<open>report_ok\<close> says
  whether a report can be encoded.
\<close>

definition final_replies :: "(Report \<Rightarrow> bool) \<Rightarrow> string \<Rightarrow> Report option \<times> gerror option \<Rightarrow> State
    \<Rightarrow> ExecReply list option" where
  "final_replies report_ok op result st =
     (let (report, err) = result in
      case err of
        Some e \<Rightarrow> Some [failure_reply op e]
      | None \<Rightarrow>
          (case terminalError op report st of
             (Ret (Some e), _) \<Rightarrow> Some [failure_reply op e]
           | (Ret None, report) \<Rightarrow>
               Some ((case report of Some r \<Rightarrow> if report_ok r then [report_reply r] else [] | None \<Rightarrow> [])
                     @ [success_reply])
           | _ \<Rightarrow> None))"

subsection \<open>The parties\<close>

text \<open>
  What the operation does to the channels, in order: it emits events and sends replies. A
  reading is what the sampler finds on a tick: the process figures and the two clocks. A
  \<open>SHold\<close> state was composed and is about to be sent; the flag marks the final one.
\<close>

datatype dact = Emit event | Reply ExecReply

record reading =
  rdProc :: proc_reading
  rdNetworkNow :: i64
  rdLatencyNow :: i64

record samplers =
  saResources :: resourceSampler
  saNetwork :: networkSampler
  saLatency :: latencySampler

datatype sampler_phase = SWait | SHold State bool | SGone

datatype main_phase = MDispatch | MJoin | MDrain | MSend "ExecReply list" | MExit | MCrash

record machine =
  mnActs :: "dact list"
  mnBus :: "event list"
  mnBusClosed :: bool
  mnListener :: listener
  mnListening :: bool
  mnStop :: bool
  mnTicks :: "reading list"
  mnFinal :: reading
  mnSamplers :: samplers
  mnSampler :: sampler_phase
  mnSignal :: "string option"
  mnSignalGone :: bool
  mnPhase :: main_phase
  mnOut :: "ExecReply list"
  mnHandled :: "event list"

text \<open>The parameters of a run: the event packages, the number of CPUs, the operation and its result.\<close>

record run_env =
  reMac :: mac_api
  reIBytes :: "u64 \<Rightarrow> string"
  reNumCPU :: i64
  reReportOk :: "Report \<Rightarrow> bool"
  reOp :: string
  reResult :: "Report option \<times> gerror option"
  reQuiet :: bool

definition newSamplers :: "bool \<Rightarrow> string \<Rightarrow> samplers" where
  "newSamplers found op =
     \<lparr>saResources = newResourceSampler found, saNetwork = newNetworkSampler op,
      saLatency = newLatencySampler op\<rparr>"

text \<open>\<open>emit\<close>, up to the encoding.\<close>

definition emit_state :: "i64 \<Rightarrow> reading \<Rightarrow> listener \<Rightarrow> samplers \<Rightarrow> State \<times> samplers" where
  "emit_state ncpu rd l sa =
     (let sa = sa\<lparr>saResources := resource_sample (rdProc rd) (saResources sa)\<rparr>;
          st = listener_State l;
          sa = sa\<lparr>saNetwork := network_sample (stIO st) (rdNetworkNow rd) (saNetwork sa)\<rparr>;
          sa = sa\<lparr>saLatency := latency_sample (stIO st) (rdLatencyNow rd) (saLatency sa)\<rparr>;
          st = st\<lparr>stResources := resource_snapshot (saResources sa)\<rparr>;
          st = st\<lparr>stNumCPU := ncpu\<rparr>;
          st = st\<lparr>stNetwork := network_snapshot (saNetwork sa)\<rparr>;
          st = st\<lparr>stLatency := latency_snapshot (saLatency sa)\<rparr>
      in (st, sa))"

definition take_sample :: "run_env \<Rightarrow> reading \<Rightarrow> bool \<Rightarrow> machine \<Rightarrow> machine" where
  "take_sample R rd last_one c =
     (let (st, sa) = emit_state (reNumCPU R) rd (mnListener c) (mnSamplers c)
      in c\<lparr>mnSamplers := sa, mnSampler := SHold st last_one\<rparr>)"

definition dispatcher_steps :: "machine \<Rightarrow> machine list" where
  "dispatcher_steps c =
     (case mnActs c of
        [] \<Rightarrow> []
      | Emit e # rest \<Rightarrow> [c\<lparr>mnActs := rest, mnBus := mnBus c @ [e]\<rparr>]
      | Reply r # rest \<Rightarrow> [c\<lparr>mnActs := rest, mnOut := mnOut c @ [r]\<rparr>])"

definition listener_steps :: "run_env \<Rightarrow> machine \<Rightarrow> machine list" where
  "listener_steps R c =
     (if \<not> mnListening c then []
      else case mnBus c of
        e # rest \<Rightarrow>
          [c\<lparr>mnBus := rest, mnListener := fst (handleEvent (reMac R) (reIBytes R) (mnListener c) e),
             mnHandled := mnHandled c @ [e]\<rparr>]
      | [] \<Rightarrow> if mnBusClosed c then [c\<lparr>mnListening := False\<rparr>] else [])"

text \<open>\<open>StateSampler\<close>: a \<open>select\<close> between the stop channel and the ticker.\<close>

definition sampler_steps :: "run_env \<Rightarrow> machine \<Rightarrow> machine list" where
  "sampler_steps R c =
     (case mnSampler c of
        SWait \<Rightarrow>
          (if mnStop c then [take_sample R (mnFinal c) True c] else [])
          @ (case mnTicks c of [] \<Rightarrow> [] | rd # rest \<Rightarrow> [take_sample R rd False (c\<lparr>mnTicks := rest\<rparr>)])
      | SHold st last_one \<Rightarrow>
          [c\<lparr>mnOut := mnOut c @ (if State_marshals st then [state_reply st] else []),
             mnSampler := (if last_one then SGone else SWait)\<rparr>]
      | SGone \<Rightarrow> [])"

text \<open>\<open>CancelOnSignal\<close>: a \<open>select\<close> between the stop channel and a signal.\<close>

definition signal_steps :: "machine \<Rightarrow> machine list" where
  "signal_steps c =
     (if mnSignalGone c then []
      else (if mnStop c then [c\<lparr>mnSignalGone := True\<rparr>] else [])
         @ (case mnSignal c of
              None \<Rightarrow> []
            | Some sig \<Rightarrow> [c\<lparr>mnOut := mnOut c @ [signal_reply sig], mnSignal := None, mnSignalGone := True\<rparr>]))"

definition verdict :: "run_env \<Rightarrow> listener \<Rightarrow> main_phase" where
  "verdict R l =
     (case final_replies (reReportOk R) (reOp R) (reResult R) (listener_State l) of
        None \<Rightarrow> MCrash
      | Some rs \<Rightarrow> MSend rs)"

definition main_goroutine_steps :: "run_env \<Rightarrow> machine \<Rightarrow> machine list" where
  "main_goroutine_steps R c =
     (case mnPhase c of
        MDispatch \<Rightarrow> if mnActs c = [] then [c\<lparr>mnStop := True, mnPhase := MJoin\<rparr>] else []
      | MJoin \<Rightarrow> if mnSampler c = SGone \<and> mnSignalGone c then [c\<lparr>mnBusClosed := True, mnPhase := MDrain\<rparr>] else []
      | MDrain \<Rightarrow> if \<not> mnListening c then [c\<lparr>mnPhase := verdict R (mnListener c)\<rparr>] else []
      | MSend (r # rs) \<Rightarrow> [c\<lparr>mnOut := mnOut c @ [r], mnPhase := MSend rs\<rparr>]
      | MSend [] \<Rightarrow> [c\<lparr>mnPhase := MExit\<rparr>]
      | _ \<Rightarrow> [])"

definition machine_succs :: "run_env \<Rightarrow> machine \<Rightarrow> machine list" where
  "machine_succs R c =
     dispatcher_steps c @ listener_steps R c @ sampler_steps R c @ signal_steps c @ main_goroutine_steps R c"

text \<open>
  The start: the listener runs, nothing has been sent. \<open>ticks\<close> are the readings of the ticks that
  fire before the sampler stops, \<open>sig\<close> the signal that arrives, if one does.
\<close>

definition machine_init :: "run_env \<Rightarrow> bool \<Rightarrow> dact list \<Rightarrow> reading list \<Rightarrow> reading \<Rightarrow> string option \<Rightarrow> machine" where
  "machine_init R found as ticks fin sig =
     \<lparr>mnActs = as, mnBus = [], mnBusClosed = False, mnListener = NewEventListener (reQuiet R),
      mnListening = True, mnStop = False, mnTicks = ticks, mnFinal = fin,
      mnSamplers = newSamplers found (reOp R), mnSampler = SWait, mnSignal = sig, mnSignalGone = False,
      mnPhase = MDispatch, mnOut = [], mnHandled = []\<rparr>"

fun act_rank :: "dact \<Rightarrow> nat" where
  "act_rank (Emit _) = 2"
| "act_rank (Reply _) = 1"

fun sampler_rank :: "sampler_phase \<Rightarrow> nat" where
  "sampler_rank SWait = 2"
| "sampler_rank (SHold _ True) = 1"
| "sampler_rank (SHold _ False) = 3"
| "sampler_rank SGone = 0"

fun phase_rank :: "main_phase \<Rightarrow> nat" where
  "phase_rank MDispatch = 6"
| "phase_rank MJoin = 5"
| "phase_rank MDrain = 4"
| "phase_rank (MSend rs) = 1 + length rs"
| "phase_rank MExit = 0"
| "phase_rank MCrash = 0"

definition machine_rank :: "machine \<Rightarrow> nat" where
  "machine_rank c =
     sum_list (map act_rank (mnActs c)) + length (mnBus c) + (if mnListening c then 1 else 0)
     + 2 * length (mnTicks c) + sampler_rank (mnSampler c) + (if mnSignalGone c then 0 else 1)
     + phase_rank (mnPhase c)"

definition machine_final :: "machine \<Rightarrow> bool" where
  "machine_final c \<longleftrightarrow> mnPhase c = MExit \<or> mnPhase c = MCrash"

subsection \<open>The steps\<close>

fun emits :: "dact list \<Rightarrow> event list" where
  "emits [] = []"
| "emits (Emit e # as) = e # emits as"
| "emits (Reply r # as) = emits as"

fun replies :: "dact list \<Rightarrow> ExecReply list" where
  "replies [] = []"
| "replies (Emit e # as) = replies as"
| "replies (Reply r # as) = r # replies as"

text \<open>A reply of the sampler or the signal handler.\<close>

definition own_reply :: "ExecReply \<Rightarrow> bool" where
  "own_reply r \<longleftrightarrow> erType r = ReplyState \<or> erType r = ReplyInfo"

definition terminal_reply :: "ExecReply \<Rightarrow> bool" where
  "terminal_reply r \<longleftrightarrow> erType r = ReplySuccess \<or> erType r = ReplyFailure"

lemma final_replies_short: "final_replies ok op res st = Some rs \<Longrightarrow> length rs \<le> 2"
  by (auto simp: final_replies_def split: prod.splits option.splits outcome.splits if_splits)

lemma take_sample_fields [simp]:
  "mnActs (take_sample R rd b c) = mnActs c" "mnBus (take_sample R rd b c) = mnBus c"
  "mnBusClosed (take_sample R rd b c) = mnBusClosed c" "mnListener (take_sample R rd b c) = mnListener c"
  "mnListening (take_sample R rd b c) = mnListening c" "mnStop (take_sample R rd b c) = mnStop c"
  "mnTicks (take_sample R rd b c) = mnTicks c" "mnSignalGone (take_sample R rd b c) = mnSignalGone c"
  "mnPhase (take_sample R rd b c) = mnPhase c" "mnOut (take_sample R rd b c) = mnOut c"
  "mnHandled (take_sample R rd b c) = mnHandled c" "mnFinal (take_sample R rd b c) = mnFinal c"
  "mnSignal (take_sample R rd b c) = mnSignal c"
  "\<exists>st. mnSampler (take_sample R rd b c) = SHold st b"
  by (simp_all add: take_sample_def case_prod_beta)

lemma machine_step_cases [consumes 1, case_names Emitted Replied Handled Unlistened Ticked Last Sent
    Dismissed Signalled Stopped Joined Judged Ended Exited]:
  assumes "c' \<in> set (machine_succs R c)"
  obtains
    (Emitted) e rest where "mnActs c = Emit e # rest" "c' = c\<lparr>mnActs := rest, mnBus := mnBus c @ [e]\<rparr>"
  | (Replied) r rest where "mnActs c = Reply r # rest" "c' = c\<lparr>mnActs := rest, mnOut := mnOut c @ [r]\<rparr>"
  | (Handled) e rest where "mnListening c" "mnBus c = e # rest"
      "c' = c\<lparr>mnBus := rest, mnListener := fst (handleEvent (reMac R) (reIBytes R) (mnListener c) e),
              mnHandled := mnHandled c @ [e]\<rparr>"
  | (Unlistened) "mnListening c" "mnBus c = []" "mnBusClosed c" "c' = c\<lparr>mnListening := False\<rparr>"
  | (Ticked) rd rest where "mnSampler c = SWait" "mnTicks c = rd # rest"
      "c' = take_sample R rd False (c\<lparr>mnTicks := rest\<rparr>)"
  | (Last) "mnSampler c = SWait" "mnStop c" "c' = take_sample R (mnFinal c) True c"
  | (Sent) st b where "mnSampler c = SHold st b"
      "c' = c\<lparr>mnOut := mnOut c @ (if State_marshals st then [state_reply st] else []),
             mnSampler := (if b then SGone else SWait)\<rparr>"
  | (Dismissed) "\<not> mnSignalGone c" "mnStop c" "c' = c\<lparr>mnSignalGone := True\<rparr>"
  | (Signalled) sig where "\<not> mnSignalGone c" "mnSignal c = Some sig"
      "c' = c\<lparr>mnOut := mnOut c @ [signal_reply sig], mnSignal := None, mnSignalGone := True\<rparr>"
  | (Stopped) "mnPhase c = MDispatch" "mnActs c = []" "c' = c\<lparr>mnStop := True, mnPhase := MJoin\<rparr>"
  | (Joined) "mnPhase c = MJoin" "mnSampler c = SGone" "mnSignalGone c"
      "c' = c\<lparr>mnBusClosed := True, mnPhase := MDrain\<rparr>"
  | (Judged) "mnPhase c = MDrain" "\<not> mnListening c" "c' = c\<lparr>mnPhase := verdict R (mnListener c)\<rparr>"
  | (Ended) r rs where "mnPhase c = MSend (r # rs)" "c' = c\<lparr>mnOut := mnOut c @ [r], mnPhase := MSend rs\<rparr>"
  | (Exited) "mnPhase c = MSend []" "c' = c\<lparr>mnPhase := MExit\<rparr>"
proof -
  consider "c' \<in> set (dispatcher_steps c)" | "c' \<in> set (listener_steps R c)" | "c' \<in> set (sampler_steps R c)"
    | "c' \<in> set (signal_steps c)" | "c' \<in> set (main_goroutine_steps R c)"
    using assms by (auto simp: machine_succs_def)
  then show thesis
  proof cases
    case 1
    show thesis
    proof (cases "mnActs c")
      case (Cons a rest)
      with 1 show thesis using Emitted Replied by (cases a) (simp_all add: dispatcher_steps_def)
    qed (use 1 in \<open>simp add: dispatcher_steps_def\<close>)
  next
    case 2
    then show thesis using Handled Unlistened by (auto simp: listener_steps_def split: list.splits if_splits)
  next
    case 3
    show thesis
    proof (cases "mnSampler c")
      case SWait
      with 3 consider "mnStop c" "c' = take_sample R (mnFinal c) True c"
        | rd rest where "mnTicks c = rd # rest" "c' = take_sample R rd False (c\<lparr>mnTicks := rest\<rparr>)"
        by (cases "mnTicks c") (auto simp: sampler_steps_def split: if_splits)
      then show thesis using Ticked Last SWait by cases
    qed (use 3 Sent in \<open>simp_all add: sampler_steps_def\<close>)
  next
    case 4
    then show thesis using Dismissed Signalled
      by (auto simp: signal_steps_def split: option.splits if_splits)
  next
    case 5
    then show thesis
    proof (cases "mnPhase c")
      case (MSend rs)
      with 5 show thesis using Ended Exited by (cases rs) (simp_all add: main_goroutine_steps_def)
    qed (use 5 Stopped Joined Judged in \<open>simp_all add: main_goroutine_steps_def split: if_splits\<close>)
  qed
qed

lemma verdict_rank: "phase_rank (verdict R l) < 4"
  using final_replies_short [of "reReportOk R" "reOp R" "reResult R" "listener_State l"]
  by (auto simp: verdict_def split: option.split)

lemma machine_lowers:
  assumes "c' \<in> set (machine_succs R c)"
  shows "machine_rank c' < machine_rank c"
  using assms
proof (cases rule: machine_step_cases)
  case (Ticked rd rest)
  then obtain st where "mnSampler c' = SHold st False" using take_sample_fields(14) by blast
  with Ticked show ?thesis by (simp add: machine_rank_def)
next
  case Last
  then obtain st where "mnSampler c' = SHold st True" using take_sample_fields(14) by blast
  with Last show ?thesis by (simp add: machine_rank_def)
next
  case (Sent st b)
  then show ?thesis by (cases b) (simp_all add: machine_rank_def)
next
  case Judged
  then show ?thesis using verdict_rank [of R "mnListener c"] by (simp add: machine_rank_def)
qed (simp_all add: machine_rank_def)

subsection \<open>The invariant\<close>

text \<open>
  \<open>body\<close> is what was sent before the verdict: the operation's replies in their order, mixed with
  those of the sampler and of the signal handler.
\<close>

definition body_ok :: "ExecReply list \<Rightarrow> ExecReply list \<Rightarrow> bool" where
  "body_ok sends body \<longleftrightarrow>
     filter (\<lambda>r. \<not> own_reply r) body = sends \<and> list_all (\<lambda>r. own_reply r \<or> r \<in> set sends) body"

definition ending :: "run_env \<Rightarrow> event list \<Rightarrow> ExecReply list option" where
  "ending R es = final_replies (reReportOk R) (reOp R) (reResult R)
     (listener_State (drain (reMac R) (reIBytes R) es (NewEventListener (reQuiet R))))"

definition stream_part :: "run_env \<Rightarrow> dact list \<Rightarrow> machine \<Rightarrow> bool" where
  "stream_part R as c \<longleftrightarrow>
     (case mnPhase c of
        MSend rs \<Rightarrow> (\<exists>body pre. mnOut c = body @ pre \<and> body_ok (replies as) body \<and> ending R (emits as) = Some (pre @ rs))
      | MExit \<Rightarrow> (\<exists>body fin. mnOut c = body @ fin \<and> body_ok (replies as) body \<and> ending R (emits as) = Some fin)
      | MCrash \<Rightarrow> ending R (emits as) = None
      | _ \<Rightarrow> \<exists>done. replies as = done @ replies (mnActs c) \<and> body_ok done (mnOut c))"

text \<open>What has been stopped, closed and emptied in each phase of the main goroutine.\<close>

definition control :: "machine \<Rightarrow> bool" where
  "control c \<longleftrightarrow>
     (case mnPhase c of
        MDispatch \<Rightarrow> mnListening c \<and> \<not> mnBusClosed c
      | MJoin \<Rightarrow> mnActs c = [] \<and> mnStop c \<and> mnListening c \<and> \<not> mnBusClosed c
      | MDrain \<Rightarrow> mnActs c = [] \<and> mnSampler c = SGone \<and> mnSignalGone c \<and> mnBusClosed c
                  \<and> (mnListening c \<or> mnBus c = [])
      | _ \<Rightarrow> mnActs c = [] \<and> mnSampler c = SGone \<and> mnSignalGone c \<and> \<not> mnListening c \<and> mnBus c = [])"

definition machine_inv :: "run_env \<Rightarrow> dact list \<Rightarrow> machine \<Rightarrow> bool" where
  "machine_inv R as c \<longleftrightarrow>
     emits as = mnHandled c @ mnBus c @ emits (mnActs c)
     \<and> mnListener c = drain (reMac R) (reIBytes R) (mnHandled c) (NewEventListener (reQuiet R))
     \<and> list_all (\<lambda>r. \<not> own_reply r) (replies (mnActs c))
     \<and> control c \<and> stream_part R as c"

lemma drain_snoc: "drain m f (es @ [e]) l = fst (handleEvent m f (drain m f es l) e)"
  by (simp add: drain_def)

lemma body_ok_own: "own_reply r \<Longrightarrow> body_ok sends body \<Longrightarrow> body_ok sends (body @ [r])"
  by (simp add: body_ok_def)

lemma body_ok_send:
  "\<not> own_reply r \<Longrightarrow> body_ok sends body \<Longrightarrow> body_ok (sends @ [r]) (body @ [r])"
  by (auto simp: body_ok_def list_all_iff)

lemma own_replies [simp]: "own_reply (state_reply st)" "own_reply (signal_reply sig)"
  by (simp_all add: own_reply_def state_reply_def signal_reply_def message_reply_def)

lemma stream_part_same:
  assumes "mnPhase c' = mnPhase c" "mnOut c' = mnOut c" "replies (mnActs c') = replies (mnActs c)"
  shows "stream_part R as c' = stream_part R as c"
  unfolding stream_part_def assms ..

lemma stream_part_own:
  assumes "stream_part R as c" "mnPhase c = MDispatch \<or> mnPhase c = MJoin" "own_reply r"
    "mnPhase c' = mnPhase c" "mnOut c' = mnOut c @ [r]" "mnActs c' = mnActs c"
  shows "stream_part R as c'"
proof -
  obtain sofar where "replies as = sofar @ replies (mnActs c)" "body_ok sofar (mnOut c)"
    using assms(1,2) by (auto simp: stream_part_def)
  with body_ok_own [OF assms(3) this(2)] assms(2,4-6) show ?thesis by (auto simp: stream_part_def)
qed

lemma stream_part_verdict:
  assumes "stream_part R as c" "mnPhase c = MDrain" "mnActs c = []"
    "mnPhase c' = (case ending R (emits as) of None \<Rightarrow> MCrash | Some rs \<Rightarrow> MSend rs)" "mnOut c' = mnOut c"
  shows "stream_part R as c'"
  using assms by (cases "ending R (emits as)") (auto simp: stream_part_def)

lemma stream_part_send:
  assumes "stream_part R as c" "mnPhase c = MSend (r # rs)" "mnPhase c' = MSend rs" "mnOut c' = mnOut c @ [r]"
  shows "stream_part R as c'"
proof -
  obtain body pre where "mnOut c = body @ pre" "body_ok (replies as) body"
    "ending R (emits as) = Some (pre @ r # rs)"
    using assms(1,2) by (auto simp: stream_part_def)
  then have "mnOut c' = body @ (pre @ [r])" "ending R (emits as) = Some ((pre @ [r]) @ rs)"
    using assms(4) by simp_all
  with \<open>body_ok (replies as) body\<close> assms(3) show ?thesis unfolding stream_part_def by auto
qed

lemma machine_invD:
  assumes "machine_inv R as c"
  shows "stream_part R as c" "control c" "list_all (\<lambda>r. \<not> own_reply r) (replies (mnActs c))"
    "emits as = mnHandled c @ mnBus c @ emits (mnActs c)"
    "mnListener c = drain (reMac R) (reIBytes R) (mnHandled c) (NewEventListener (reQuiet R))"
  using assms unfolding machine_inv_def by blast+

text \<open>
  A step of the listener, the sampler or the signal handler that sends nothing changes at most
  the place of an event; a step that sends adds a reply of its own; the main goroutine moves
  to its next phase.
\<close>

lemma keeps_silent:
  assumes inv: "machine_inv R as c" and ctl: "control c \<Longrightarrow> control c'"
    and same: "mnPhase c' = mnPhase c" "mnOut c' = mnOut c" "replies (mnActs c') = replies (mnActs c)"
    and moved: "mnHandled c' @ mnBus c' @ emits (mnActs c') = mnHandled c @ mnBus c @ emits (mnActs c)"
    and fed: "mnListener c' = drain (reMac R) (reIBytes R) (mnHandled c') (NewEventListener (reQuiet R))"
  shows "machine_inv R as c'"
  using machine_invD [OF inv] ctl stream_part_same [OF same] same(3) moved fed by (simp add: machine_inv_def)

lemma keeps_own:
  assumes inv: "machine_inv R as c" and "control c'"
    and phase: "mnPhase c = MDispatch \<or> mnPhase c = MJoin" and own: "own_reply r"
    and same: "mnPhase c' = mnPhase c" "mnActs c' = mnActs c" "mnBus c' = mnBus c" "mnHandled c' = mnHandled c"
      "mnListener c' = mnListener c" and out: "mnOut c' = mnOut c @ [r]"
  shows "machine_inv R as c'"
  using machine_invD [OF inv] assms(2) stream_part_own [OF machine_invD(1) [OF inv] phase own same(1) out same(2)] same
  by (simp add: machine_inv_def)

lemma keeps_phase:
  assumes inv: "machine_inv R as c" and "control c'" and "stream_part R as c'"
    and "mnActs c' = mnActs c" "mnBus c' = mnBus c" "mnHandled c' = mnHandled c" "mnListener c' = mnListener c"
  shows "machine_inv R as c'"
  using machine_invD [OF inv] assms(2-) by (simp add: machine_inv_def)

lemma keeps_reply:
  assumes inv: "machine_inv R as c" and head: "mnActs c = Reply r # rest"
    and c': "c' = c\<lparr>mnActs := rest, mnOut := mnOut c @ [r]\<rparr>"
  shows "machine_inv R as c'"
proof -
  note I = machine_invD [OF inv]
  have phase: "mnPhase c = MDispatch" using I(2) head by (cases "mnPhase c") (simp_all add: control_def)
  have foreign: "\<not> own_reply r" using I(3) head by simp
  obtain sofar where "replies as = sofar @ r # replies rest" "body_ok sofar (mnOut c)"
    using I(1) phase head by (auto simp: stream_part_def)
  then have "replies as = (sofar @ [r]) @ replies rest" "body_ok (sofar @ [r]) (mnOut c @ [r])"
    using body_ok_send [OF foreign] by simp_all
  then have "stream_part R as c'" using phase c' unfolding stream_part_def by auto
  moreover have "control c'" using I(2) phase c' by (simp add: control_def)
  ultimately show ?thesis using I head c' by (simp add: machine_inv_def)
qed

lemma keeps_sent:
  assumes inv: "machine_inv R as c" and hold: "mnSampler c = SHold st b"
    and c': "c' = c\<lparr>mnOut := mnOut c @ (if State_marshals st then [state_reply st] else []),
                   mnSampler := (if b then SGone else SWait)\<rparr>"
  shows "machine_inv R as c'"
proof -
  note I = machine_invD [OF inv]
  have phase: "mnPhase c = MDispatch \<or> mnPhase c = MJoin"
    using I(2) hold by (cases "mnPhase c") (simp_all add: control_def)
  then have ctl: "control c'" using I(2) c' by (auto simp: control_def)
  show ?thesis
  proof (cases "State_marshals st")
    case True
    with c' show ?thesis by (intro keeps_own [OF inv ctl phase own_replies(1)]) simp_all
  next
    case False
    with c' ctl I(5) show ?thesis by (intro keeps_silent [OF inv]) simp_all
  qed
qed

lemma keeps_verdict:
  assumes inv: "machine_inv R as c" and phase: "mnPhase c = MDrain" "\<not> mnListening c"
    and c': "c' = c\<lparr>mnPhase := verdict R (mnListener c)\<rparr>"
  shows "machine_inv R as c'"
proof -
  note I = machine_invD [OF inv]
  have gone: "mnActs c = []" "mnBus c = []" using phase I(2) by (simp_all add: control_def)
  then have v: "verdict R (mnListener c) = (case ending R (emits as) of None \<Rightarrow> MCrash | Some rs \<Rightarrow> MSend rs)"
    using I(4,5) by (simp add: verdict_def ending_def)
  have "stream_part R as c'"
    using phase gone c' by (intro stream_part_verdict [OF I(1)]) (simp_all add: v)
  moreover have "control c'"
    using phase I(2) c' v by (cases "ending R (emits as)") (simp_all add: control_def)
  ultimately show ?thesis using c' by (intro keeps_phase [OF inv]) simp_all
qed

lemma machine_keeps:
  assumes step: "c' \<in> set (machine_succs R c)" and inv: "machine_inv R as c"
  shows "machine_inv R as c'"
proof -
  note I = machine_invD [OF inv]
  show ?thesis using step
  proof (cases rule: machine_step_cases)
    case (Emitted e rest)
    with I(5) show ?thesis
      by (intro keeps_silent [OF inv]) (cases "mnPhase c"; simp add: control_def)+
  next
    case (Replied r rest)
    then show ?thesis by (rule keeps_reply [OF inv])
  next
    case (Handled e rest)
    with I(5) show ?thesis
      by (intro keeps_silent [OF inv]) (cases "mnPhase c"; simp add: control_def drain_snoc)+
  next
    case Unlistened
    with I(5) show ?thesis
      by (intro keeps_silent [OF inv]) (cases "mnPhase c"; simp add: control_def)+
  next
    case (Ticked rd rest)
    with I(5) show ?thesis
      by (intro keeps_silent [OF inv]) (cases "mnPhase c"; simp add: control_def)+
  next
    case Last
    with I(5) show ?thesis
      by (intro keeps_silent [OF inv]) (cases "mnPhase c"; simp add: control_def)+
  next
    case (Sent st b)
    then show ?thesis by (rule keeps_sent [OF inv])
  next
    case Dismissed
    with I(5) show ?thesis
      by (intro keeps_silent [OF inv]) (cases "mnPhase c"; simp add: control_def)+
  next
    case (Signalled sig)
    then have phase: "mnPhase c = MDispatch \<or> mnPhase c = MJoin"
      using I(2) by (cases "mnPhase c") (simp_all add: control_def)
    then have "control c'" using I(2) Signalled by (auto simp: control_def)
    with Signalled show ?thesis by (intro keeps_own [OF inv _ phase own_replies(2)]) simp_all
  next
    case Stopped
    with I show ?thesis by (intro keeps_phase [OF inv]) (simp_all add: stream_part_def control_def)
  next
    case Joined
    with I show ?thesis by (intro keeps_phase [OF inv]) (simp_all add: stream_part_def control_def)
  next
    case Judged
    then show ?thesis by (intro keeps_verdict [OF inv])
  next
    case (Ended r rs)
    with I stream_part_send [OF I(1)] show ?thesis
      by (intro keeps_phase [OF inv]) (simp_all add: control_def)
  next
    case Exited
    with I show ?thesis by (intro keeps_phase [OF inv]) (auto simp: stream_part_def control_def)
  qed
qed

lemma machine_stuck:
  assumes inv: "machine_inv R as c" and none: "machine_succs R c = []"
  shows "machine_final c"
proof -
  have quiet: "dispatcher_steps c = []" "listener_steps R c = []" "sampler_steps R c = []" "signal_steps c = []"
    "main_goroutine_steps R c = []"
    using none by (simp_all add: machine_succs_def)
  have ctl: "control c" using inv by (simp add: machine_inv_def)
  show ?thesis
  proof (cases "mnPhase c")
    case MDispatch
    have "mnActs c = []" using quiet(1) by (simp add: dispatcher_steps_def split: list.splits dact.splits)
    with quiet(5) MDispatch show ?thesis by (simp add: main_goroutine_steps_def)
  next
    case MJoin
    then have "mnStop c" using ctl by (simp add: control_def)
    then have "mnSampler c = SGone" "mnSignalGone c"
      using quiet(3,4) by (simp_all add: sampler_steps_def signal_steps_def split: sampler_phase.splits if_splits)
    with quiet(5) MJoin show ?thesis by (simp add: main_goroutine_steps_def)
  next
    case MDrain
    then have "mnBusClosed c" using ctl by (simp add: control_def)
    then have "\<not> mnListening c" using quiet(2) by (simp add: listener_steps_def split: list.splits if_splits)
    with quiet(5) MDrain show ?thesis by (simp add: main_goroutine_steps_def)
  next
    case (MSend rs)
    with quiet(5) show ?thesis by (cases rs) (simp_all add: main_goroutine_steps_def)
  qed (simp_all add: machine_final_def)
qed

interpretation run: scheduled "machine_succs R" machine_rank "machine_inv R as" machine_final
  for R :: run_env and as :: "dact list"
  by unfold_locales (rule machine_lowers machine_keeps machine_stuck, assumption+)+

lemma machine_inv_init:
  "list_all (\<lambda>r. \<not> own_reply r) (replies as) \<Longrightarrow> machine_inv R as (machine_init R found as ticks fin sig)"
  by (simp add: machine_inv_def stream_part_def machine_init_def body_ok_def drain_def control_def)

text \<open>The run of the second half of \<open>Main\<close> under a schedule.\<close>

definition machine_run :: "run_env \<Rightarrow> (nat \<Rightarrow> nat) \<Rightarrow> machine \<Rightarrow> machine" where
  "machine_run R ch c = sched_run (machine_succs R) (machine_rank c) ch c"

lemma machine_outcome:
  assumes "list_all (\<lambda>r. \<not> own_reply r) (replies as)"
    and "machine_run R ch (machine_init R found as ticks fin sig) = c"
  shows "(mnPhase c = MExit \<and> (\<exists>body fin. mnOut c = body @ fin \<and> body_ok (replies as) body
            \<and> ending R (emits as) = Some fin))
       \<or> (mnPhase c = MCrash \<and> ending R (emits as) = None)"
proof -
  have "machine_inv R as c \<and> machine_final c"
    unfolding assms(2) [symmetric] machine_run_def
    by (rule run.run_final [OF machine_inv_init [OF assms(1)] order_refl])
  then have part: "stream_part R as c" and final: "machine_final c" by (simp_all add: machine_inv_def)
  from final consider "mnPhase c = MExit" | "mnPhase c = MCrash" unfolding machine_final_def by blast
  then show ?thesis using part by cases (simp_all add: stream_part_def)
qed

subsection \<open>The states that are sent\<close>

text \<open>
  \<open>event_part\<close> is what a state owes to the events: the sampler fills in the rest. \<open>state_at\<close> is that
  part after the first \<open>k\<close> events. \<open>shown\<close> lists the states sent so far and the one about to be sent.
\<close>

definition event_part :: "State \<Rightarrow> State" where
  "event_part st = st\<lparr>stResources := [], stNumCPU := 0, stNetwork := [], stLatency := []\<rparr>"

definition state_at :: "run_env \<Rightarrow> event list \<Rightarrow> nat \<Rightarrow> State" where
  "state_at R es k =
     event_part (listener_State (drain (reMac R) (reIBytes R) (take k es) (NewEventListener (reQuiet R))))"

definition states_sent :: "ExecReply list \<Rightarrow> State option list" where
  "states_sent rs = map (\<lambda>r. map_option event_part (erState r)) (filter (\<lambda>r. erType r = ReplyState) rs)"

definition pending :: "sampler_phase \<Rightarrow> State option list" where
  "pending q = (case q of SHold st _ \<Rightarrow> [Some (event_part st)] | _ \<Rightarrow> [])"

text \<open>A list of states, each after some number of events, none earlier than the one before.\<close>

definition in_order :: "run_env \<Rightarrow> event list \<Rightarrow> nat \<Rightarrow> State option list \<Rightarrow> bool" where
  "in_order R es n sts \<longleftrightarrow>
     (\<exists>ks. sorted ks \<and> list_all (\<lambda>k. k \<le> n) ks \<and> sts = map (\<lambda>k. Some (state_at R es k)) ks)"

lemma in_order_mono: "in_order R es n sts \<Longrightarrow> n \<le> n' \<Longrightarrow> in_order R es n' sts"
  unfolding in_order_def by (fastforce simp: list_all_iff)

lemma in_order_snoc:
  assumes "in_order R es n sts"
  shows "in_order R es n (sts @ [Some (state_at R es n)])"
proof -
  obtain ks where "sorted ks" "list_all (\<lambda>k. k \<le> n) ks" "sts = map (\<lambda>k. Some (state_at R es k)) ks"
    using assms unfolding in_order_def by blast
  then show ?thesis
    unfolding in_order_def by (intro exI [of _ "ks @ [n]"]) (auto simp: sorted_append list_all_iff)
qed

lemma in_order_front: "in_order R es n (sts @ sts') \<Longrightarrow> in_order R es n sts"
  unfolding in_order_def
  by (auto simp: append_eq_map_conv sorted_append)

definition states_inv :: "run_env \<Rightarrow> dact list \<Rightarrow> machine \<Rightarrow> bool" where
  "states_inv R as c \<longleftrightarrow>
     machine_inv R as c
     \<and> in_order R (emits as) (length (mnHandled c)) (states_sent (mnOut c) @ pending (mnSampler c))"

lemma take_sample_state:
  "mnSampler (take_sample R rd b c) = SHold (fst (emit_state (reNumCPU R) rd (mnListener c) (mnSamplers c))) b"
  by (simp add: take_sample_def case_prod_beta)

lemma emit_state_event_part: "event_part (fst (emit_state n rd l sa)) = event_part (listener_State l)"
  by (simp add: emit_state_def event_part_def Let_def)

lemma states_sent_simps [simp]:
  "states_sent (xs @ ys) = states_sent xs @ states_sent ys"
  "states_sent [state_reply st] = [Some (event_part st)]"
  "states_sent [signal_reply sig] = []"
  "states_sent [] = []"
  "erType r \<noteq> ReplyState \<Longrightarrow> states_sent [r] = []"
  by (simp_all add: states_sent_def state_reply_def signal_reply_def message_reply_def)

lemma sampled_state:
  assumes "machine_inv R as c"
  shows "event_part (fst (emit_state n rd (mnListener c) sa)) = state_at R (emits as) (length (mnHandled c))"
  using machine_invD(4,5) [OF assms] by (simp add: emit_state_event_part state_at_def)

lemma ending_no_state:
  assumes "ending R es = Some (pre @ r # rs)"
  shows "erType r \<noteq> ReplyState"
proof -
  have "list_all (\<lambda>r. erType r \<noteq> ReplyState) fin" if "ending R es = Some fin" for fin
    using that
    by (auto simp: ending_def final_replies_def report_reply_def success_reply_def failure_reply_def
        message_reply_def split: prod.splits option.splits outcome.splits if_splits)
  from this [OF assms] show ?thesis by simp
qed

lemma states_keep:
  assumes step: "c' \<in> set (machine_succs R c)" and inv: "states_inv R as c"
  shows "states_inv R as c'"
proof -
  have minv: "machine_inv R as c" and ord: "in_order R (emits as) (length (mnHandled c))
      (states_sent (mnOut c) @ pending (mnSampler c))"
    using inv by (simp_all add: states_inv_def)
  have "in_order R (emits as) (length (mnHandled c')) (states_sent (mnOut c') @ pending (mnSampler c'))"
    using step
  proof (cases rule: machine_step_cases)
    case (Replied r rest)
    then have "erType r \<noteq> ReplyState" using machine_invD(3) [OF minv] by (auto simp: own_reply_def)
    with Replied ord show ?thesis by simp
  next
    case (Handled e rest)
    then show ?thesis using in_order_mono [OF ord] by simp
  next
    case (Ticked rd rest)
    then show ?thesis
      using in_order_snoc [OF in_order_front [OF ord]] sampled_state [OF minv]
      by (simp add: take_sample_state pending_def)
  next
    case Last
    then show ?thesis
      using in_order_snoc [OF in_order_front [OF ord]] sampled_state [OF minv]
      by (simp add: take_sample_state pending_def)
  next
    case (Sent st b)
    then show ?thesis
      using ord in_order_front [OF ord] by (cases b) (simp_all add: pending_def)
  next
    case (Ended r rs)
    have "erType r \<noteq> ReplyState"
      using machine_invD(1) [OF minv] Ended(1) ending_no_state [of R "emits as" _ r rs]
      by (auto simp: stream_part_def)
    with Ended ord show ?thesis by simp
  qed (use ord in simp_all)
  with machine_keeps [OF step minv] show ?thesis by (simp add: states_inv_def)
qed

interpretation states: scheduled "machine_succs R" machine_rank "states_inv R as" machine_final
  for R :: run_env and as :: "dact list"
  by unfold_locales (auto simp: states_inv_def intro: machine_lowers machine_stuck dest: states_keep)

lemma machine_states:
  assumes "list_all (\<lambda>r. \<not> own_reply r) (replies as)"
    and "machine_run R ch (machine_init R found as ticks fin sig) = c"
  shows "in_order R (emits as) (length (emits as)) (states_sent (mnOut c))"
proof -
  have "states_inv R as (machine_init R found as ticks fin sig)"
    using machine_inv_init [OF assms(1)]
    by (simp add: states_inv_def machine_init_def pending_def in_order_def)
  then have "states_inv R as c"
    unfolding assms(2) [symmetric] machine_run_def by (rule states.run_final [THEN conjunct1]) simp
  then have "in_order R (emits as) (length (mnHandled c)) (states_sent (mnOut c))"
    "emits as = mnHandled c @ mnBus c @ emits (mnActs c)"
    using in_order_front machine_invD(4) by (auto simp: states_inv_def)
  then show ?thesis by (metis in_order_mono length_append le_add1)
qed

subsection \<open>An evaluated run\<close>

text \<open>
  The machine runs: one event, no tick, no signal, and a schedule in which the sampler takes its
  last sample before the listener has handled the event. The last state that is sent then
  lags behind the state the verdict is taken on.
\<close>

definition lag_env :: run_env where
  "lag_env = \<lparr>reMac = \<lparr>NilMac = [], FormatHex = hex_encode\<rparr>, reIBytes = (\<lambda>_. ''0 B''), reNumCPU = 1,
     reReportOk = (\<lambda>_. True), reOp = ''backup'', reResult = (None, None), reQuiet = False\<rparr>"

definition lag_event :: event where
  "lag_event = \<lparr>evType = ''file.ok'', evLevel = ''info'', evSnapshot = [], evWorkflow = '''', evData = []\<rparr>"

definition lag_reading :: reading where
  "lag_reading = \<lparr>rdProc = \<lparr>pdCPU = None, pdRSS = None, pdNow = 0\<rparr>, rdNetworkNow = 0, rdLatencyNow = 0\<rparr>"

definition lag_schedule :: "nat \<Rightarrow> nat" where
  "lag_schedule i = (if i = 1 \<or> i = 2 \<or> i = 3 then 1 else 0)"

theorem last_state_may_lag:
  "let c = machine_run lag_env lag_schedule (machine_init lag_env False [Emit lag_event] [] lag_reading None)
   in map (\<lambda>r. (erType r, map_option (\<lambda>st. scOk (stFiles st)) (erState r))) (mnOut c)
        = [(ReplyState, Some 0), (ReplySuccess, None)]
      \<and> scOk (stFiles (lnState (mnListener c))) = 1"
  by code_simp

end
