(* ===== verification/Go_Flags.thy ===== *)
theory Go_Flags
  imports Go_Strings Go_Conv
begin

text \<open>
  The command line of \<open>Main\<close>, as package flag reads it: the five flags, integers in the syntax
  of \<open>strconv.ParseInt(s, 0, 64)\<close>, and \<open>FlagSet.Parse\<close>. A value of type \<open>int\<close> has 64 bits.
\<close>

record options =
  oPkg :: string
  oCache :: string
  oCpu :: i64
  oConcurrency :: i64
  oQuiet :: bool

subsection \<open>Integers with a base prefix\<close>

definition to_lower_char :: "char \<Rightarrow> char" where
  "to_lower_char c =
     (let n = of_char c :: nat in if 65 \<le> n \<and> n \<le> 90 then char_of (n + 32) else c)"

definition base_digit :: "char \<Rightarrow> nat option" where
  "base_digit c =
     (let n = of_char (to_lower_char c) :: nat in
      if 48 \<le> n \<and> n \<le> 57 then Some (n - 48)
      else if 97 \<le> n \<and> n \<le> 122 then Some (n - 87)
      else None)"

definition base_prefix :: "string \<Rightarrow> nat \<times> string" where
  "base_prefix s =
     (case s of
        CHR ''0'' # c # d # r \<Rightarrow>
          if to_lower_char c = CHR ''b'' then (2, d # r)
          else if to_lower_char c = CHR ''o'' then (8, d # r)
          else if to_lower_char c = CHR ''x'' then (16, d # r)
          else (8, c # d # r)
      | CHR ''0'' # r \<Rightarrow> (8, r)
      | _ \<Rightarrow> (10, s))"

fun base_value :: "nat \<Rightarrow> string \<Rightarrow> nat \<Rightarrow> nat option" where
  "base_value b [] n = Some n"
| "base_value b (c # cs) n =
     (if c = CHR ''_'' then base_value b cs n
      else case base_digit c of
             None \<Rightarrow> None
           | Some d \<Rightarrow> if d < b then base_value b cs (n * b + d) else None)"

text \<open>Underscores separate digits; one may follow the base prefix. \<open>saw\<close> is as in the library.\<close>

fun underscores_ok :: "bool \<Rightarrow> char \<Rightarrow> string \<Rightarrow> bool" where
  "underscores_ok hex saw [] \<longleftrightarrow> saw \<noteq> CHR ''_''"
| "underscores_ok hex saw (c # cs) \<longleftrightarrow>
     (if is_digit c \<or> hex \<and> (case base_digit c of Some d \<Rightarrow> d < 16 | None \<Rightarrow> False)
      then underscores_ok hex (CHR ''0'') cs
      else if c = CHR ''_'' then saw = CHR ''0'' \<and> underscores_ok hex (CHR ''_'') cs
      else saw \<noteq> CHR ''_'' \<and> underscores_ok hex (CHR ''!'') cs)"

definition underscoreOK :: "string \<Rightarrow> bool" where
  "underscoreOK s =
     (case s of
        CHR ''0'' # c # r \<Rightarrow>
          if to_lower_char c \<in> {CHR ''b'', CHR ''o'', CHR ''x''}
          then underscores_ok (to_lower_char c = CHR ''x'') (CHR ''0'') r
          else underscores_ok False (CHR ''^'') s
      | _ \<Rightarrow> underscores_ok False (CHR ''^'') s)"

definition ParseInt0 :: "string \<Rightarrow> i64 option" where
  "ParseInt0 s =
     (let (neg, ds) = (case s of
            CHR ''-'' # r \<Rightarrow> (True, r) | CHR ''+'' # r \<Rightarrow> (False, r) | _ \<Rightarrow> (False, s));
          (b, body) = base_prefix ds
      in if ds = [] \<or> (CHR ''_'' \<in> set ds \<and> \<not> underscoreOK ds) then None
         else case base_value b body 0 of
                None \<Rightarrow> None
              | Some n \<Rightarrow>
                  if (if neg then 2 ^ 63 < n else 2 ^ 63 \<le> n) then None
                  else Some (word_of_int (if neg then - int n else int n)))"

subsection \<open>Flags\<close>

definition is_flag :: "string \<Rightarrow> bool" where
  "is_flag name \<longleftrightarrow> name \<in> {''pkg'', ''cache'', ''cpu'', ''concurrency'', ''quiet''}"

definition is_bool_flag :: "string \<Rightarrow> bool" where
  "is_bool_flag name \<longleftrightarrow> name = ''quiet''"

definition set_flag :: "string \<Rightarrow> string \<Rightarrow> options \<Rightarrow> options option" where
  "set_flag name v opts =
     (if name = ''pkg'' then Some (opts\<lparr>oPkg := v\<rparr>)
      else if name = ''cache'' then Some (opts\<lparr>oCache := v\<rparr>)
      else if name = ''cpu'' then map_option (\<lambda>n. opts\<lparr>oCpu := n\<rparr>) (ParseInt0 v)
      else if name = ''concurrency'' then map_option (\<lambda>n. opts\<lparr>oConcurrency := n\<rparr>) (ParseInt0 v)
      else if name = ''quiet'' then map_option (\<lambda>b. opts\<lparr>oQuiet := b\<rparr>) (ParseBool v)
      else None)"

text \<open>
  The name and value of a flag argument: \<open>None\<close> when the argument ends the flags, \<open>Some None\<close>
  for bad syntax.
\<close>

definition flag_text :: "string \<Rightarrow> string option option" where
  "flag_text s =
     (case s of
        CHR ''-'' # c # r \<Rightarrow>
          if c = CHR ''-'' \<and> r = [] then None
          else (let name = (if c = CHR ''-'' then r else c # r)
                in case name of
                     x # _ \<Rightarrow> if x = CHR ''-'' \<or> x = CHR ''='' then Some None else Some (Some name)
                   | [] \<Rightarrow> Some None)
      | _ \<Rightarrow> None)"

fun parse_flags :: "string list \<Rightarrow> options \<Rightarrow> options option" where
  "parse_flags [] opts = Some opts"
| "parse_flags (s # args) opts =
     (case flag_text s of
        None \<Rightarrow> Some opts
      | Some None \<Rightarrow> None
      | Some (Some text) \<Rightarrow>
          (let (name, v, has_value) = cut ''='' text in
           if \<not> is_flag name then None
           else if is_bool_flag name then
             (case set_flag name (if has_value then v else ''true'') opts of
                None \<Rightarrow> None | Some opts \<Rightarrow> parse_flags args opts)
           else if has_value then
             (case set_flag name v opts of None \<Rightarrow> None | Some opts \<Rightarrow> parse_flags args opts)
           else (case args of
                   [] \<Rightarrow> None
                 | v # args \<Rightarrow>
                     (case set_flag name v opts of None \<Rightarrow> None | Some opts \<Rightarrow> parse_flags args opts))))"

end
