(* ===== verification/Executor.thy ===== *)
theory Executor
  imports Liveness Reply_Stream Go_Flags
begin

text \<open>
  \<open>Main\<close> of \<open>plaklet.go\<close>: flags, cache and packages, the payload, the run of the operation with
  the goroutines around it, and the exit code. What \<open>Main\<close> prints to stderr is left out.
\<close>

subsection \<open>The process around the operation\<close>

text \<open>
  The calls of \<open>Main\<close> into the runtime, the operating system and the package loader.
  \<open>LoadAll\<close> gives the packages it passes to the load hook, and its error. \<open>DecodeStdin\<close> is the
  JSON decoder on stdin, \<open>EndOfInput\<close> an error that is \<open>io.EOF\<close>.
\<close>

datatype decoded = EndOfInput | Malformed gerror | Payload ExecPayload

record 'w main_api = "'w inventory_api" +
  GOMAXPROCS :: i64
  NumCPU :: i64
  SetGOMAXPROCS :: "i64 \<Rightarrow> 'w \<Rightarrow> 'w"
  MkdirAll :: "string \<Rightarrow> 'w \<Rightarrow> gerror option \<times> 'w"
  OpenCache :: "string \<Rightarrow> 'w \<Rightarrow> 'w"
  CloseCaches :: "'w \<Rightarrow> 'w"
  NewFlatBackend :: "string \<Rightarrow> string \<Rightarrow> 'w \<Rightarrow> gerror option \<times> 'w"
  LoadAll :: "string \<Rightarrow> 'w \<Rightarrow> ((Manifest \<times> string \<times> string) list \<times> gerror option) \<times> 'w"
  DecodeStdin :: "'w \<Rightarrow> decoded \<times> 'w"
  EventMac :: mac_api
  EventIBytes :: "u64 \<Rightarrow> string"
  MarshalReport :: "Report \<Rightarrow> bool"

text \<open>
  What is not the program's to decide: the events the operation emits before each of its
  replies, the readings of the sampler, a signal, and the schedules of the goroutines.
\<close>

record surroundings =
  suEvents :: "event list list"
  suProcFound :: bool
  suTicks :: "reading list"
  suFinal :: reading
  suSignal :: "string option"
  suMain :: "nat \<Rightarrow> nat"
  suOperation :: "nat \<Rightarrow> nat"

datatype ended = Exited int | Crashed string | Hung

fun weave :: "event list list \<Rightarrow> ExecReply list \<Rightarrow> dact list" where
  "weave ess [] = map Emit (concat ess)"
| "weave [] (r # rs) = Reply r # weave [] rs"
| "weave (es # ess) (r # rs) = map Emit es @ Reply r # weave ess rs"

subsection \<open>Setting up\<close>

definition i64_max :: "i64 \<Rightarrow> i64 \<Rightarrow> i64" where
  "i64_max x y = (if sint x < sint y then y else x)"

definition default_options :: "('w, 'z) main_api_scheme \<Rightarrow> options" where
  "default_options K =
     \<lparr>oPkg = '''', oCache = '''', oCpu = i64_max (GOMAXPROCS K - 1) 1, oConcurrency = 0, oQuiet = False\<rparr>"

definition concurrency_of :: "('w, 'z) main_api_scheme \<Rightarrow> options \<Rightarrow> i64" where
  "concurrency_of K opts =
     (if sint (oConcurrency opts) \<le> 0 then i64_max (NumCPU K) 1 else oConcurrency opts)"

text \<open>Lines 99 to 112: the exit code when the packages cannot be loaded.\<close>

definition load_packages :: "('w, 'z) main_api_scheme \<Rightarrow> options \<Rightarrow> ('w, int option) prog" where
  "load_packages K opts =
     (if oPkg opts = '''' then ret None
      else bind (ecall (NewFlatBackend K (oPkg opts) (oCache opts))) (\<lambda>err.
        case err of
          Some e \<Rightarrow> ret (Some 1)
        | None \<Rightarrow>
            bind (vcall (LoadAll K (oPkg opts))) (\<lambda>(pkgs, err).
            bind (for_each (\<lambda>(m, version, pkgdir) _. pkgLoadHook K m version pkgdir) pkgs ()) (\<lambda>_.
            ret (case err of Some e \<Rightarrow> Some 1 | None \<Rightarrow> None)))))"

subsection \<open>Running the operation\<close>

text \<open>
  Lines 142 to 177. A panic of the operation ends the process; the replies it had sent are kept.
\<close>

definition run_task :: "('w, 'z) main_api_scheme \<Rightarrow> surroundings \<Rightarrow> bool \<Rightarrow> ExecPayload
    \<Rightarrow> 'w rt \<Rightarrow> ended \<times> 'w rt" where
  "run_task K C quiet input s =
     (case dispatch K (suOperation C) input s of
        (Panic msg, s') \<Rightarrow> (Crashed msg, s')
      | (Hang, s') \<Rightarrow> (Hung, s')
      | (r, s') \<Rightarrow>
          (let result = (case r of Ret result \<Rightarrow> result | Err e \<Rightarrow> (None, Some e) | _ \<Rightarrow> (None, None));
               R = \<lparr>reMac = EventMac K, reIBytes = EventIBytes K, reNumCPU = NumCPU K,
                    reReportOk = MarshalReport K, reOp = plOp input, reResult = result, reQuiet = quiet\<rparr>;
               acts = weave (suEvents C) (drop (length (sent s)) (sent s'));
               c = machine_run R (suMain C)
                     (machine_init R (suProcFound C) acts (suTicks C) (suFinal C) (suSignal C));
               s'' = s'\<lparr>sent := sent s @ mnOut c\<rparr>
           in (case mnPhase c of
                 MExit \<Rightarrow> (Exited 0, s'')
               | MCrash \<Rightarrow> (Crashed nil_dereference, s'')
               | _ \<Rightarrow> (Hung, s''))))"

definition after_cache :: "('w, 'z) main_api_scheme \<Rightarrow> surroundings \<Rightarrow> options \<Rightarrow> 'w rt \<Rightarrow> ended \<times> 'w rt" where
  "after_cache K C opts s =
     (case load_packages K opts s of
        (Ret (Some code), s) \<Rightarrow> (Exited code, s)
      | (Err e, s) \<Rightarrow> (Exited 1, s)
      | (Panic msg, s) \<Rightarrow> (Crashed msg, s)
      | (Hang, s) \<Rightarrow> (Hung, s)
      | (Ret None, s) \<Rightarrow>
          (case DecodeStdin K (world s) of
             (EndOfInput, w) \<Rightarrow> (Exited 0, s\<lparr>world := w\<rparr>)
           | (Malformed e, w) \<Rightarrow> (Exited 1, s\<lparr>world := w\<rparr>)
           | (Payload input, w) \<Rightarrow> run_task K C (oQuiet opts) input (s\<lparr>world := w\<rparr>)))"

text \<open>The concurrency of the context is the field \<open>MaxConcurrency\<close> the operations read.\<close>

definition Main :: "('w, 'z) main_api_scheme \<Rightarrow> surroundings \<Rightarrow> string list \<Rightarrow> 'w rt \<Rightarrow> ended \<times> 'w rt" where
  "Main K C args s =
     (case parse_flags args (default_options K) of
        None \<Rightarrow> (Exited 2, s)
      | Some opts \<Rightarrow>
          if oCache opts = '''' then (Exited 2, s)
          else
            (let w = (if 0 < sint (oCpu opts) then SetGOMAXPROCS K (oCpu opts) (world s) else world s) in
             case MkdirAll K (oCache opts) w of
               (Some e, w) \<Rightarrow> (Exited 1, s\<lparr>world := w\<rparr>)
             | (None, w) \<Rightarrow>
                 (let K = K\<lparr>MaxConcurrency := concurrency_of K opts\<rparr>;
                      (e, s) = after_cache K C opts (s\<lparr>world := OpenCache K (oCache opts) w\<rparr>)
                  in (e, s\<lparr>world := CloseCaches K (world s)\<rparr>))))"

subsection \<open>Facts of the parts\<close>

lemma weave_parts [simp]: "replies (weave ess rs) = rs" "emits (weave ess rs) = concat ess"
proof -
  have emit: "replies (map Emit es @ as) = replies as" "emits (map Emit es @ as) = es @ emits as" for es as
    by (induction es) simp_all
  have nil: "replies (map Emit es) = []" "emits (map Emit es) = es" for es
    using emit [of es "[]"] by simp_all
  show "replies (weave ess rs) = rs" "emits (weave ess rs) = concat ess"
    by (induction ess rs rule: weave.induct) (simp_all add: emit nil)
qed

lemma concurrency_positive: "0 < sint (concurrency_of K opts)"
  by (auto simp: concurrency_of_def i64_max_def)

lemma returns_no_error: "fst (returns m s) \<noteq> Err e"
  by (simp add: returns_def split: prod.split outcome.split)

lemma dispatch_no_error: "fst (dispatch K ch input s) \<noteq> Err e"
  unfolding dispatch_def backup_def check_def create_def restore_def rm_def synchronize_def test_def
    no_report_def prune_def maintenance_def
  by (simp add: returns_no_error split: option.split)

lemma side_replies:
  assumes "list_all side_reply rs"
  shows "list_all (\<lambda>r. \<not> own_reply r) rs" and "list_all (\<lambda>r. \<not> terminal_reply r) rs"
  using assms by (auto simp: list_all_iff side_reply_def own_reply_def terminal_reply_def)

lemma own_not_terminal: "own_reply r \<Longrightarrow> \<not> terminal_reply r"
  by (auto simp: own_reply_def terminal_reply_def)

lemma body_not_terminal:
  assumes "body_ok rs body" and "list_all side_reply rs"
  shows "list_all (\<lambda>r. \<not> terminal_reply r) body"
  using assms side_replies(2) [OF assms(2)] own_not_terminal unfolding body_ok_def list_all_iff by blast

text \<open>
  The operation succeeded: it returned no error, and neither its report nor the final state
  shows a failure. \<open>right_ending\<close> says which replies close the stream then, and otherwise.
\<close>

definition succeeds :: "string \<Rightarrow> Report option \<times> gerror option \<Rightarrow> State \<Rightarrow> bool" where
  "succeeds op result st \<longleftrightarrow>
     snd result = None \<and> (case fst result of None \<Rightarrow> True | Some r \<Rightarrow> failures_shown op r st = 0)"

definition right_ending :: "(Report \<Rightarrow> bool) \<Rightarrow> string \<Rightarrow> Report option \<times> gerror option \<Rightarrow> State
    \<Rightarrow> ExecReply list \<Rightarrow> bool" where
  "right_ending report_ok op result st fin \<longleftrightarrow>
     (if succeeds op result st
      then fin = (case fst result of Some r \<Rightarrow> if report_ok r then [report_reply r] else [] | None \<Rightarrow> [])
                 @ [success_reply]
      else \<exists>e. fin = [failure_reply op e])"

lemma verdict_of:
  assumes "report_of_op op (Some r, err)"
  shows "(failures_shown op r st = 0 \<and> terminalError op (Some r) st = (Ret None, Some r))
       \<or> (failures_shown op r st \<noteq> 0 \<and> (\<exists>e r'. terminalError op (Some r) st = (Ret (Some e), r')))"
proof -
  have "rpRestore r \<noteq> None" if "op = ''restore''"
    using assms that by (auto simp: report_of_op_def sections_def split: if_splits)
  then show ?thesis
    by (auto simp: terminalError_def failures_shown_def Let_def word_gt_0 uint_0_iff split: option.split)
qed

lemma final_replies_right:
  assumes "report_of_op op result"
  shows "\<exists>fin. final_replies ok op result st = Some fin \<and> right_ending ok op result st fin"
proof (cases result)
  case (Pair report err)
  show ?thesis
  proof (cases "err = None \<and> report \<noteq> None")
    case True
    then obtain r where "report = Some r" by blast
    with verdict_of [of op r err st] True assms Pair show ?thesis
      by (auto simp: final_replies_def right_ending_def succeeds_def)
  next
    case False
    with Pair show ?thesis
      by (cases err) (auto simp: final_replies_def right_ending_def succeeds_def terminalError_def)
  qed
qed

lemma right_ending_terminal:
  assumes "right_ending ok op result st fin"
  shows "fin \<noteq> []" "list_all (\<lambda>r. \<not> terminal_reply r) (butlast fin)" "terminal_reply (last fin)"
    "erType (last fin) = ReplySuccess \<longleftrightarrow> succeeds op result st"
  using assms
  by (auto simp: right_ending_def terminal_reply_def success_reply_def failure_reply_def message_reply_def
      report_reply_def split: if_splits option.splits)

subsection \<open>The stream of replies\<close>

definition final_state :: "('w, 'z) main_api_scheme \<Rightarrow> surroundings \<Rightarrow> bool \<Rightarrow> State" where
  "final_state K C quiet =
     listener_State (drain (EventMac K) (EventIBytes K) (concat (suEvents C)) (NewEventListener quiet))"

text \<open>The states among the replies are those after growing prefixes of the events.\<close>

definition state_after :: "('w, 'z) main_api_scheme \<Rightarrow> bool \<Rightarrow> event list \<Rightarrow> State" where
  "state_after K quiet es = event_part (listener_State (drain (EventMac K) (EventIBytes K) es (NewEventListener quiet)))"

definition shown_in_order :: "('w, 'z) main_api_scheme \<Rightarrow> surroundings \<Rightarrow> bool \<Rightarrow> ExecReply list \<Rightarrow> bool" where
  "shown_in_order K C quiet rs \<longleftrightarrow>
     (let es = concat (suEvents C) in
      \<exists>ks. sorted ks \<and> list_all (\<lambda>k. k \<le> length es) ks
         \<and> states_sent rs = map (\<lambda>k. Some (state_after K quiet (take k es))) ks)"

lemma task_outcome:
  fixes K :: "('w, 'z) main_api_scheme"
  assumes "0 < sint (MaxConcurrency K)"
  shows "(\<exists>msg s1. dispatch K (suOperation C) input s = (Panic msg, s1)
            \<and> run_task K C quiet input s = (Crashed msg, s1))
       \<or> (\<exists>result s1 new body fin. dispatch K (suOperation C) input s = (Ret result, s1)
            \<and> sent s1 = sent s @ new
            \<and> run_task K C quiet input s = (Exited 0, s1\<lparr>sent := sent s @ body @ fin\<rparr>)
            \<and> body_ok new body \<and> list_all side_reply new
            \<and> right_ending (MarshalReport K) (plOp input) result (final_state K C quiet) fin
            \<and> shown_in_order K C quiet (body @ fin))"
proof -
  obtain r s1 where run: "dispatch K (suOperation C) input s = (r, s1)" by fastforce
  obtain new where new: "r \<noteq> Hang" "sent s1 = sent s @ new" "list_all side_reply new"
    using tameD [OF tame_operations [OF assms] run] by blast
  have "r \<noteq> Err e" for e using dispatch_no_error [of K "suOperation C" input s e] run by simp
  with new(1) consider msg where "r = Panic msg" | result where "r = Ret result" by (cases r) auto
  then show ?thesis
  proof cases
    case (1 msg)
    with run show ?thesis by (simp add: run_task_def)
  next
    case (2 result)
    define R where "R = \<lparr>reMac = EventMac K, reIBytes = EventIBytes K, reNumCPU = NumCPU K,
      reReportOk = MarshalReport K, reOp = plOp input, reResult = result, reQuiet = quiet\<rparr>"
    define c where "c = machine_run R (suMain C)
      (machine_init R (suProcFound C) (weave (suEvents C) new) (suTicks C) (suFinal C) (suSignal C))"
    have "report_of_op (plOp input) result"
      using givesD [OF gives_dispatch] run 2 by blast
    from final_replies_right [OF this, of "MarshalReport K" "final_state K C quiet"]
    obtain fin where fin: "ending R (concat (suEvents C)) = Some fin"
      "right_ending (MarshalReport K) (plOp input) result (final_state K C quiet) fin"
      by (auto simp: ending_def R_def final_state_def)
    have own: "list_all (\<lambda>r. \<not> own_reply r) (replies (weave (suEvents C) new))"
      using side_replies(1) [OF new(3)] by simp
    obtain body where body: "mnPhase c = MExit" "mnOut c = body @ fin" "body_ok new body"
      using machine_outcome [OF own c_def [symmetric]] fin(1) by auto
    have "run_task K C quiet input s = (Exited 0, s1\<lparr>sent := sent s @ body @ fin\<rparr>)"
      using run 2 new(2) body(1,2) by (simp add: run_task_def Let_def c_def R_def)
    moreover have "shown_in_order K C quiet (body @ fin)"
      using machine_states [OF own c_def [symmetric]] body(2)
      by (simp add: shown_in_order_def in_order_def state_after_def state_at_def R_def)
    ultimately show ?thesis using run 2 new(2,3) body(3) fin(2) by blast
  qed
qed

text \<open>
  Property C1 (task_stream). Whatever the operation, its outcome, the interleaving of the
  goroutines, the ticks, the events and the signal: the run comes to an end, and unless the
  operation itself crashes the exit code is 0 and the stream on stdout is complete. It
  consists of the operation's own replies in their order, mixed with state and info replies,
  and then of an ending with exactly one terminal reply, which is the last reply of all. That
  reply is a success exactly when the operation returned no error and neither its report nor
  the state with every event folded in shows a failure.
\<close>

theorem task_stream:
  "let K = K\<lparr>MaxConcurrency := concurrency_of K opts\<rparr> in
   case run_task K C quiet input s of
     (Exited code, s') \<Rightarrow>
       code = 0 \<and> (\<exists>result s1 new body fin.
         dispatch K (suOperation C) input s = (Ret result, s1) \<and> sent s1 = sent s @ new
         \<and> s' = s1\<lparr>sent := sent s @ body @ fin\<rparr>
         \<and> filter (\<lambda>r. \<not> own_reply r) body = new
         \<and> fin \<noteq> [] \<and> list_all (\<lambda>r. \<not> terminal_reply r) (body @ butlast fin) \<and> terminal_reply (last fin)
         \<and> (erType (last fin) = ReplySuccess \<longleftrightarrow> succeeds (plOp input) result (final_state K C quiet)))
   | (Crashed msg, s') \<Rightarrow> dispatch K (suOperation C) input s = (Panic msg, s')
   | (Hung, s') \<Rightarrow> False"
proof -
  define K' where "K' = K\<lparr>MaxConcurrency := concurrency_of K opts\<rparr>"
  have workers: "0 < sint (MaxConcurrency K')" by (simp add: K'_def concurrency_positive)
  consider msg s1 where "dispatch K' (suOperation C) input s = (Panic msg, s1)"
      "run_task K' C quiet input s = (Crashed msg, s1)"
    | result s1 new body fin where "dispatch K' (suOperation C) input s = (Ret result, s1)"
      "sent s1 = sent s @ new" "run_task K' C quiet input s = (Exited 0, s1\<lparr>sent := sent s @ body @ fin\<rparr>)"
      "body_ok new body" "list_all side_reply new"
      "right_ending (MarshalReport K') (plOp input) result (final_state K' C quiet) fin"
      "shown_in_order K' C quiet (body @ fin)"
    using task_outcome [OF workers, of C input s quiet] by blast
  then show ?thesis
  proof cases
    case 1
    then show ?thesis by (simp flip: K'_def)
  next
    case (2 result s1 new body fin)
    have "filter (\<lambda>r. \<not> own_reply r) body = new" using 2(4) by (simp add: body_ok_def)
    with 2(1-3) body_not_terminal [OF 2(4,5)] right_ending_terminal [OF 2(6)] show ?thesis
      unfolding Let_def K'_def [symmetric] 2(3) by auto
  qed
qed

text \<open>The replies of one type.\<close>

definition of_type :: "ReplyType \<Rightarrow> ExecReply list \<Rightarrow> ExecReply list" where
  "of_type t rs = filter (\<lambda>r. erType r = t) rs"

lemma no_reports:
  assumes "body_ok new body" and "list_all side_reply new"
  shows "of_type ReplyReport body = []"
proof -
  have "erType r \<noteq> ReplyReport" if "r \<in> set body" for r
  proof (cases "own_reply r")
    case False
    with that assms have "side_reply r" by (auto simp: body_ok_def list_all_iff)
    then show ?thesis by (auto simp: side_reply_def)
  qed (auto simp: own_reply_def)
  then show ?thesis by (simp add: of_type_def filter_empty_conv)
qed

lemma ending_reports:
  "right_ending ok op result st fin \<Longrightarrow> of_type ReplyReport fin =
     (case fst result of
        Some r \<Rightarrow> if succeeds op result st \<and> ok r then [report_reply r] else []
      | None \<Rightarrow> [])"
  by (auto simp: right_ending_def of_type_def report_reply_def success_reply_def failure_reply_def
      message_reply_def split: if_splits option.split)

text \<open>
  Property C6 (report_sent). A run sends at most one report: the one the operation returned,
  unchanged, when the operation succeeded. A failed run sends none, neither the report of a
  partial backup or sync nor the entry errors of a restore; all that remains of them is the
  text of the failure.
\<close>

theorem report_sent:
  "let K = K\<lparr>MaxConcurrency := concurrency_of K opts\<rparr> in
   case (run_task K C quiet input s, dispatch K (suOperation C) input s) of
     ((Exited _, s'), (Ret result, _)) \<Rightarrow>
       of_type ReplyReport (sent s') = of_type ReplyReport (sent s) @
         (case fst result of
            Some r \<Rightarrow> if succeeds (plOp input) result (final_state K C quiet) \<and> MarshalReport K r
                      then [report_reply r] else []
          | None \<Rightarrow> [])
   | ((Exited _, _), _) \<Rightarrow> False
   | _ \<Rightarrow> True"
proof -
  define K' where "K' = K\<lparr>MaxConcurrency := concurrency_of K opts\<rparr>"
  have workers: "0 < sint (MaxConcurrency K')" by (simp add: K'_def concurrency_positive)
  have "of_type t (xs @ ys) = of_type t xs @ of_type t ys" for t xs ys by (simp add: of_type_def)
  then show ?thesis
    unfolding Let_def K'_def [symmetric]
    using task_outcome [OF workers, of C input s quiet] no_reports ending_reports by fastforce
qed

text \<open>
  Property C8 (states_in_order). Every state a run sends is, apart from the sampled series, the
  listener's state after some first part of the events, and the parts only grow: no state
  mixes old and new figures, shows an event that did not happen, or takes one back.
\<close>

theorem states_in_order:
  "let K = K\<lparr>MaxConcurrency := concurrency_of K opts\<rparr> in
   case run_task K C quiet input s of
     (Exited _, s') \<Rightarrow>
       \<exists>new. sent s' = sent s @ new
         \<and> (let es = concat (suEvents C) in
            \<exists>ks. sorted ks \<and> list_all (\<lambda>k. k \<le> length es) ks
              \<and> states_sent new = map (\<lambda>k. Some (state_after K quiet (take k es))) ks)
   | _ \<Rightarrow> True"
proof -
  define K' where "K' = K\<lparr>MaxConcurrency := concurrency_of K opts\<rparr>"
  have workers: "0 < sint (MaxConcurrency K')" by (simp add: K'_def concurrency_positive)
  show ?thesis
    unfolding Let_def K'_def [symmetric]
    using task_outcome [OF workers, of C input s quiet] unfolding shown_in_order_def Let_def by force
qed

subsection \<open>The process\<close>

text \<open>A fragment that returns normally and sends no reply.\<close>

definition silent :: "('w, 'a) prog \<Rightarrow> bool" where
  "silent m \<longleftrightarrow> (\<forall>s. \<exists>a s'. m s = (Ret a, s') \<and> sent s' = sent s)"

lemma silentI: "(\<And>s. \<exists>a s'. m s = (Ret a, s') \<and> sent s' = sent s) \<Longrightarrow> silent m"
  by (simp add: silent_def)

lemma silent_bind:
  assumes "silent m" and "\<And>a. silent (f a)"
  shows "silent (bind m f)"
proof (rule silentI)
  fix s
  obtain a s' where m: "m s = (Ret a, s')" "sent s' = sent s" using assms(1) unfolding silent_def by blast
  obtain b s'' where "f a s' = (Ret b, s'')" "sent s'' = sent s'" using assms(2) unfolding silent_def by blast
  with m show "\<exists>b s''. bind m f s = (Ret b, s'') \<and> sent s'' = sent s" by (simp add: bind_def)
qed

lemma silent_leaf:
  "silent (ret x)" "silent (ecall f1)" "silent (vcall f2)" "silent (set_registry f3)"
  by (auto simp: silent_def prog_simps set_registry_def)

lemma silent_for_each: "(\<And>x acc. silent (body x acc)) \<Longrightarrow> silent (for_each body xs acc)"
  by (induction xs arbitrary: acc) (auto intro: silent_leaf silent_bind)

lemma silent_load_hook: "silent (pkgLoadHook K m version pkgdir)"
  unfolding pkgLoadHook_def for_storage_def registerStorage_def
  by (auto intro!: silent_bind silent_leaf silent_for_each)

lemma load_packages_run:
  "\<exists>code s'. load_packages K opts s = (Ret code, s') \<and> sent s' = sent s \<and> (code = None \<or> code = Some 1)"
proof -
  have "silent (load_packages K opts)"
    unfolding load_packages_def
    by (auto intro!: silent_bind silent_leaf silent_for_each silent_load_hook split: option.split prod.split)
  then obtain code s' where run: "load_packages K opts s = (Ret code, s')" "sent s' = sent s"
    unfolding silent_def by blast
  have "gives (load_packages K opts) (\<lambda>code. code = None \<or> code = Some 1)"
    unfolding load_packages_def
    by (auto intro!: gives_cases gives_bind_any gives_leaf split: option.splits prod.split)
  with run show ?thesis by (blast dest: givesD)
qed

lemma after_cache_run:
  fixes K :: "('w, 'z) main_api_scheme"
  assumes workers: "0 < sint (MaxConcurrency K)"
  shows "case after_cache K C opts s of
      (Exited code, s') \<Rightarrow> code = 0 \<or> (code = 1 \<and> sent s' = sent s)
    | (Crashed msg, _) \<Rightarrow> (\<exists>input s1 s2. dispatch K (suOperation C) input s1 = (Panic msg, s2))
    | (Hung, _) \<Rightarrow> False"
proof -
  obtain code s1 where load: "load_packages K opts s = (Ret code, s1)" "sent s1 = sent s"
    "code = None \<or> code = Some 1" using load_packages_run by blast
  obtain d w where dec: "DecodeStdin K (world s1) = (d, w)" by fastforce
  show ?thesis
  proof (cases "code = None")
    case True
    show ?thesis
    proof (cases d)
      case (Payload input)
      have "after_cache K C opts s = run_task K C (oQuiet opts) input (s1\<lparr>world := w\<rparr>)"
        using load dec True Payload by (simp add: after_cache_def)
      then show ?thesis
        using task_outcome [OF workers, of C input "s1\<lparr>world := w\<rparr>" "oQuiet opts"] by force
    qed (use load dec True in \<open>simp_all add: after_cache_def\<close>)
  qed (use load in \<open>auto simp: after_cache_def\<close>)
qed

text \<open>
  Property C7 (main_exit_codes). \<open>Main\<close> always comes to an end. It exits with 0, 1 or 2: with 2
  exactly when the flags are malformed or no cache directory is given, before anything else
  is done, and with 1 before any reply is sent. It crashes only in the operation it runs, and
  that operation always runs with a positive concurrency.
\<close>

theorem main_exit_codes:
  "case Main K C args s of
     (Exited code, s') \<Rightarrow>
       code \<in> {0, 1, 2}
       \<and> (code = 2 \<longleftrightarrow> (case parse_flags args (default_options K) of
                          None \<Rightarrow> True | Some opts \<Rightarrow> oCache opts = ''''))
       \<and> (if code = 2 then s' = s else if code = 1 then sent s' = sent s else True)
   | (Crashed msg, _) \<Rightarrow>
       (\<exists>opts input s1 s2. 0 < sint (concurrency_of K opts)
          \<and> dispatch (K\<lparr>MaxConcurrency := concurrency_of K opts\<rparr>) (suOperation C) input s1 = (Panic msg, s2))
   | (Hung, _) \<Rightarrow> False"
proof (cases "parse_flags args (default_options K)")
  case None
  then show ?thesis by (simp add: Main_def)
next
  case (Some opts)
  define K' where "K' = K\<lparr>MaxConcurrency := concurrency_of K opts\<rparr>"
  have workers: "0 < sint (MaxConcurrency K')" by (simp add: K'_def concurrency_positive)
  note after = after_cache_run [OF workers]
  show ?thesis
  proof (cases "oCache opts = ''''")
    case True
    with Some show ?thesis by (simp add: Main_def)
  next
    case False
    define w where "w = (if 0 < sint (oCpu opts) then SetGOMAXPROCS K (oCpu opts) (world s) else world s)"
    obtain e w' where mk: "MkdirAll K (oCache opts) w = (e, w')" by fastforce
    show ?thesis
    proof (cases e)
      case (Some err)
      then show ?thesis using \<open>parse_flags args (default_options K) = Some opts\<close> False mk
        by (simp add: Main_def flip: w_def)
    next
      case None
      obtain r s2 where ac: "after_cache K' C opts (s\<lparr>world := OpenCache K (oCache opts) w'\<rparr>) = (r, s2)"
        by fastforce
      have "OpenCache K' = OpenCache K" "CloseCaches K' = CloseCaches K" by (simp_all add: K'_def)
      then have "Main K C args s = (r, s2\<lparr>world := CloseCaches K (world s2)\<rparr>)"
        using Some False mk None ac by (simp add: Main_def flip: w_def K'_def)
      with after [of "s\<lparr>world := OpenCache K (oCache opts) w'\<rparr>" C opts] ac Some False concurrency_positive [of K opts]
      show ?thesis by (cases r) (auto simp: K'_def)
    qed
  qed
qed

subsection \<open>The packages\<close>

definition package_entries :: "(Manifest \<times> string \<times> string) list \<Rightarrow> (pluginKey \<times> Plugin) list" where
  "package_entries pkgs = concat (map (\<lambda>(m, version, pkgdir). manifest_entries m version pkgdir) pkgs)"

lemma load_hooks_run:
  "\<exists>s'. for_each (\<lambda>(m, version, pkgdir) _. pkgLoadHook K m version pkgdir) pkgs () s = (Ret (), s')
     \<and> plugins s' = map_of (package_entries pkgs) ++ plugins s"
proof (induction pkgs arbitrary: s)
  case Nil
  then show ?case by (simp add: ret_def package_entries_def)
next
  case (Cons pkg pkgs)
  obtain m version pkgdir where pkg: "pkg = (m, version, pkgdir)" by (cases pkg)
  obtain s1 where s1: "pkgLoadHook K m version pkgdir s = (Ret (), s1)"
    "plugins s1 = RegisterPlugins m version pkgdir (plugins s)" using load_hook_run by blast
  obtain s2 where s2: "for_each (\<lambda>(m, version, pkgdir) _. pkgLoadHook K m version pkgdir) pkgs () s1 = (Ret (), s2)"
    "plugins s2 = map_of (package_entries pkgs) ++ plugins s1" using Cons.IH by blast
  with s1 pkg show ?case by (simp add: bind_def package_entries_def RegisterPlugins_entries)
qed

text \<open>
  Property C24 (packages_loaded). When the package directory can be read, every connector of every
  package is registered, for each plugin key the first package that claims it, and what was
  registered before stays; this holds even when \<open>LoadAll\<close> ends with an error, which only
  decides the exit code.
\<close>

theorem packages_loaded:
  assumes "oPkg opts \<noteq> ''''"
    and "NewFlatBackend K (oPkg opts) (oCache opts) (world s) = (None, w1)"
    and "LoadAll K (oPkg opts) w1 = ((pkgs, err), w2)"
  shows "\<exists>s'. load_packages K opts s = (Ret (if err = None then None else Some 1), s')
     \<and> plugins s' = map_of (package_entries pkgs) ++ plugins s"
proof -
  obtain s' where "for_each (\<lambda>(m, version, pkgdir) _. pkgLoadHook K m version pkgdir) pkgs ()
      (s\<lparr>world := w2\<rparr>) = (Ret (), s')"
    "plugins s' = map_of (package_entries pkgs) ++ plugins s"
    using load_hooks_run [of K pkgs "s\<lparr>world := w2\<rparr>"] by auto
  with assms show ?thesis
    by (cases err) (auto simp: load_packages_def bind_def prog_simps)
qed

text \<open>The demonstration instance as a process: one package, and a payload that asks for a listing.\<close>

definition demo_main :: "nat main_api" where
  "demo_main =
     inventory_api.extend demo_inventory
       (main_api.fields 4 4 (\<lambda>_ w. w) (\<lambda>_ w. (None, w)) (\<lambda>_ w. w) (\<lambda>w. w) (\<lambda>_ _ w. (None, w))
          (\<lambda>_ w. (([(example_manifest, ''1.0.0'', ''/pkgs'')], None), w))
          (\<lambda>w. (Payload \<lparr>plOp = ''prune'', plTaskConfig = [], plSource = None, plTarget = None\<rparr>, w))
          \<lparr>NilMac = [], FormatHex = hex_encode\<rparr> (\<lambda>_. ''0 B'') (\<lambda>_. True))"

lemma demo_main_calls:
  "NewFlatBackend demo_main = (\<lambda>_ _ w. (None, w))"
  "LoadAll demo_main = (\<lambda>_ w. (([(example_manifest, ''1.0.0'', ''/pkgs'')], None), w))"
  by (simp_all add: demo_main_def inventory_api.defs main_api.defs)

definition demo_options :: options where
  "demo_options = \<lparr>oPkg = ''/pkgs'', oCache = ''/cache'', oCpu = 1, oConcurrency = 0, oQuiet = False\<rparr>"

theorem packages_loaded_witness:
  "\<exists>s'. load_packages demo_main demo_options demo_state = (Ret (if (None :: gerror option) = None then None else Some 1), s')
     \<and> plugins s' = map_of (package_entries [(example_manifest, ''1.0.0'', ''/pkgs'')]) ++ plugins demo_state"
  by (rule packages_loaded) (simp_all add: demo_main_calls demo_options_def)

subsection \<open>Operations that do nothing\<close>

text \<open>
  Property C39 (unsupported_operations). An operation the executor does not implement, pruning and
  maintenance among them, fails with an error and does nothing else: no call into another
  package, no reply, no change of the registry.
\<close>

theorem unsupported_operations:
  assumes "plOp input \<notin> {''backup'', ''check'', ''create'', ''restore'', ''rm'', ''sync'', ''test'', ''inventory''}"
  shows "\<exists>e. dispatch K ch input s = (Ret (None, Some e), s)"
  using assms by (auto simp: dispatch_def prune_def maintenance_def returns_def prog_simps)

theorem unsupported_operations_witness:
  "\<exists>e. dispatch demo_main (\<lambda>_. 0) \<lparr>plOp = ''ls'', plTaskConfig = [], plSource = None, plTarget = None\<rparr> demo_state
     = (Ret (None, Some e), demo_state)"
  by (rule unsupported_operations) simp

end
